(* ===== verification/Prelude.thy ===== *)
theory Prelude
  imports Main "HOL-Library.Word" "HOL-Library.Signed_Division"
begin

text \<open>
  Shared vocabulary of the development: the C integer types, buffers and memory, the two
  shapes of C counting loop the sources use, XOR sums over an index range, and the lemma
  collections that the component proofs draw on.

  A buffer is the list of its bytes, and memory maps the address of a buffer to its
  contents. Two pointers alias exactly when they are the same address; the recovery code
  relies on such aliasing (it points two entries of a stripe at the zero page and lends the
  dead data pages to the syndrome routine), so it is kept explicit.
\<close>

unbundle bit_operations_syntax

type_synonym u8 = "8 word"
type_synonym u16 = "16 word"
type_synonym u64 = "64 word"
type_synonym addr = nat
type_synonym mem = "addr \<Rightarrow> u8 list"

named_theorems gf_eval \<open>evaluation of field operations on literals\<close>
named_theorems vec_simps \<open>lanewise vector operations\<close>
named_theorems xsum_simps \<open>laws of XOR sums\<close>

section \<open>Words\<close>

lemma unat_drop_bit_1: "unat (drop_bit 1 b) = unat (b :: 'a::len word) div 2"
  by (simp only: unat_drop_bit_eq) (simp add: drop_bit_Suc)

lemma unat_drop_bit_less:
  assumes "b \<noteq> 0"
  shows "unat (drop_bit (Suc 0) b) < unat (b :: 'a::len word)"
  using assms unat_drop_bit_1 [of b] by (simp add: unat_gt_0)

lemma and_1_odd [simp]: "b AND 1 \<noteq> 0 \<longleftrightarrow> odd (b :: 'a::len word)"
  by (simp add: and_one_eq odd_iff_mod_2_eq_one)

lemma and_0x80_bit: "a AND 0x80 = 0 \<longleftrightarrow> \<not> bit (a :: u8) 7"
proof -
  have "(0x80 :: u8) = 2 ^ 7" by simp
  then show ?thesis by (simp only: and_exp_eq_0_iff_not_bit)
qed

lemma xor_self_cancel [simp]: "a XOR (a XOR b) = (b :: 'a::len word)"
  by (simp flip: xor.assoc)

lemma xor_eq_0: "a XOR b = 0 \<longleftrightarrow> a = (b :: 'a::len word)"
  by (metis xor_self_cancel xor.comm_neutral xor_self_eq)

lemma less_8_cases: "i < 8 \<longleftrightarrow> i \<in> {0, 1, 2, 3, 4, 5, 6, 7 :: nat}"
  by auto

lemma u8_no_bit: "8 \<le> n \<Longrightarrow> \<not> bit (a :: u8) n"
  using bit_imp_le_length [of a n] by auto

lemma unat_u8_less [simp]: "unat (a :: u8) < 256"
  using unsigned_less [of a] by simp

text \<open>
  A byte is the XOR of its bits, so two XOR-additive functions on bytes agree as soon as
  they agree on the eight powers of two.
\<close>

lemma take_bit_Suc_xor:
  "take_bit (Suc n) (a :: u8) = take_bit n a XOR (if bit a n then 2 ^ n else 0)"
  by (rule bit_word_eqI) (auto simp: bit_simps less_Suc_eq)

lemma additive_eqI:
  fixes f g :: "u8 \<Rightarrow> 'b::len word"
  assumes f: "\<And>a b. f (a XOR b) = f a XOR f b"
    and g: "\<And>a b. g (a XOR b) = g a XOR g b"
    and basis: "\<And>i. i < 8 \<Longrightarrow> f (2 ^ i) = g (2 ^ i)"
  shows "f a = g a"
proof -
  have zero: "f 0 = 0" "g 0 = 0"
    using f [of 0 0] g [of 0 0] by simp_all
  have "f (take_bit n a) = g (take_bit n a)" if "n \<le> 8" for n
    using that
  proof (induction n)
    case 0
    then show ?case by (simp add: zero)
  next
    case (Suc n)
    then show ?case by (simp add: take_bit_Suc_xor f g basis zero)
  qed
  from this [of 8] show ?thesis
    by (simp add: take_bit_word_eq_self)
qed

lemma u8_bits_induct [case_names zero step]:
  assumes "P 0" and "\<And>b. b \<noteq> 0 \<Longrightarrow> P (drop_bit 1 b) \<Longrightarrow> P b"
  shows "P (b :: u8)"
proof (induction "unat b" arbitrary: b rule: less_induct)
  case less
  then show ?case
    by (cases "b = 0") (auto intro: assms simp: unat_drop_bit_less)
qed

section \<open>Byte-indexed tables\<close>

text \<open>A 256-entry C table, and its lookup by a byte.\<close>

definition byte_table :: "(u8 \<Rightarrow> 'a) \<Rightarrow> 'a list" where
  "byte_table f = map (\<lambda>i. f (word_of_nat i)) [0..<256]"

lemma length_byte_table [simp]: "length (byte_table f) = 256"
  by (simp add: byte_table_def)

lemma nth_byte_table [simp]: "byte_table f ! unat a = f a"
  by (simp add: byte_table_def)

section \<open>XOR sums\<close>

primrec xsum :: "nat \<Rightarrow> (nat \<Rightarrow> u8) \<Rightarrow> u8" where
  "xsum 0 f = 0"
| "xsum (Suc n) f = xsum n f XOR f n"

lemma xsum_cong [fundef_cong]:
  "n = n' \<Longrightarrow> (\<And>i. i < n' \<Longrightarrow> f i = g i) \<Longrightarrow> xsum n f = xsum n' g"
  by (induction n arbitrary: n') auto

lemma xsum_zero [simp]: "xsum n (\<lambda>i. 0) = 0"
  by (induction n) simp_all

lemma xsum_zero_all: "(\<And>i. i < n \<Longrightarrow> f i = 0) \<Longrightarrow> xsum n f = 0"
  by (induction n) simp_all

lemma xsum_xor [xsum_simps]: "xsum n (\<lambda>i. f i XOR g i) = xsum n f XOR xsum n g"
  by (induction n) (simp_all add: ac_simps)

lemma xsum_additive:
  assumes "\<And>a b. h (a XOR b) = h a XOR h b"
  shows "h (xsum n f) = xsum n (\<lambda>i. h (f i))"
proof -
  have "h 0 = 0" using assms [of 0 0] by simp
  then show ?thesis by (induction n) (simp_all add: assms)
qed

lemma xsum_swap: "xsum n (\<lambda>i. xsum k (\<lambda>j. f i j)) = xsum k (\<lambda>j. xsum n (\<lambda>i. f i j))"
  by (induction n) (simp_all add: xsum_xor)

lemma xsum_delta [simp]: "xsum n (\<lambda>i. if i = j then f i else 0) = (if j < n then f j else 0)"
  by (induction n) auto

lemma xsum_delta' [simp]: "xsum n (\<lambda>i. if j = i then f i else 0) = (if j < n then f j else 0)"
  by (induction n) auto

text \<open>Taking one index out of a sum.\<close>

lemma xsum_remove: "j < n \<Longrightarrow> xsum n f = f j XOR xsum n (f(j := 0))"
proof (induction n)
  case (Suc n)
  have "xsum n (f(n := 0)) = xsum n f"
    by (rule xsum_cong) simp_all
  with Suc show ?case
    by (cases "j = n") (simp_all add: ac_simps del: fun_upd_apply, simp_all add: ac_simps)
qed simp

text \<open>The sum over the indices \<open>lo \<le> i < hi\<close>.\<close>

definition xsum_range :: "nat \<Rightarrow> nat \<Rightarrow> (nat \<Rightarrow> u8) \<Rightarrow> u8" where
  "xsum_range lo hi f = xsum hi (\<lambda>i. if lo \<le> i then f i else 0)"

lemma xsum_range_0 [simp]: "xsum_range 0 n f = xsum n f"
  by (simp add: xsum_range_def)

lemma xsum_range_empty [simp]: "hi \<le> lo \<Longrightarrow> xsum_range lo hi f = 0"
  by (auto simp: xsum_range_def intro!: xsum_zero_all)

lemma xsum_range_lower:
  assumes "lo < hi"
  shows "xsum_range lo hi f = f lo XOR xsum_range (Suc lo) hi f"
proof -
  have "xsum hi ((\<lambda>i. if lo \<le> i then f i else 0)(lo := 0)) = xsum_range (Suc lo) hi f"
    unfolding xsum_range_def by (rule xsum_cong) auto
  then show ?thesis
    unfolding xsum_range_def using assms by (subst xsum_remove [of lo]) simp_all
qed

lemma xsum_range_cong:
  "(\<And>i. lo \<le> i \<Longrightarrow> i < hi \<Longrightarrow> f i = g i) \<Longrightarrow> xsum_range lo hi f = xsum_range lo hi g"
  by (auto simp: xsum_range_def intro!: xsum_cong)

lemma xsum_range_additive:
  assumes "\<And>a b. h (a XOR b) = h a XOR h b"
  shows "h (xsum_range lo hi f) = xsum_range lo hi (\<lambda>i. h (f i))"
proof -
  have "h 0 = 0" using assms [of 0 0] by simp
  then show ?thesis
    unfolding xsum_range_def xsum_additive [OF assms] by (auto intro!: xsum_cong)
qed

section \<open>Reading and writing a run of bytes in a buffer\<close>

definition get :: "u8 list \<Rightarrow> nat \<Rightarrow> nat \<Rightarrow> u8 list" where
  "get xs d w = take w (drop d xs)"

definition put :: "u8 list \<Rightarrow> nat \<Rightarrow> u8 list \<Rightarrow> u8 list" where
  "put xs d ys = take d xs @ ys @ drop (d + length ys) xs"

lemma length_get [simp]: "length (get xs d w) = min w (length xs - d)"
  by (simp add: get_def)

lemma length_put [simp]: "d + length ys \<le> length xs \<Longrightarrow> length (put xs d ys) = length xs"
  by (simp add: put_def)

lemma nth_get [simp]: "i < w \<Longrightarrow> d + w \<le> length xs \<Longrightarrow> get xs d w ! i = xs ! (d + i)"
  by (simp add: get_def)

lemma nth_put:
  "d + length ys \<le> length xs \<Longrightarrow> i < length xs \<Longrightarrow>
   put xs d ys ! i = (if d \<le> i \<and> i < d + length ys then ys ! (i - d) else xs ! i)"
  by (auto simp: put_def nth_append min_def)

lemma get_eq_map: "d + w \<le> length xs \<Longrightarrow> get xs d w = map (\<lambda>i. xs ! i) [d..<d + w]"
  by (auto simp: list_eq_iff_nth_eq)

lemma put_put:
  "d + length ys + length zs \<le> length xs \<Longrightarrow>
   put (put xs d ys) (d + length ys) zs = put xs d (ys @ zs)"
  by (auto simp: list_eq_iff_nth_eq nth_put nth_append)

lemma put_Nil [simp]: "put xs d [] = xs"
  by (simp add: put_def)

lemma get_put_same [simp]: "d + length ys \<le> length xs \<Longrightarrow> get (put xs d ys) d (length ys) = ys"
  by (auto simp: list_eq_iff_nth_eq nth_put)

lemma map_upt_append:
  "i \<le> j \<Longrightarrow> j \<le> k \<Longrightarrow> map f [i..<j] @ map f [j..<k] = map f [i..<k]"
  by (metis le_iff_add map_append upt_add_eq_append)

section \<open>C loops\<close>

text \<open>
  \<open>for_step d n w body\<close> is \<^verbatim>\<open>for (; d < n; d += w) body\<close>. The step of every loop in the
  sources is a positive literal; the test for zero only makes the recursion total.
\<close>

function for_step :: "nat \<Rightarrow> nat \<Rightarrow> nat \<Rightarrow> (nat \<Rightarrow> 's \<Rightarrow> 's) \<Rightarrow> 's \<Rightarrow> 's" where
  "for_step d n w body s =
     (if w = 0 \<or> n \<le> d then s else for_step (d + w) n w body (body d s))"
  by pat_completeness auto
termination
  by (relation "measure (\<lambda>(d, n, w, body, s). n - d)") auto

declare for_step.simps [simp del]

lemma for_step_done [simp]: "n \<le> d \<Longrightarrow> for_step d n w body s = s"
  by (simp add: for_step.simps)

lemma for_step_more: "0 < w \<Longrightarrow> d < n \<Longrightarrow> for_step d n w body s = for_step (d + w) n w body (body d s)"
  by (subst for_step.simps) simp

text \<open>The loop rule, for a bound that the step divides.\<close>

lemma for_step_invariant:
  assumes "0 < w" "w dvd n" "w dvd d" "d \<le> n" "I d s"
    and step: "\<And>d s. w dvd d \<Longrightarrow> d + w \<le> n \<Longrightarrow> I d s \<Longrightarrow> I (d + w) (body d s)"
  shows "I n (for_step d n w body s)"
  using assms(3-5)
proof (induction "n - d" arbitrary: d s rule: less_induct)
  case less
  show ?case
  proof (cases "n \<le> d")
    case True
    with less.prems show ?thesis by simp
  next
    case False
    with less.prems \<open>w dvd n\<close> have "w \<le> n - d"
      by (intro dvd_imp_le) (auto intro: dvd_diff_nat)
    with False have "d + w \<le> n" by simp
    with False less.prems \<open>0 < w\<close> show ?thesis
      by (subst for_step_more) (auto intro!: less.hyps step)
  qed
qed

text \<open>\<open>for (i = lo; i < hi; i++) body\<close>\<close>

definition for_up :: "nat \<Rightarrow> nat \<Rightarrow> (nat \<Rightarrow> 's \<Rightarrow> 's) \<Rightarrow> 's \<Rightarrow> 's" where
  "for_up lo hi body s = fold body [lo..<hi] s"

lemma for_up_done [simp]: "hi \<le> lo \<Longrightarrow> for_up lo hi body s = s"
  by (simp add: for_up_def)

lemma for_up_Suc: "lo \<le> hi \<Longrightarrow> for_up lo (Suc hi) body s = body hi (for_up lo hi body s)"
  by (simp add: for_up_def)

lemma for_up_invariant:
  assumes "lo \<le> hi" "I lo s"
    and "\<And>i s. lo \<le> i \<Longrightarrow> i < hi \<Longrightarrow> I i s \<Longrightarrow> I (Suc i) (body i s)"
  shows "I hi (for_up lo hi body s)"
  using assms
proof (induction "hi - lo" arbitrary: hi)
  case (Suc n)
  then obtain h where "hi = Suc h" "lo \<le> h" by (cases hi) auto
  with Suc show ?case by (auto simp: for_up_Suc)
qed simp

lemma for_up_cong:
  "(\<And>i s. lo \<le> i \<Longrightarrow> i < hi \<Longrightarrow> f i s = g i s) \<Longrightarrow> for_up lo hi f s = for_up lo hi g s"
  unfolding for_up_def by (rule fold_cong) auto

text \<open>\<open>for (z = hi - 1; z >= lo; z--) body\<close>\<close>

definition for_down :: "nat \<Rightarrow> nat \<Rightarrow> (nat \<Rightarrow> 's \<Rightarrow> 's) \<Rightarrow> 's \<Rightarrow> 's" where
  "for_down lo hi body s = fold body (rev [lo..<hi]) s"

lemma for_down_invariant:
  assumes "lo \<le> hi" "I hi s"
    and "\<And>z s. lo \<le> z \<Longrightarrow> z < hi \<Longrightarrow> I (Suc z) s \<Longrightarrow> I z (body z s)"
  shows "I lo (for_down lo hi body s)"
  using assms
proof (induction "hi - lo" arbitrary: hi s)
  case 0
  then show ?case by (simp add: for_down_def)
next
  case (Suc n)
  then obtain h where h: "hi = Suc h" "lo \<le> h" by (cases hi) auto
  have "for_down lo hi body s = for_down lo h body (body h s)"
    using h by (simp add: for_down_def)
  moreover have "I lo (for_down lo h body (body h s))"
    using Suc.prems Suc.hyps(2) h by (intro Suc.hyps(1)) auto
  ultimately show ?case by simp
qed

text \<open>
  \<open>while (bytes) { body; bytes -= w; }\<close> over a \<^verbatim>\<open>size_t\<close> with \<open>wrap\<close> values: the count wraps around
  when less than \<open>w\<close> is left, and the loop goes on. The turn at offset \<open>d\<close> touches the bytes from \<open>d\<close>
  to \<open>d + w\<close> of its buffers; \<open>room\<close> is the length of the shortest of them, and \<open>None\<close> is a turn that
  goes past its end.
\<close>

function while_bytes :: "nat \<Rightarrow> nat \<Rightarrow> nat \<Rightarrow> nat \<Rightarrow> nat \<Rightarrow> (nat \<Rightarrow> 's \<Rightarrow> 's) \<Rightarrow> 's \<Rightarrow> 's option" where
  "while_bytes wrap room w d bytes body s =
     (if bytes = 0 then Some s
      else if w = 0 \<or> room < d + w then None
      else while_bytes wrap room w (d + w) (if w \<le> bytes then bytes - w else bytes + wrap - w) body (body d s))"
  by pat_completeness auto
termination by (relation "measure (\<lambda>(wrap, room, w, d, bytes, body, s). room - d)") auto

declare while_bytes.simps [simp del]

lemma while_bytes_eq:
  assumes "0 < w" "w dvd bytes" "d + bytes \<le> room"
  shows "while_bytes wrap room w d bytes body s = Some (for_step d (d + bytes) w body s)"
  using assms
proof (induction wrap room w d bytes body s rule: while_bytes.induct)
  case (1 wrap room w d bytes body s)
  show ?case
  proof (cases "bytes = 0")
    case True
    then show ?thesis by (simp add: while_bytes.simps)
  next
    case False
    with 1(3) have le: "w \<le> bytes" by (simp add: dvd_imp_le)
    with 1(2,4) have w: "w \<le> bytes" "\<not> (w = 0 \<or> room < d + w)" by linarith+
    have "w dvd bytes - w" using 1(3) w(1) by (simp add: dvd_diff_nat)
    with 1 w False have IH: "while_bytes wrap room w (d + w) (bytes - w) body (body d s) =
        Some (for_step (d + w) (d + w + (bytes - w)) w body (body d s))" by simp
    have "d < d + bytes" using False by simp
    then have "for_step d (d + bytes) w body s = for_step (d + w) (d + bytes) w body (body d s)"
      using 1 by (intro for_step_more) auto
    with IH False w show ?thesis by (subst while_bytes.simps) simp
  qed
qed

text \<open>The count keeps its remainder modulo \<open>w\<close> when it wraps around, so it never reaches zero.\<close>

lemma while_bytes_overrun:
  assumes "0 < w" "w dvd wrap" "0 < wrap" "\<not> w dvd bytes"
  shows "while_bytes wrap room w d bytes body s = None"
  using assms
proof (induction wrap room w d bytes body s rule: while_bytes.induct)
  case (1 wrap room w d bytes body s)
  have bytes: "bytes \<noteq> 0" using 1(5) by (auto intro: gr0I)
  show ?case
  proof (cases "w = 0 \<or> room < d + w")
    case True
    with bytes show ?thesis by (subst while_bytes.simps) simp
  next
    case False
    have "w \<le> wrap" using 1(3,4) by (simp add: dvd_imp_le)
    then have "bytes + wrap - w = bytes + (wrap - w)" "w dvd wrap - w" using 1(3) by (simp_all add: dvd_diff_nat)
    then have "\<not> w dvd (if w \<le> bytes then bytes - w else bytes + wrap - w)"
      using 1(5) by (simp add: dvd_minus_self dvd_add_left_iff)
    with 1 bytes False show ?thesis by (subst while_bytes.simps) simp
  qed
qed

lemma while_bytes_None:
  assumes "0 < w" "w dvd wrap" "0 < wrap" "d + bytes \<le> room"
  shows "while_bytes wrap room w d bytes body s = None \<longleftrightarrow> \<not> w dvd bytes"
proof (cases "w dvd bytes")
  case True
  then show ?thesis by (simp add: while_bytes_eq [OF assms(1) _ assms(4)])
qed (use while_bytes_overrun [OF assms(1-3)] in simp)

end
