(* ===== verification/GF256.thy ===== *)
theory GF256
  imports Prelude
begin

text \<open>
  The field GF(2^8) of \<^verbatim>\<open>raid6/mktables.c\<close>: its multiplication and power loops and the six
  tables the program prints (\<^verbatim>\<open>raid6_gfmul\<close>, \<^verbatim>\<open>raid6_vgfmul\<close>, \<^verbatim>\<open>raid6_gfexp\<close>,
  \<^verbatim>\<open>raid6_gflog\<close>, \<^verbatim>\<open>raid6_gfinv\<close>, \<^verbatim>\<open>raid6_gfexi\<close>), followed by the field laws, the order of
  the generator 2, and what each table holds. The locale \<open>galois_field\<close> is the interface
  that the coding components rely on; it is interpreted here on the in-tree multiplication
  and, in the ISA-L theories, on the table-driven one.
\<close>

section \<open>The code of mktables.c\<close>

text \<open>One turn of the shift register: \<^verbatim>\<open>(a << 1) ^ (a & 0x80 ? 0x1d : 0)\<close>.\<close>

definition xtimes :: "u8 \<Rightarrow> u8" where
  "xtimes a = push_bit 1 a XOR (if a AND 0x80 \<noteq> 0 then 0x1d else 0)"

function gfmul_loop :: "u8 \<Rightarrow> u8 \<Rightarrow> u8 \<Rightarrow> u8" where
  "gfmul_loop a b v =
     (if b = 0 then v
      else gfmul_loop (xtimes a) (drop_bit 1 b) (if b AND 1 \<noteq> 0 then v XOR a else v))"
  by pat_completeness auto
termination
  by (relation "measure (\<lambda>(a, b, v). unat b)") (auto simp: unat_drop_bit_less)

declare gfmul_loop.simps [simp del]

definition gfmul :: "u8 \<Rightarrow> u8 \<Rightarrow> u8" where
  "gfmul a b = gfmul_loop a b 0"

text \<open>The exponent is a C \<^verbatim>\<open>int\<close>: \<^verbatim>\<open>%\<close> truncates towards zero.\<close>

function gfpow_loop :: "u8 \<Rightarrow> nat \<Rightarrow> u8 \<Rightarrow> u8" where
  "gfpow_loop a b v =
     (if b = 0 then v
      else gfpow_loop (gfmul a a) (b div 2) (if odd b then gfmul v a else v))"
  by pat_completeness auto
termination
  by (relation "measure (\<lambda>(a, b, v). b)") auto

declare gfpow_loop.simps [simp del]

definition gfpow :: "u8 \<Rightarrow> int \<Rightarrow> u8" where
  "gfpow a b = (let b = b smod 255; b = (if b < 0 then b + 255 else b)
                in gfpow_loop a (nat b) 1)"

definition raid6_gfmul :: "u8 list list" where
  "raid6_gfmul = byte_table (\<lambda>i. byte_table (\<lambda>j. gfmul i j))"

text \<open>A row of the vector table: the products with the low nibbles, then the high ones.\<close>

definition raid6_vgfmul :: "u8 list list" where
  "raid6_vgfmul = byte_table (\<lambda>i.
     map (\<lambda>j. gfmul i (word_of_nat j)) [0..<16] @
     map (\<lambda>j. gfmul i (push_bit 4 (word_of_nat j))) [0..<16])"

primrec gfexp_entries :: "nat \<Rightarrow> u8 \<Rightarrow> u8 list" where
  "gfexp_entries 0 v = []"
| "gfexp_entries (Suc n) v =
     v # gfexp_entries n (let v = gfmul v 2 in if v = 1 then 0 else v)"

definition raid6_gfexp :: "u8 list" where
  "raid6_gfexp = gfexp_entries 256 1"

text \<open>The scan for the first exponent of a value, and 255 when there is none.\<close>

fun gflog_scan :: "u8 list \<Rightarrow> nat \<Rightarrow> u8 \<Rightarrow> u8" where
  "gflog_scan [] k x = 255"
| "gflog_scan (e # es) k x = (if e = x then of_nat k else gflog_scan es (Suc k) x)"

definition raid6_gflog :: "u8 list" where
  "raid6_gflog = byte_table (\<lambda>x. gflog_scan raid6_gfexp 0 x)"

definition raid6_gfinv :: "u8 list" where
  "raid6_gfinv = byte_table (\<lambda>i. gfpow i 254)"

definition raid6_gfexi :: "u8 list" where
  "raid6_gfexi = map (\<lambda>e. raid6_gfinv ! unat (e XOR 1)) raid6_gfexp"

section \<open>The ring laws\<close>

lemma xtimes_0 [simp]: "xtimes 0 = 0"
  by (simp add: xtimes_def)

lemma xtimes_xor: "xtimes (a XOR b) = xtimes a XOR xtimes b"
  by (cases "bit a 7"; cases "bit b 7")
    (simp_all add: xtimes_def and_0x80_bit bit_xor_iff ac_simps)

text \<open>The same step with the carried-out bit masked off, so that literals stay below 256.\<close>

lemma xtimes_eval [gf_eval]:
  "xtimes a = (if a AND 0x80 = 0 then push_bit 1 a else push_bit 1 (a AND 0x7f) XOR 0x1d)"
proof -
  have "bit (push_bit 1 (a AND 0x7f)) n = bit (push_bit 1 a) n" if "n < 8" for n
  proof -
    have "bit (0x7f :: u8) (n - 1)" if "1 \<le> n"
    proof -
      have "(0x7f :: u8) = mask 7" by (simp add: mask_eq_exp_minus_1)
      with that \<open>n < 8\<close> show ?thesis by (simp only: bit_mask_iff) auto
    qed
    then show ?thesis by (simp only: bit_push_bit_iff bit_and_iff) auto
  qed
  then have "push_bit 1 (a AND 0x7f) = push_bit 1 a"
    by (intro bit_word_eqI) simp
  then show ?thesis by (simp only: xtimes_def) simp
qed

lemma gfmul_loop_step:
  "gfmul_loop a b v =
     gfmul_loop (xtimes a) (drop_bit 1 b) (v XOR (if odd b then a else 0))"
  by (cases "b = 0") (simp_all add: gfmul_loop.simps [of a b v] gfmul_loop.simps [of _ 0])

lemma gfmul_loop_acc: "gfmul_loop a b v = v XOR gfmul_loop a b 0"
proof -
  have "\<forall>w. gfmul_loop a b w = w XOR gfmul_loop a b 0"
  proof (induction a b v rule: gfmul_loop.induct)
    case (1 a b v)
    show ?case
    proof (cases "b = 0")
      case True
      then show ?thesis by (simp add: gfmul_loop.simps)
    next
      case False
      note IH = "1.IH" [OF False, rule_format]
      show ?thesis
        by (simp only: gfmul_loop_step [of a b] IH [of "_ XOR _"]) (simp add: ac_simps)
    qed
  qed
  then show ?thesis by blast
qed

lemma gfmul_0_right [simp]: "gfmul a 0 = 0"
  by (simp add: gfmul_def gfmul_loop.simps)

lemma gfmul_step: "gfmul a b = (if odd b then a else 0) XOR gfmul (xtimes a) (drop_bit 1 b)"
  by (simp only: gfmul_def gfmul_loop_step [of a b] gfmul_loop_acc [of _ _ "0 XOR _"]) simp

lemma gfmul_numeral [gf_eval]:
  "gfmul a (numeral k) =
     (if odd (numeral k :: u8) then a else 0) XOR gfmul (xtimes a) (drop_bit 1 (numeral k))"
  by (rule gfmul_step)

lemma gfmul_xtimes_left: "gfmul (xtimes a) b = xtimes (gfmul a b)"
proof (induction b arbitrary: a rule: u8_bits_induct)
  case zero
  show ?case by simp
next
  case (step b)
  show ?case
    by (simp only: gfmul_step [of "xtimes a" b] gfmul_step [of a b] step.IH xtimes_xor) simp
qed

lemma gfmul_xor_left: "gfmul (a XOR c) b = gfmul a b XOR gfmul c b"
proof (induction b arbitrary: a c rule: u8_bits_induct)
  case zero
  show ?case by simp
next
  case (step b)
  show ?case
    by (simp only: gfmul_step [of _ b] xtimes_xor step.IH) (simp add: ac_simps)
qed

lemma gfmul_xor_right: "gfmul a (b XOR c) = gfmul a b XOR gfmul a c"
proof -
  have "gfmul a (b XOR c) = gfmul a b XOR gfmul a c" if "unat b < 2 ^ n" "unat c < 2 ^ n" for n
    using that
  proof (induction n arbitrary: a b c)
    case 0
    then show ?case by (simp add: unat_eq_zero)
  next
    case (Suc n)
    have half: "unat (drop_bit 1 x) < 2 ^ n" if "unat x < 2 ^ Suc n" for x :: u8
      using that by (simp only: unat_drop_bit_1) auto
    have IH: "gfmul (xtimes a) (drop_bit 1 b XOR drop_bit 1 c) =
        gfmul (xtimes a) (drop_bit 1 b) XOR gfmul (xtimes a) (drop_bit 1 c)"
      by (rule Suc.IH) (use Suc.prems half in blast)+
    show ?case
      by (simp only: gfmul_step [of a] drop_bit_xor IH even_xor_iff) (auto simp: ac_simps)
  qed
  from this [of 8] show ?thesis by simp
qed

lemma gfmul_1_right [simp]: "gfmul a 1 = a"
  by (simp add: gfmul_step [of a 1])

lemma gfmul_1_left [simp]: "gfmul 1 b = b"
proof (rule additive_eqI [where f = "gfmul 1" and g = "\<lambda>b. b"])
  fix i :: nat
  assume "i < 8"
  then show "gfmul 1 (2 ^ i) = 2 ^ i"
    unfolding less_8_cases by (elim insertE emptyE; hypsubst) (simp_all add: gf_eval)
qed (simp_all add: gfmul_xor_right)

text \<open>The reduction polynomial: multiplying by \<open>x^8\<close> is multiplying by \<^verbatim>\<open>0x1d\<close>.\<close>

lemma gfmul_poly: "gfmul a 0x1d = xtimes (gfmul a 0x80)"
proof (rule additive_eqI [where f = "\<lambda>a. gfmul a 0x1d" and g = "\<lambda>a. xtimes (gfmul a 0x80)"])
  fix i :: nat
  assume "i < 8"
  then show "gfmul (2 ^ i) 0x1d = xtimes (gfmul (2 ^ i) 0x80)"
    unfolding less_8_cases by (elim insertE emptyE; hypsubst) (simp_all add: gf_eval)
qed (simp_all add: gfmul_xor_left xtimes_xor)

lemma gfmul_xtimes_right: "gfmul a (xtimes b) = xtimes (gfmul a b)"
proof (rule additive_eqI [where f = "\<lambda>b. gfmul a (xtimes b)" and g = "\<lambda>b. xtimes (gfmul a b)"])
  fix i :: nat
  assume "i < 8"
  then consider "i = 7"
    | "xtimes (2 ^ i) = 2 ^ Suc i" "even (2 ^ Suc i :: u8)" "drop_bit 1 (2 ^ Suc i :: u8) = 2 ^ i"
    unfolding less_8_cases
    by (elim insertE emptyE; hypsubst) (simp_all add: xtimes_eval)
  then show "gfmul a (xtimes (2 ^ i)) = xtimes (gfmul a (2 ^ i))"
  proof cases
    case 1
    then show ?thesis by (simp add: xtimes_eval [of 128] gfmul_poly)
  next
    case 2
    then show ?thesis
      by (simp only: gfmul_step [of a "2 ^ Suc i"] gfmul_xtimes_left) simp
  qed
qed (simp_all add: gfmul_xor_right xtimes_xor)

lemma gfmul_assoc: "gfmul (gfmul a b) c = gfmul a (gfmul b c)"
proof (induction c arbitrary: b rule: u8_bits_induct)
  case zero
  show ?case by simp
next
  case (step c)
  show ?case
    by (simp only: gfmul_step [of _ c] gfmul_xor_right step.IH [symmetric] gfmul_xtimes_right)
      simp
qed

lemma gfmul_commute: "gfmul a b = gfmul b a"
proof (rule additive_eqI [where f = "gfmul a" and g = "\<lambda>b. gfmul b a"])
  fix i :: nat
  have "gfmul a ((xtimes ^^ n) 1) = gfmul ((xtimes ^^ n) 1) a" for n
    by (induction n) (simp_all add: gfmul_xtimes_right gfmul_xtimes_left)
  moreover assume "i < 8"
  then have "(xtimes ^^ i) 1 = 2 ^ i"
    unfolding less_8_cases
    by (elim insertE emptyE; hypsubst) (simp_all add: eval_nat_numeral xtimes_eval)
  ultimately show "gfmul a (2 ^ i) = gfmul (2 ^ i) a" by metis
qed (simp_all add: gfmul_xor_right gfmul_xor_left)

lemma gfmul_0_left [simp]: "gfmul 0 a = 0"
  using gfmul_commute [of 0 a] by simp

section \<open>Powers of the generator\<close>

fun gexp :: "nat \<Rightarrow> u8" where
  "gexp 0 = 1"
| "gexp (Suc n) = xtimes (gexp n)"

lemma gfmul_2_right: "gfmul v 2 = xtimes v"
  by (simp add: gf_eval)

lemma gfmul_gexp: "gfmul (gexp i) (gexp j) = gexp (i + j)"
  by (induction i) (simp_all add: gfmul_xtimes_left)

primrec orbit :: "nat \<Rightarrow> u8 \<Rightarrow> u8 list" where
  "orbit 0 v = []"
| "orbit (Suc n) v = v # orbit n (xtimes v)"

lemma orbit_numeral: "orbit (numeral k) v = v # orbit (pred_numeral k) (xtimes v)"
  by (simp add: numeral_eq_Suc)

lemma orbit_gexp: "orbit n (gexp i) = map gexp [i..<i + n]"
proof (induction n arbitrary: i)
  case 0
  show ?case by simp
next
  case (Suc n)
  have "[i..<i + Suc n] = i # [Suc i..<Suc i + n]"
    by (simp add: upt_conv_Cons del: upt_Suc)
  then show ?case using Suc.IH [of "Suc i"] by simp
qed

text \<open>Running the shift register once around: it returns to 1 after 255 turns, not before.\<close>

lemma orbit_256: "last (orbit 256 1) = 1" "1 \<notin> set (orbit 254 2)" "0 \<notin> set (orbit 256 1)"
  by (simp_all add: orbit_numeral xtimes_eval)

lemma gexp_255 [simp]: "gexp 255 = 1"
  using orbit_256(1) orbit_gexp [of 256 0] by (simp add: last_map del: upt_Suc)

lemma gexp_not_1: "0 < i \<Longrightarrow> i < 255 \<Longrightarrow> gexp i \<noteq> 1"
proof -
  assume "0 < i" "i < 255"
  then have "gexp i \<in> set (map gexp [1..<255])" by auto
  moreover have "map gexp [1..<255] = orbit 254 2"
    using orbit_gexp [of 254 1] by (simp add: xtimes_eval del: upt_Suc)
  ultimately show ?thesis using orbit_256(2) by metis
qed

lemma gexp_period [simp]: "gexp (i + 255) = gexp i"
  using gfmul_gexp [of i 255] by simp

lemma gexp_mult_255 [simp]: "gexp (255 * n) = 1"
  by (induction n) (simp_all add: add.commute [of 255])

lemma gexp_mod_255: "gexp (i mod 255) = gexp i"
proof -
  have "gexp i = gfmul (gexp (255 * (i div 255))) (gexp (i mod 255))"
    by (simp only: gfmul_gexp) simp
  then show ?thesis by simp
qed

lemma gexp_neq_0 [simp]: "gexp i \<noteq> 0"
proof
  assume "gexp i = 0"
  moreover have "gfmul (gexp i) (gexp (254 * i)) = 1"
    using gexp_mult_255 [of i] by (simp only: gfmul_gexp) simp
  ultimately show False by simp
qed

lemma gexp_inj: "inj_on gexp {0..<255}"
proof (rule linorder_inj_onI)
  fix i j :: nat
  assume ij: "i < j" "i \<in> {0..<255}" "j \<in> {0..<255}"
  have "gfmul (gexp i) (gexp (255 - i)) = 1" "gfmul (gexp j) (gexp (255 - i)) = gexp (j - i)"
    using ij gexp_period [of "j - i"] by (simp_all add: gfmul_gexp)
  moreover have "gexp (j - i) \<noteq> 1"
    using ij by (intro gexp_not_1) auto
  ultimately show "gexp i \<noteq> gexp j" by metis
qed auto

lemma gexp_eq_iff: "i < 255 \<Longrightarrow> j < 255 \<Longrightarrow> gexp i = gexp j \<longleftrightarrow> i = j"
  using gexp_inj by (auto dest: inj_onD)

lemma gexp_surj:
  assumes "a \<noteq> 0"
  obtains i where "i < 255" "a = gexp i"
proof -
  have "card (gexp ` {0..<255}) = 255"
    using gexp_inj by (simp add: card_image)
  moreover have "card (UNIV - {0 :: u8}) = 255"
    by (simp add: card_word)
  moreover have "gexp ` {0..<255} \<subseteq> UNIV - {0}" by auto
  ultimately have "gexp ` {0..<255} = UNIV - {0 :: u8}"
    by (intro card_subset_eq) simp_all
  then have "a \<in> gexp ` {0..<255}" using assms by simp
  then show ?thesis using that by auto
qed

section \<open>Powers and inverses\<close>

lemma gfpow_loop_gexp: "gfpow_loop (gexp i) n (gexp j) = gexp (j + i * n)"
proof (induction n arbitrary: i j rule: less_induct)
  case (less n)
  show ?case
  proof (cases "n = 0")
    case True
    then show ?thesis by (simp add: gfpow_loop.simps)
  next
    case False
    have IH: "gfpow_loop (gexp (2 * i)) (n div 2) (gexp k) = gexp (k + 2 * i * (n div 2))" for k
      using False by (intro less.IH) simp
    have "j + i * n = (if odd n then j + i else j) + 2 * i * (n div 2)"
      by (cases "even n") (auto elim!: evenE oddE simp: algebra_simps)
    with IH [of "if odd n then j + i else j"] show ?thesis
      using False
      by (subst gfpow_loop.simps) (auto simp: gfmul_gexp mult_2 split: if_splits)
  qed
qed

lemma gfpow_gexp: "gfpow (gexp i) (int n) = gexp (i * n)"
proof -
  have "int n smod 255 = int (n mod 255)"
    by (simp add: zmod_int signed_modulo_int_def sgn_if)
  then have "gfpow (gexp i) (int n) = gfpow_loop (gexp i) (n mod 255) (gexp 0)"
    by (simp add: gfpow_def Let_def)
  also have "\<dots> = gexp (i * (n mod 255))"
    by (simp only: gfpow_loop_gexp) simp
  also have "\<dots> = gexp (i * n)"
    using gexp_mod_255 [of "i * (n mod 255)"] gexp_mod_255 [of "i * n"]
    by (simp add: mod_mult_right_eq)
  finally show ?thesis .
qed

lemma gfpow_254: "a \<noteq> 0 \<Longrightarrow> gfmul a (gfpow a 254) = 1"
proof -
  assume "a \<noteq> 0"
  then obtain i where "a = gexp i" by (rule gexp_surj)
  then show ?thesis
    using gfpow_gexp [of i 254] gexp_mult_255 [of i] by (simp add: gfmul_gexp algebra_simps)
qed

section \<open>The interface: a field on bytes\<close>

text \<open>
  The operations the coding components call and the laws they use. XOR is the addition.
\<close>

locale galois_field =
  fixes mul :: "u8 \<Rightarrow> u8 \<Rightarrow> u8" and inv :: "u8 \<Rightarrow> u8"
  assumes mul_commute: "mul a b = mul b a"
    and mul_assoc: "mul (mul a b) c = mul a (mul b c)"
    and mul_xor_right: "mul a (b XOR c) = mul a b XOR mul a c"
    and mul_1_right [simp]: "mul a 1 = a"
    and mul_inv: "a \<noteq> 0 \<Longrightarrow> mul a (inv a) = 1"
begin

lemma mul_0_right [simp]: "mul a 0 = 0"
  using mul_xor_right [of a 0 0] by simp

lemma mul_0_left [simp]: "mul 0 a = 0"
  using mul_commute [of 0 a] by simp

lemma mul_1_left [simp]: "mul 1 a = a"
  using mul_commute [of 1 a] by simp

lemma mul_xor_left: "mul (a XOR b) c = mul a c XOR mul b c"
  by (simp only: mul_commute [of _ c] mul_xor_right)

lemma mul_left_commute: "mul a (mul b c) = mul b (mul a c)"
  by (metis mul_assoc mul_commute)

lemmas mul_ac = mul_assoc mul_commute mul_left_commute

lemma mul_cancel: "a \<noteq> 0 \<Longrightarrow> mul (inv a) (mul a b) = b"
  using mul_inv [of a] by (metis mul_assoc mul_commute mul_1_left)

lemma mul_eq_0 [simp]: "mul a b = 0 \<longleftrightarrow> a = 0 \<or> b = 0"
  using mul_cancel [of a b] by (cases "a = 0") auto

lemma inv_neq_0: "a \<noteq> 0 \<Longrightarrow> inv a \<noteq> 0"
  using mul_inv [of a] by auto

lemma inv_unique: "mul a b = 1 \<Longrightarrow> inv a = b"
  using mul_cancel [of a b] by (cases "a = 0") auto

lemma mul_xsum: "mul a (xsum n f) = xsum n (\<lambda>i. mul a (f i))"
  by (rule xsum_additive) (rule mul_xor_right)

lemma mul_xsum_range: "mul a (xsum_range lo hi f) = xsum_range lo hi (\<lambda>i. mul a (f i))"
  by (rule xsum_range_additive) (rule mul_xor_right)

text \<open>
  Two unknowns \<open>x\<close>, \<open>y\<close> in the places \<open>ca \<noteq> cb\<close> of a sum and a weighted sum: the algebra
  of double-failure recovery.
\<close>

lemma solve_two:
  assumes "ca \<noteq> cb" "p = x XOR y" "q = mul ca x XOR mul cb y"
  shows "y = mul (mul ca (inv (ca XOR cb))) p XOR mul (inv (ca XOR cb)) q"
proof -
  have nz: "ca XOR cb \<noteq> 0"
    using assms(1) by (metis xor_self_cancel xor.right_neutral)
  have "mul ca p XOR q = mul (ca XOR cb) y"
    unfolding assms(2,3) by (simp add: mul_xor_right mul_xor_left ac_simps)
  then have "y = mul (inv (ca XOR cb)) (mul ca p XOR q)"
    using mul_cancel [OF nz, of y] by simp
  then show ?thesis
    by (simp add: mul_xor_right mul_ac)
qed

end

interpretation gf: galois_field gfmul "\<lambda>a. gfpow a 254"
  by unfold_locales
    (fact gfmul_commute gfmul_assoc gfmul_xor_right gfmul_1_right gfpow_254 | erule gfpow_254)+

section \<open>What the tables hold\<close>

lemma nth_raid6_gfmul [simp]: "raid6_gfmul ! unat a ! unat b = gfmul a b"
  by (simp add: raid6_gfmul_def)

lemma nth_raid6_gfinv: "raid6_gfinv ! unat a = gfpow a 254"
  by (simp add: raid6_gfinv_def)

lemma gfexp_entries_gexp:
  "i + n = 255 \<Longrightarrow> i < 255 \<Longrightarrow> gfexp_entries (Suc n) (gexp i) = map gexp [i..<255] @ [0]"
proof (induction n arbitrary: i)
  case (Suc n)
  show ?case
  proof (cases "Suc i = 255")
    case True
    then have "n = 0" "xtimes (gexp i) = 1"
      using Suc.prems gexp_255 by (simp_all flip: gexp.simps(2))
    with True show ?thesis by (simp add: gfmul_2_right upt_conv_Cons)
  next
    case False
    with Suc.prems have "Suc i < 255" by simp
    moreover from this have "gexp (Suc i) \<noteq> 1" by (intro gexp_not_1) simp_all
    moreover have "[i..<255] = i # [Suc i..<255]"
      using Suc.prems by (simp add: upt_conv_Cons)
    ultimately show ?thesis
      using Suc.IH [of "Suc i"] Suc.prems by (simp add: gfmul_2_right)
  qed
qed simp

lemma raid6_gfexp_eq: "raid6_gfexp = map gexp [0..<255] @ [0]"
proof -
  have "(256 :: nat) = Suc 255" by simp
  then show ?thesis
    using gfexp_entries_gexp [of 0 255] by (simp only: raid6_gfexp_def) simp
qed

lemma nth_raid6_gfexp: "i < 255 \<Longrightarrow> raid6_gfexp ! i = gexp i"
  by (simp add: raid6_gfexp_eq nth_append del: upt_Suc)

lemma gflog_scan_gexp:
  "gflog_scan (map gexp [k..<255] @ [0]) k (gexp i) = of_nat i" if "k \<le> i" "i < 255"
  using that
proof (induction "i - k" arbitrary: k)
  case 0
  then show ?case by (simp add: upt_conv_Cons)
next
  case (Suc d)
  then have "[k..<255] = k # [Suc k..<255]" "gexp k \<noteq> gexp i"
    by (simp_all add: upt_conv_Cons gexp_eq_iff)
  with Suc show ?case by simp
qed

lemma nth_raid6_gflog: "i < 255 \<Longrightarrow> unat (raid6_gflog ! unat (gexp i)) = i"
  using gflog_scan_gexp [of 0 i] by (simp add: raid6_gflog_def raid6_gfexp_eq unat_of_nat)

lemma nth_raid6_gfexi:
  "i < 255 \<Longrightarrow> raid6_gfexi ! i = gfpow (gexp i XOR 1) 254"
  by (simp add: raid6_gfexi_def raid6_gfexp_eq nth_append nth_raid6_gfinv del: upt_Suc)

lemma nth_raid6_vgfmul_low:
  "j < 16 \<Longrightarrow> raid6_vgfmul ! unat a ! j = gfmul a (word_of_nat j)"
  by (simp add: raid6_vgfmul_def nth_append)

lemma nth_raid6_vgfmul_high:
  "j < 16 \<Longrightarrow> raid6_vgfmul ! unat a ! (16 + j) = gfmul a (push_bit 4 (word_of_nat j))"
  by (simp add: raid6_vgfmul_def nth_append)

lemma vgfmul_low: "raid6_vgfmul ! unat a ! unat (b AND 15) = gfmul a (b AND 15)"
proof -
  have "unat (b AND 15) \<le> unat (15 :: u8)" by (rule word_and_le1 [THEN word_le_nat_alt [THEN iffD1]])
  then show ?thesis by (simp add: nth_raid6_vgfmul_low)
qed

lemma vgfmul_high: "raid6_vgfmul ! unat a ! (16 + unat (drop_bit 4 b)) = gfmul a (b AND 0xf0)"
proof -
  have "unat b < 2 ^ LENGTH(8)" by (rule unsigned_less)
  then have "unat (drop_bit 4 b) < 16" unfolding unat_drop_bit_eq by (simp add: drop_bit_eq_div less_mult_imp_div_less)
  moreover have "push_bit 4 (drop_bit 4 b) = b AND 0xf0"
  proof (rule bit_word_eqI)
    fix n
    assume "n < LENGTH(8)"
    then have "n < 8" by simp
    then show "bit (push_bit 4 (drop_bit 4 b)) n = bit (b AND 0xf0) n"
      unfolding less_8_cases by (elim insertE emptyE; hypsubst; simp add: bit_simps)
  qed
  ultimately show ?thesis by (simp add: nth_raid6_vgfmul_high)
qed

end
