(* ===== verification/Raid6_Spec.thy ===== *)
theory Raid6_Spec
  imports GF256
begin

text \<open>
  The abstract RAID-6 stripe and the contracts of the function pointers of
  \<^verbatim>\<open>struct raid6_calls\<close>. A stripe is a table \<open>ptrs\<close> of \<open>disks\<close> page addresses: the data
  pages, then P, then Q. P is the XOR of the data bytes and Q their sum weighted with the
  powers of the generator. Every implementation of \<open>gen_syndrome\<close> and \<open>xor_syndrome\<close> in the
  later theories is proved equal to the two specifications given here, through the locales
  \<open>raid6_gen\<close> and \<open>raid6_xor\<close>.
\<close>

section \<open>Stripes\<close>

definition pbyte :: "nat \<Rightarrow> nat \<Rightarrow> addr list \<Rightarrow> mem \<Rightarrow> nat \<Rightarrow> u8" where
  "pbyte lo hi ptrs m i = xsum_range lo hi (\<lambda>z. m (ptrs ! z) ! i)"

definition qbyte :: "nat \<Rightarrow> nat \<Rightarrow> addr list \<Rightarrow> mem \<Rightarrow> nat \<Rightarrow> u8" where
  "qbyte lo hi ptrs m i = xsum_range lo hi (\<lambda>z. gfmul (gexp z) (m (ptrs ! z) ! i))"

definition gen_syndrome_spec :: "nat \<Rightarrow> nat \<Rightarrow> addr list \<Rightarrow> mem \<Rightarrow> mem" where
  "gen_syndrome_spec disks bytes ptrs m =
     (let p = ptrs ! (disks - 2); q = ptrs ! (disks - 1)
      in m(p := put (m p) 0 (map (pbyte 0 (disks - 2) ptrs m) [0..<bytes]),
           q := put (m q) 0 (map (qbyte 0 (disks - 2) ptrs m) [0..<bytes])))"

definition xor_syndrome_spec :: "nat \<Rightarrow> nat \<Rightarrow> nat \<Rightarrow> nat \<Rightarrow> addr list \<Rightarrow> mem \<Rightarrow> mem" where
  "xor_syndrome_spec disks start stop bytes ptrs m =
     (let p = ptrs ! (disks - 2); q = ptrs ! (disks - 1)
      in m(p := put (m p) 0
             (map (\<lambda>i. m p ! i XOR pbyte start (Suc stop) ptrs m i) [0..<bytes]),
           q := put (m q) 0
             (map (\<lambda>i. m q ! i XOR qbyte start (Suc stop) ptrs m i) [0..<bytes])))"

text \<open>
  A usable stripe: at least two data pages, every page long enough, and P and Q separate
  from each other and from the data. Data pages may coincide. The length leaves room for the largest
  step below \<open>2 ^ 31\<close>, so that a byte counter of type \<^verbatim>\<open>int\<close> does not overflow and the casts to \<^verbatim>\<open>int\<close>
  are exact.
\<close>

definition stripe_ok :: "nat \<Rightarrow> nat \<Rightarrow> addr list \<Rightarrow> mem \<Rightarrow> bool" where
  "stripe_ok disks bytes ptrs m \<longleftrightarrow>
     length ptrs = disks \<and> 4 \<le> disks \<and> bytes + 256 \<le> 2 ^ 31 \<and>
     (\<forall>a\<in>set ptrs. bytes \<le> length (m a)) \<and>
     ptrs ! (disks - 2) \<noteq> ptrs ! (disks - 1) \<and>
     (\<forall>z<disks - 2. ptrs ! z \<noteq> ptrs ! (disks - 2) \<and> ptrs ! z \<noteq> ptrs ! (disks - 1))"

lemma stripe_ok_disks: "stripe_ok disks bytes ptrs m \<Longrightarrow> 4 \<le> disks \<and> length ptrs = disks"
  by (simp add: stripe_ok_def)

lemma stripe_ok_bytes: "stripe_ok disks bytes ptrs m \<Longrightarrow> bytes < 2 ^ 31"
  by (simp add: stripe_ok_def)

lemma stripe_ok_length: "stripe_ok disks bytes ptrs m \<Longrightarrow> z < disks \<Longrightarrow> bytes \<le> length (m (ptrs ! z))"
  by (auto simp: stripe_ok_def)

lemma stripe_ok_pq:
  assumes "stripe_ok disks bytes ptrs m"
  shows "ptrs ! (disks - 2) \<noteq> ptrs ! (disks - 1)"
    "z < disks - 2 \<Longrightarrow> ptrs ! z \<noteq> ptrs ! (disks - 2)"
    "z < disks - 2 \<Longrightarrow> ptrs ! z \<noteq> ptrs ! (disks - 1)"
  using assms by (auto simp: stripe_ok_def)

text \<open>Writing the P and Q pages keeps a stripe usable.\<close>

lemma stripe_ok_upd:
  assumes "stripe_ok disks bytes ptrs m"
    and "\<And>a. a \<in> set ptrs \<Longrightarrow> length (m' a) = length (m a)"
  shows "stripe_ok disks bytes ptrs m'"
  using assms by (auto simp: stripe_ok_def)

lemma pbyte_cong:
  "(\<And>z. lo \<le> z \<Longrightarrow> z < hi \<Longrightarrow> m (ptrs ! z) = m' (ptrs ! z)) \<Longrightarrow>
   pbyte lo hi ptrs m i = pbyte lo hi ptrs m' i"
  unfolding pbyte_def by (rule xsum_range_cong) simp

lemma qbyte_cong:
  "(\<And>z. lo \<le> z \<Longrightarrow> z < hi \<Longrightarrow> m (ptrs ! z) = m' (ptrs ! z)) \<Longrightarrow>
   qbyte lo hi ptrs m i = qbyte lo hi ptrs m' i"
  unfolding qbyte_def by (rule xsum_range_cong) simp

section \<open>The contracts\<close>

text \<open>
  \<open>width\<close> is the number of bytes that one turn of the routine's outer loop covers. A routine
  may find the processor in any state \<open>r\<close> with \<open>entry r\<close>: what the vector registers hold on
  entry has no influence on the result.
\<close>

locale raid6_gen =
  fixes gen :: "'r \<Rightarrow> nat \<Rightarrow> nat \<Rightarrow> addr list \<Rightarrow> mem \<Rightarrow> mem"
    and entry :: "'r \<Rightarrow> bool" and width :: nat
  assumes gen_syndrome:
    "entry r \<Longrightarrow> stripe_ok disks bytes ptrs m \<Longrightarrow> width dvd bytes \<Longrightarrow>
     gen r disks bytes ptrs m = gen_syndrome_spec disks bytes ptrs m"
begin

lemma gen_syndrome_frame:
  assumes "entry r" "stripe_ok disks bytes ptrs m" "width dvd bytes"
    and "a \<noteq> ptrs ! (disks - 2)" "a \<noteq> ptrs ! (disks - 1)"
  shows "gen r disks bytes ptrs m a = m a"
  using assms by (simp add: gen_syndrome gen_syndrome_spec_def Let_def)

lemma gen_syndrome_p:
  assumes "entry r" "stripe_ok disks bytes ptrs m" "width dvd bytes"
  shows "gen r disks bytes ptrs m (ptrs ! (disks - 2)) =
     put (m (ptrs ! (disks - 2))) 0 (map (pbyte 0 (disks - 2) ptrs m) [0..<bytes])"
  using assms stripe_ok_pq(1) [OF assms(2)]
  by (simp add: gen_syndrome gen_syndrome_spec_def Let_def)

lemma gen_syndrome_q:
  assumes "entry r" "stripe_ok disks bytes ptrs m" "width dvd bytes"
  shows "gen r disks bytes ptrs m (ptrs ! (disks - 1)) =
     put (m (ptrs ! (disks - 1))) 0 (map (qbyte 0 (disks - 2) ptrs m) [0..<bytes])"
  using assms by (simp add: gen_syndrome gen_syndrome_spec_def Let_def)

end

locale raid6_xor = raid6_gen +
  fixes xor_syndrome :: "'a \<Rightarrow> nat \<Rightarrow> nat \<Rightarrow> nat \<Rightarrow> nat \<Rightarrow> addr list \<Rightarrow> mem \<Rightarrow> mem"
  assumes xor_syndrome:
    "entry r \<Longrightarrow> stripe_ok disks bytes ptrs m \<Longrightarrow> width dvd bytes \<Longrightarrow>
     start \<le> stop \<Longrightarrow> stop < disks - 2 \<Longrightarrow>
     xor_syndrome r disks start stop bytes ptrs m =
     xor_syndrome_spec disks start stop bytes ptrs m"

section \<open>The page loop\<close>

text \<open>
  Every implementation walks the page in runs of \<open>w\<close> bytes and, in each turn, replaces that
  run of P and of Q by bytes that depend on the data pages (and, for \<open>xor_syndrome\<close>, on the
  bytes of the same run). \<open>pq_loop\<close> lifts the effect of one turn to the whole page; \<open>I\<close> is
  what the routine keeps of its registers.
\<close>

lemma put_map_extend:
  assumes "d + w \<le> length xs"
  shows "put (put xs 0 (map f [0..<d])) d (map f [d..<d + w]) = put xs 0 (map f [0..<d + w])"
  using put_put [of 0 "map f [0..<d]" "map f [d..<d + w]" xs] assms
  by (simp add: map_upt_append)

lemma two_page_loop:
  fixes mm :: "'s \<Rightarrow> mem"
  assumes pq: "p \<noteq> q" and len: "bytes \<le> length (m p)" "bytes \<le> length (m q)"
    and w: "0 < w" "w dvd bytes"
    and init: "I s" "mm s = m"
    and body: "\<And>d s m'. w dvd d \<Longrightarrow> d + w \<le> bytes \<Longrightarrow> I s \<Longrightarrow> mm s = m' \<Longrightarrow>
        (\<And>a. length (m' a) = length (m a)) \<Longrightarrow>
        (\<And>a. a \<noteq> p \<Longrightarrow> a \<noteq> q \<Longrightarrow> m' a = m a) \<Longrightarrow>
        (\<And>i. d \<le> i \<Longrightarrow> i < bytes \<Longrightarrow> m' p ! i = m p ! i) \<Longrightarrow>
        (\<And>i. d \<le> i \<Longrightarrow> i < bytes \<Longrightarrow> m' q ! i = m q ! i) \<Longrightarrow>
        I (body d s) \<and> mm (body d s) = m'(p := put (m' p) d (map f [d..<d + w]),
                                            q := put (m' q) d (map g [d..<d + w]))"
  shows "mm (for_step 0 bytes w body s) =
     m(p := put (m p) 0 (map f [0..<bytes]), q := put (m q) 0 (map g [0..<bytes]))"
proof -
  let ?M = "\<lambda>d. m(p := put (m p) 0 (map f [0..<d]), q := put (m q) 0 (map g [0..<d]))"
  have "I (for_step 0 bytes w body s) \<and> mm (for_step 0 bytes w body s) = ?M bytes"
  proof (rule for_step_invariant [where I = "\<lambda>d s. I s \<and> mm s = ?M d"])
    fix d s
    assume d: "w dvd d" "d + w \<le> bytes" and "I s \<and> mm s = ?M d"
    then have "I (body d s) \<and> mm (body d s) =
        (?M d)(p := put (?M d p) d (map f [d..<d + w]), q := put (?M d q) d (map g [d..<d + w]))"
      using len pq by (intro body) (auto simp: nth_put)
    moreover have "(?M d)(p := put (?M d p) d (map f [d..<d + w]),
        q := put (?M d q) d (map g [d..<d + w])) = ?M (d + w)"
      using d len pq by (auto simp: fun_eq_iff put_map_extend)
    ultimately show "I (body d s) \<and> mm (body d s) = ?M (d + w)" by simp
  qed (use w init in \<open>auto simp: fun_eq_iff\<close>)
  then show ?thesis by blast
qed

lemma pq_loop:
  fixes mm :: "'s \<Rightarrow> mem"
  assumes ok: "stripe_ok disks bytes ptrs m" and w: "0 < w" "w dvd bytes"
    and p: "p = ptrs ! (disks - 2)" and q: "q = ptrs ! (disks - 1)"
    and init: "I s" "mm s = m"
    and body: "\<And>d s m'. w dvd d \<Longrightarrow> d + w \<le> bytes \<Longrightarrow> I s \<Longrightarrow> mm s = m' \<Longrightarrow>
        stripe_ok disks bytes ptrs m' \<Longrightarrow>
        (\<And>z. z < disks - 2 \<Longrightarrow> m' (ptrs ! z) = m (ptrs ! z)) \<Longrightarrow>
        (\<And>i. d \<le> i \<Longrightarrow> i < bytes \<Longrightarrow> m' p ! i = m p ! i) \<Longrightarrow>
        (\<And>i. d \<le> i \<Longrightarrow> i < bytes \<Longrightarrow> m' q ! i = m q ! i) \<Longrightarrow>
        I (body d s) \<and> mm (body d s) = m'(p := put (m' p) d (map f [d..<d + w]),
                                            q := put (m' q) d (map g [d..<d + w]))"
  shows "mm (for_step 0 bytes w body s) =
     m(p := put (m p) 0 (map f [0..<bytes]), q := put (m q) 0 (map g [0..<bytes]))"
proof (rule two_page_loop [where I = I])
  show "p \<noteq> q" using stripe_ok_pq(1) [OF ok] p q by simp
  show "bytes \<le> length (m p)" "bytes \<le> length (m q)"
    using ok by (auto simp: stripe_ok_def p q)
  show "0 < w" "w dvd bytes" "I s" "mm s = m" by fact+
next
  fix d s m'
  assume *: "w dvd d" "d + w \<le> bytes" "I s" "mm s = m'"
    and len: "\<And>a. length (m' a) = length (m a)"
    and frame: "\<And>a. a \<noteq> p \<Longrightarrow> a \<noteq> q \<Longrightarrow> m' a = m a"
    and same: "\<And>i. d \<le> i \<Longrightarrow> i < bytes \<Longrightarrow> m' p ! i = m p ! i"
      "\<And>i. d \<le> i \<Longrightarrow> i < bytes \<Longrightarrow> m' q ! i = m q ! i"
  have "m' (ptrs ! z) = m (ptrs ! z)" if "z < disks - 2" for z
    using stripe_ok_pq(2,3) [OF ok that] p q by (intro frame) simp_all
  moreover have "stripe_ok disks bytes ptrs m'"
    by (rule stripe_ok_upd [OF ok]) (rule len)
  ultimately show "I (body d s) \<and> mm (body d s) = m'(p := put (m' p) d (map f [d..<d + w]),
      q := put (m' q) d (map g [d..<d + w]))"
    using * same by (intro body) auto
qed

end
