(* ===== verification/Simd_Machine.thy ===== *)
theory Simd_Machine
  imports Raid6_Spec
begin

text \<open>
  The vector instructions that the RAID-6 kernels of \<^verbatim>\<open>raid6/\<close> are written in. A kernel is
  C control flow around \<^verbatim>\<open>asm volatile\<close> statements; each statement becomes one value of
  \<open>insn\<close>, in the AT\&T operand order of the source (sources first, destination last), and
  \<open>exec\<close> gives it its architectural meaning on a machine with vector registers, mask
  registers and memory. A register is the list of its bytes; the width \<open>w\<close> is 16 for SSE, 32
  for AVX2 and 64 for AVX-512. A memory operand is a buffer and a byte offset.
\<close>

section \<open>Lanewise operations\<close>

definition vxor :: "u8 list \<Rightarrow> u8 list \<Rightarrow> u8 list" where
  "vxor = map2 (XOR)"

definition vand :: "u8 list \<Rightarrow> u8 list \<Rightarrow> u8 list" where
  "vand = map2 (AND)"

definition vaddb :: "u8 list \<Rightarrow> u8 list \<Rightarrow> u8 list" where
  "vaddb = map2 (+)"

text \<open>\<open>vcmpgtb a b\<close>: all ones in the bytes where \<open>a\<close> is greater as a signed number.\<close>

definition cmpgtb :: "u8 list \<Rightarrow> u8 list \<Rightarrow> bool list" where
  "cmpgtb = map2 (\<lambda>x y. y <s x)"

definition movm2b :: "bool list \<Rightarrow> u8 list" where
  "movm2b = map (\<lambda>c. if c then 0xff else 0)"

text \<open>The ternary logic instruction: bit \<open>n\<close> of the result is the immediate's bit at the
  index formed by bit \<open>n\<close> of the destination and of the two sources.\<close>

definition ternlog :: "u8 \<Rightarrow> u8 \<Rightarrow> u8 \<Rightarrow> u8 \<Rightarrow> u8" where
  "ternlog imm a b c = horner_sum of_bool 2
     (map (\<lambda>n. bit imm (4 * of_bool (bit a n) + 2 * of_bool (bit b n) + of_bool (bit c n)))
        [0..<8])"

definition vternlog :: "u8 \<Rightarrow> u8 list \<Rightarrow> u8 list \<Rightarrow> u8 list \<Rightarrow> u8 list" where
  "vternlog imm a b c = map2 (\<lambda>x (y, z). ternlog imm x y z) a (zip b c)"

text \<open>The arithmetic right shift of every 16-bit word, and the byte shuffle, which looks
  bytes up in the table in the same 16-byte lane.\<close>

fun psraw :: "nat \<Rightarrow> u8 list \<Rightarrow> u8 list" where
  "psraw n (a # b # xs) =
     (let x = signed_drop_bit n (ucast a OR push_bit 8 (ucast b) :: u16)
      in ucast x # ucast (drop_bit 8 x) # psraw n xs)"
| "psraw n xs = xs"

definition pshufb :: "u8 list \<Rightarrow> u8 list \<Rightarrow> u8 list" where
  "pshufb t x = map (\<lambda>i. if bit (x ! i) 7 then 0
     else t ! (16 * (i div 16) + unat (x ! i AND 0x0f))) [0..<length x]"

section \<open>Machine and instructions\<close>

type_synonym reg = nat

record simd =
  vreg :: "reg \<Rightarrow> u8 list"
  kreg :: "reg \<Rightarrow> bool list"
  dram :: mem

datatype insn =
    MOVDQA_imm "u8 list" reg
  | MOVDQA_load addr nat reg
  | MOVDQA reg reg
  | MOVDQA_store reg addr nat
  | MOVNTDQ reg addr nat
  | PREFETCHNTA addr nat
  | SFENCE
  | PXOR reg reg
  | PXOR_load addr nat reg
  | PAND reg reg
  | PADDB reg reg
  | PCMPGTB reg reg
  | VPXOR reg reg reg
  | VPXOR_load addr nat reg reg
  | VPAND reg reg reg
  | VPADDB reg reg reg
  | VPCMPGTB reg reg reg
  | VPCMPGTB_k reg reg reg
  | VPMOVM2B reg reg
  | VPTERNLOGQ u8 reg reg reg
  | PSRAW nat reg
  | VPSRAW nat reg reg
  | PSHUFB reg reg
  | VPSHUFB reg reg reg
  | VPBROADCASTB_imm u8 reg
  | VBROADCASTI128_imm "u8 list" reg

definition wr :: "reg \<Rightarrow> u8 list \<Rightarrow> simd \<Rightarrow> simd" where
  "wr r v s = s\<lparr>vreg := (vreg s)(r := v)\<rparr>"

definition wk :: "reg \<Rightarrow> bool list \<Rightarrow> simd \<Rightarrow> simd" where
  "wk r v s = s\<lparr>kreg := (kreg s)(r := v)\<rparr>"

definition wm :: "addr \<Rightarrow> nat \<Rightarrow> u8 list \<Rightarrow> simd \<Rightarrow> simd" where
  "wm a d v s = s\<lparr>dram := (dram s)(a := put (dram s a) d v)\<rparr>"

primrec exec :: "nat \<Rightarrow> insn \<Rightarrow> simd \<Rightarrow> simd" where
  "exec w (MOVDQA_imm c r) s = wr r c s"
| "exec w (MOVDQA_load a d r) s = wr r (get (dram s a) d w) s"
| "exec w (MOVDQA r r') s = wr r' (vreg s r) s"
| "exec w (MOVDQA_store r a d) s = wm a d (vreg s r) s"
| "exec w (MOVNTDQ r a d) s = wm a d (vreg s r) s"
| "exec w (PREFETCHNTA a d) s = s"
| "exec w SFENCE s = s"
| "exec w (PXOR r r') s = wr r' (vxor (vreg s r') (vreg s r)) s"
| "exec w (PXOR_load a d r) s = wr r (vxor (vreg s r) (get (dram s a) d w)) s"
| "exec w (PAND r r') s = wr r' (vand (vreg s r') (vreg s r)) s"
| "exec w (PADDB r r') s = wr r' (vaddb (vreg s r') (vreg s r)) s"
| "exec w (PCMPGTB r r') s = wr r' (movm2b (cmpgtb (vreg s r') (vreg s r))) s"
| "exec w (VPXOR r1 r2 r') s = wr r' (vxor (vreg s r2) (vreg s r1)) s"
| "exec w (VPXOR_load a d r r') s = wr r' (vxor (vreg s r) (get (dram s a) d w)) s"
| "exec w (VPAND r1 r2 r') s = wr r' (vand (vreg s r2) (vreg s r1)) s"
| "exec w (VPADDB r1 r2 r') s = wr r' (vaddb (vreg s r2) (vreg s r1)) s"
| "exec w (VPCMPGTB r1 r2 r') s = wr r' (movm2b (cmpgtb (vreg s r2) (vreg s r1))) s"
| "exec w (VPCMPGTB_k r1 r2 k) s = wk k (cmpgtb (vreg s r2) (vreg s r1)) s"
| "exec w (VPMOVM2B k r) s = wr r (movm2b (kreg s k)) s"
| "exec w (VPTERNLOGQ imm r1 r2 r') s =
     wr r' (vternlog imm (vreg s r') (vreg s r2) (vreg s r1)) s"
| "exec w (PSRAW n r) s = wr r (psraw n (vreg s r)) s"
| "exec w (VPSRAW n r r') s = wr r' (psraw n (vreg s r)) s"
| "exec w (PSHUFB r r') s = wr r' (pshufb (vreg s r') (vreg s r)) s"
| "exec w (VPSHUFB r1 r2 r') s = wr r' (pshufb (vreg s r2) (vreg s r1)) s"
| "exec w (VPBROADCASTB_imm c r) s = wr r (replicate w c) s"
| "exec w (VBROADCASTI128_imm c r) s = wr r (concat (replicate (w div 16) c)) s"

definition asm :: "nat \<Rightarrow> insn list \<Rightarrow> simd \<Rightarrow> simd" where
  "asm w is s = fold (exec w) is s"

lemma asm_Nil [simp]: "asm w [] s = s"
  by (simp add: asm_def)

lemma asm_Cons [simp]: "asm w (i # is) s = asm w is (exec w i s)"
  by (simp add: asm_def)

lemma wr_sel [simp]:
  "vreg (wr r v s) r' = (if r' = r then v else vreg s r')"
  "kreg (wr r v s) = kreg s" "dram (wr r v s) = dram s"
  by (simp_all add: wr_def)

lemma wk_sel [simp]:
  "kreg (wk r c s) r' = (if r' = r then c else kreg s r')"
  "vreg (wk r c s) = vreg s" "dram (wk r c s) = dram s"
  by (simp_all add: wk_def)

lemma wm_sel [simp]:
  "dram (wm a d v s) = (dram s)(a := put (dram s a) d v)"
  "vreg (wm a d v s) = vreg s" "kreg (wm a d v s) = kreg s"
  by (simp_all add: wm_def)

section \<open>Laws of the lanewise operations\<close>

lemma length_vec [simp]:
  "length (vxor a b) = min (length a) (length b)"
  "length (vand a b) = min (length a) (length b)"
  "length (vaddb a b) = min (length a) (length b)"
  "length (cmpgtb a b) = min (length a) (length b)"
  "length (movm2b c) = length c"
  "length (vternlog imm a b e) = min (length a) (min (length b) (length e))"
  by (simp_all add: vxor_def vand_def vaddb_def cmpgtb_def movm2b_def vternlog_def)

lemma nth_vxor [simp]: "i < length a \<Longrightarrow> i < length b \<Longrightarrow> vxor a b ! i = a ! i XOR b ! i"
  by (simp add: vxor_def)

lemma nth_vand [simp]: "i < length a \<Longrightarrow> i < length b \<Longrightarrow> vand a b ! i = a ! i AND b ! i"
  by (simp add: vand_def)

lemma nth_vaddb [simp]: "i < length a \<Longrightarrow> i < length b \<Longrightarrow> vaddb a b ! i = a ! i + b ! i"
  by (simp add: vaddb_def)

lemma nth_movm2b_cmpgtb [simp]:
  "i < length a \<Longrightarrow> i < length b \<Longrightarrow>
   movm2b (cmpgtb a b) ! i = (if b ! i <s a ! i then 0xff else 0)"
  by (simp add: cmpgtb_def movm2b_def)

lemma vxor_self [vec_simps]: "vxor a a = replicate (length a) 0"
  by (simp add: list_eq_iff_nth_eq)

lemma vxor_commute: "vxor a b = vxor b a"
  by (auto simp: list_eq_iff_nth_eq ac_simps)

lemma vxor_assoc: "vxor (vxor a b) c = vxor a (vxor b c)"
  by (auto simp: list_eq_iff_nth_eq ac_simps)

lemma vxor_left_commute: "vxor a (vxor b c) = vxor b (vxor a c)"
  by (metis vxor_assoc vxor_commute)

lemmas vxor_ac = vxor_assoc vxor_commute vxor_left_commute

lemma vxor_zero [vec_simps]:
  "length a = w \<Longrightarrow> vxor a (replicate w 0) = a" "length a = w \<Longrightarrow> vxor (replicate w 0) a = a"
  by (auto simp: list_eq_iff_nth_eq)

lemma ternlog_0x96: "ternlog 0x96 a b c = a XOR b XOR c"
proof (rule bit_word_eqI)
  fix n
  assume "n < LENGTH(8)"
  then show "bit (ternlog 0x96 a b c) n = bit (a XOR b XOR c) n"
    by (cases "bit a n"; cases "bit b n"; cases "bit c n")
      (simp_all add: ternlog_def bit_horner_sum_bit_iff bit_xor_iff del: upt_Suc)
qed

lemma vternlog_0x96 [vec_simps]: "vternlog 0x96 a b c = vxor (vxor a c) b"
  by (auto simp: list_eq_iff_nth_eq vternlog_def ternlog_0x96 ac_simps)

text \<open>
  Doubling in the field, on every lane: the kernels add the vector to itself and XOR
  \<^verbatim>\<open>0x1d\<close> into the lanes whose top bit was set, found by a signed comparison with zero.
\<close>

lemma sless_0_bit: "(a :: u8) <s 0 \<longleftrightarrow> bit a 7"
  using bit_last_iff [of a] by (simp add: word_sless_alt)

lemma xtimes_lane: "xtimes a = 2 * a XOR (if a <s 0 then 0x1d else 0)"
  by (simp add: xtimes_def sless_0_bit and_0x80_bit push_bit_eq_mult mult.commute)

lemma vec_xtimes [vec_simps]:
  assumes "length q = w"
  shows "vxor (vaddb q q) (vand (movm2b (cmpgtb (replicate w 0) q)) (replicate w 0x1d)) =
    map xtimes q"
  using assms by (auto simp: list_eq_iff_nth_eq xtimes_lane)

section \<open>Partial syndromes held in registers\<close>

text \<open>
  The P and Q sums over the data pages \<open>lo \<le> z < hi\<close> for the \<open>w\<close> bytes at offset \<open>d\<close>, the
  latter scaled down by the generator's power \<open>lo\<close>: what a kernel's accumulators hold after
  it has come down to page \<open>lo\<close>.
\<close>

definition pvec :: "nat \<Rightarrow> nat \<Rightarrow> addr list \<Rightarrow> mem \<Rightarrow> nat \<Rightarrow> nat \<Rightarrow> u8 list" where
  "pvec lo hi ptrs m d w = map (pbyte lo hi ptrs m) [d..<d + w]"

definition qvec :: "nat \<Rightarrow> nat \<Rightarrow> addr list \<Rightarrow> mem \<Rightarrow> nat \<Rightarrow> nat \<Rightarrow> u8 list" where
  "qvec lo hi ptrs m d w =
     map (\<lambda>i. xsum_range lo hi (\<lambda>z. gfmul (gexp (z - lo)) (m (ptrs ! z) ! i))) [d..<d + w]"

lemma length_pvec [simp]: "length (pvec lo hi ptrs m d w) = w" "length (qvec lo hi ptrs m d w) = w"
  by (simp_all add: pvec_def qvec_def)

lemma pvec_empty: "pvec hi hi ptrs m d w = replicate w 0" "qvec hi hi ptrs m d w = replicate w 0"
  by (simp_all add: pvec_def qvec_def pbyte_def list_eq_iff_nth_eq)

lemma pvec_step:
  assumes "lo < hi" "d + w \<le> length (m (ptrs ! lo))"
  shows "vxor (pvec (Suc lo) hi ptrs m d w) (get (m (ptrs ! lo)) d w) = pvec lo hi ptrs m d w"
  using assms
  by (auto simp: list_eq_iff_nth_eq pvec_def pbyte_def xsum_range_lower [of lo] ac_simps)

lemma qvec_step:
  assumes "lo < hi" "d + w \<le> length (m (ptrs ! lo))"
  shows "vxor (map xtimes (qvec (Suc lo) hi ptrs m d w)) (get (m (ptrs ! lo)) d w) =
    qvec lo hi ptrs m d w"
proof -
  have "xtimes (xsum_range (Suc lo) hi (\<lambda>z. gfmul (gexp (z - Suc lo)) (f z))) =
      xsum_range (Suc lo) hi (\<lambda>z. gfmul (gexp (z - lo)) (f z))" for f
    unfolding xsum_range_additive [where h = xtimes, OF xtimes_xor]
    by (rule xsum_range_cong)
      (simp flip: gfmul_xtimes_left gexp.simps(2) add: Suc_diff_Suc)
  then show ?thesis
    using assms
    by (auto simp: list_eq_iff_nth_eq qvec_def xsum_range_lower [of lo] ac_simps)
qed

lemma pvec_single:
  assumes "d + w \<le> length (m (ptrs ! z))"
  shows "pvec z (Suc z) ptrs m d w = get (m (ptrs ! z)) d w"
    "qvec z (Suc z) ptrs m d w = get (m (ptrs ! z)) d w"
  using assms pvec_step [of z "Suc z" d w m ptrs] qvec_step [of z "Suc z" d w m ptrs]
  by (simp_all add: pvec_empty vec_simps)

text \<open>Multiplying on down to page 0 restores the weight of every page.\<close>

lemma qvec_scale:
  "map (gfmul (gexp lo)) (qvec lo hi ptrs m d w) = map (qbyte lo hi ptrs m) [d..<d + w]"
proof -
  have "gfmul (gexp lo) (xsum_range lo hi (\<lambda>z. gfmul (gexp (z - lo)) (f z))) =
      xsum_range lo hi (\<lambda>z. gfmul (gexp z) (f z))" for f
    unfolding gf.mul_xsum_range
    by (rule xsum_range_cong) (simp flip: gfmul_assoc add: gfmul_gexp)
  then show ?thesis by (auto simp: list_eq_iff_nth_eq qvec_def qbyte_def)
qed

lemma qvec_0: "qvec 0 hi ptrs m d w = map (qbyte 0 hi ptrs m) [d..<d + w]"
proof -
  have "gfmul 1 = id" by (simp add: fun_eq_iff)
  then show ?thesis using qvec_scale [of 0 hi ptrs m d w] by simp
qed

lemma map_xtimes_gexp:
  "map xtimes (map (gfmul (gexp n)) v) = map (gfmul (gexp (Suc n))) v"
  by (simp add: gfmul_xtimes_left)

section \<open>Kernels\<close>

text \<open>
  Entering a kernel: \<^verbatim>\<open>kernel_fpu_begin()\<close> grants the vector registers with whatever they
  hold. The contents at entry are an argument of every kernel.
\<close>

definition kernel_fpu_begin :: "simd \<Rightarrow> mem \<Rightarrow> simd" where
  "kernel_fpu_begin fpu m = fpu\<lparr>dram := m\<rparr>"

definition wf_regs :: "nat \<Rightarrow> simd \<Rightarrow> bool" where
  "wf_regs w s \<longleftrightarrow> (\<forall>r. length (vreg s r) = w)"

lemma fpu_begin_sel [simp]:
  "dram (kernel_fpu_begin fpu m) = m" "vreg (kernel_fpu_begin fpu m) = vreg fpu"
  by (simp_all add: kernel_fpu_begin_def)

text \<open>
  What holds of the registers between the instruction groups of a kernel: the registers in
  \<open>zs\<close> are zero, those in \<open>vs\<close> have the given contents, register 0 holds the constant
  \<^verbatim>\<open>0x1d\<close>, and memory is \<open>m\<close>.
\<close>

definition kstate :: "nat \<Rightarrow> reg list \<Rightarrow> (reg \<times> u8 list) list \<Rightarrow> mem \<Rightarrow> simd \<Rightarrow> bool" where
  "kstate w zs vs m s \<longleftrightarrow> wf_regs w s \<and> dram s = m \<and> vreg s 0 = replicate w 0x1d \<and>
     (\<forall>r\<in>set zs. vreg s r = replicate w 0) \<and> (\<forall>(r, v)\<in>set vs. vreg s r = v)"

text \<open>The constant vectors are arrays of 64-bit words in memory, lowest byte first.\<close>

definition le_bytes :: "u64 \<Rightarrow> u8 list" where
  "le_bytes x = map (\<lambda>i. ucast (drop_bit (8 * i) x)) [0..<8]"

lemma le_bytes_x1d: "le_bytes 0x1d1d1d1d1d1d1d1d = replicate 8 0x1d"
proof -
  have upt: "[0..<8] = [0, 1, 2, 3, 4, 5, 6, 7 :: nat]" by (simp add: upt_rec)
  have rep: "replicate 8 x = [x, x, x, x, x, x, x, x]" for x :: u8 by (simp add: numeral_eq_Suc)
  show ?thesis
    unfolding le_bytes_def upt rep list.map list.inject
    by (simp add: word_eq_iff_unsigned unsigned_ucast_eq unsigned_drop_bit_eq drop_bit_eq_div)
qed

end
