(* ===== verification/Simd_Kernel.thy ===== *)
theory Simd_Kernel
  imports Simd_Machine
begin

text \<open>
  What the vector kernels of \<^verbatim>\<open>raid6/\<close> have in common. A kernel keeps, for every lane of the
  run of bytes it is working on, one register with a partial P and one with a partial Q; the
  locales state what its instruction groups do to these lanes, and the lemmas inside them
  derive that the whole routine computes the syndromes. Every kernel interprets one of
  them on its own instruction lists.
\<close>

section \<open>Lanes\<close>

text \<open>
  \<open>lanes w ls P Q d\<close>: the pairs \<open>ls\<close> of registers hold \<open>P\<close> and \<open>Q\<close> at the offsets \<open>d\<close>,
  \<open>d + w\<close>, \dots; \<open>vcat\<close> is the run of bytes that the lanes hold together.
\<close>

fun lanes :: "nat \<Rightarrow> (reg \<times> reg) list \<Rightarrow> (nat \<Rightarrow> u8 list) \<Rightarrow> (nat \<Rightarrow> u8 list) \<Rightarrow> nat \<Rightarrow>
    (reg \<times> u8 list) list" where
  "lanes w [] P Q d = []"
| "lanes w ((r, r') # ls) P Q d = (r, P d) # (r', Q d) # lanes w ls P Q (d + w)"

primrec vcat :: "nat \<Rightarrow> (reg \<times> reg) list \<Rightarrow> (nat \<Rightarrow> u8 list) \<Rightarrow> nat \<Rightarrow> u8 list" where
  "vcat w [] P d = []"
| "vcat w (l # ls) P d = P d @ vcat w ls P (d + w)"

lemma vcat_map: "vcat w ls (\<lambda>d. map f [d..<d + w]) d = map f [d..<d + length ls * w]"
proof (induction ls arbitrary: d)
  case (Cons l ls)
  then show ?case by (simp add: map_upt_append add.assoc)
qed simp

lemma vcat_pvec: "vcat w ls (\<lambda>d. pvec lo hi ptrs m d w) d = pvec lo hi ptrs m d (length ls * w)"
  by (simp add: pvec_def vcat_map)

lemma vcat_qvec: "vcat w ls (\<lambda>d. qvec lo hi ptrs m d w) d = qvec lo hi ptrs m d (length ls * w)"
  by (simp add: qvec_def vcat_map)

lemma vcat_cong:
  "(\<And>e. d \<le> e \<Longrightarrow> e + w \<le> d + length ls * w \<Longrightarrow> P e = P' e) \<Longrightarrow> vcat w ls P d = vcat w ls P' d"
proof (induction ls arbitrary: d)
  case (Cons l ls)
  have "vcat w ls P (d + w) = vcat w ls P' (d + w)"
    by (rule Cons.IH) (auto intro!: Cons.prems)
  with Cons.prems [of d] show ?case by simp
qed simp

lemma lanes_cong:
  "(\<And>e. d \<le> e \<Longrightarrow> e + w \<le> d + length ls * w \<Longrightarrow> P e = P' e \<and> Q e = Q' e) \<Longrightarrow>
   lanes w ls P Q d = lanes w ls P' Q' d"
proof (induction ls arbitrary: d)
  case (Cons l ls)
  have "lanes w ls P Q (d + w) = lanes w ls P' Q' (d + w)"
    by (rule Cons.IH) (auto intro!: Cons.prems)
  with Cons.prems [of d] show ?case by (cases l) simp
qed simp

lemma put_append:
  "d + length ys + length zs \<le> length xs \<Longrightarrow>
   put xs d (ys @ zs) = put (put xs d ys) (d + length ys) zs"
  by (simp add: put_put)

lemma offset_add: "(d :: nat) + numeral v + numeral u = d + numeral (v + u)"
  by simp

lemmas kernel_simps = kstate_def wf_regs_def vec_simps put_append offset_add

section \<open>From one turn to the page\<close>

lemma gen_page:
  assumes ok: "stripe_ok (k + 2) bytes ptrs m" and W: "0 < W" "W dvd bytes"
    and init: "kstate w zh [] m s0"
    and turn: "\<And>d s m. kstate w zh [] m s \<Longrightarrow>
        (\<And>z. z < k \<Longrightarrow> d + W \<le> length (m (ptrs ! z))) \<Longrightarrow> ptrs ! k \<noteq> ptrs ! Suc k \<Longrightarrow>
        d + W \<le> length (m (ptrs ! k)) \<Longrightarrow> d + W \<le> length (m (ptrs ! Suc k)) \<Longrightarrow>
        kstate w zh [] (m(ptrs ! k := put (m (ptrs ! k)) d (pvec 0 k ptrs m d W),
                          ptrs ! Suc k := put (m (ptrs ! Suc k)) d (qvec 0 k ptrs m d W)))
          (body d s)"
  shows "dram (for_step 0 bytes W body s0) = gen_syndrome_spec (k + 2) bytes ptrs m"
proof -
  let ?p = "ptrs ! k" and ?q = "ptrs ! Suc k"
  have "dram (for_step 0 bytes W body s0) =
     m(?p := put (m ?p) 0 (map (pbyte 0 k ptrs m) [0..<bytes]),
       ?q := put (m ?q) 0 (map (qbyte 0 k ptrs m) [0..<bytes]))"
  proof (rule pq_loop [where I = "\<lambda>s. kstate w zh [] (dram s) s", OF ok W])
    show "kstate w zh [] (dram s0) s0" "dram s0 = m"
      using init by (auto simp: kstate_def)
  next
    fix d s m'
    assume d: "d + W \<le> bytes" and ks: "kstate w zh [] (dram s) s" and m': "dram s = m'"
      and ok': "stripe_ok (k + 2) bytes ptrs m'"
      and data: "\<And>z. z < k + 2 - 2 \<Longrightarrow> m' (ptrs ! z) = m (ptrs ! z)"
    have len: "d + W \<le> length (m' (ptrs ! z))" if "z < k + 2" for z
      using stripe_ok_length [OF ok' that] d by simp
    have "kstate w zh [] (m'(?p := put (m' ?p) d (pvec 0 k ptrs m' d W),
        ?q := put (m' ?q) d (qvec 0 k ptrs m' d W))) (body d s)"
      using ks [unfolded m'] stripe_ok_pq(1) [OF ok] by (intro turn) (simp_all add: len)
    moreover have "pvec 0 k ptrs m' d W = map (pbyte 0 k ptrs m) [d..<d + W]"
      "qvec 0 k ptrs m' d W = map (qbyte 0 k ptrs m) [d..<d + W]"
      using data pbyte_cong [of 0 k m' ptrs m] qbyte_cong [of 0 k m' ptrs m]
      by (simp_all add: qvec_0 pvec_def)
    ultimately show "kstate w zh [] (dram (body d s)) (body d s) \<and> dram (body d s) =
        m'(?p := put (m' ?p) d (map (pbyte 0 k ptrs m) [d..<d + W]),
           ?q := put (m' ?q) d (map (qbyte 0 k ptrs m) [d..<d + W]))"
      by (auto simp: kstate_def)
  qed simp_all
  then show ?thesis
    by (simp add: gen_syndrome_spec_def Let_def)
qed

section \<open>Kernels that compute the syndromes\<close>

text \<open>
  One turn of the inner loop of a \<open>gen_syndrome\<close> kernel is one step of Horner's rule on
  every lane: P gets the next page added, Q is doubled and gets the page added. \<open>zs\<close> are the
  registers that stay zero in the inner loop, \<open>zh\<close> those that are zero at the head of the
  page loop.
\<close>

locale gen_kernel =
  fixes w :: nat and ls :: "(reg \<times> reg) list" and zh zs :: "reg list"
    and init :: "insn list" and step :: "addr list \<Rightarrow> nat \<Rightarrow> nat \<Rightarrow> insn list"
    and post :: "addr \<Rightarrow> addr \<Rightarrow> nat \<Rightarrow> insn list"
  assumes width: "0 < w" "ls \<noteq> []"
    and init: "wf_regs w s \<Longrightarrow> kstate w zh [] (dram s) (asm w init s)"
    and step: "kstate w zs (lanes w ls P Q d) m s \<Longrightarrow>
      (\<And>e. length (P e) = w) \<Longrightarrow> (\<And>e. length (Q e) = w) \<Longrightarrow>
      d + length ls * w \<le> length (m (ptrs ! z)) \<Longrightarrow>
      kstate w zs (lanes w ls (\<lambda>e. vxor (P e) (get (m (ptrs ! z)) e w))
          (\<lambda>e. vxor (map xtimes (Q e)) (get (m (ptrs ! z)) e w)) d) m (asm w (step ptrs d z) s)"
    and post: "kstate w zs (lanes w ls P Q d) m s \<Longrightarrow>
      (\<And>e. length (P e) = w) \<Longrightarrow> (\<And>e. length (Q e) = w) \<Longrightarrow> p \<noteq> q \<Longrightarrow>
      d + length ls * w \<le> length (m p) \<Longrightarrow> d + length ls * w \<le> length (m q) \<Longrightarrow>
      kstate w zh [] (m(p := put (m p) d (vcat w ls P d), q := put (m q) d (vcat w ls Q d)))
        (asm w (post p q d) s)"
begin

abbreviation W where "W \<equiv> length ls * w"

lemma W_pos: "0 < W"
  using width by simp

lemma horner_step:
  assumes "kstate w zs (lanes w ls (\<lambda>e. pvec (Suc z) k ptrs m e w)
      (\<lambda>e. qvec (Suc z) k ptrs m e w) d) m s"
    and z: "z < k" and len: "d + W \<le> length (m (ptrs ! z))"
  shows "kstate w zs (lanes w ls (\<lambda>e. pvec z k ptrs m e w) (\<lambda>e. qvec z k ptrs m e w) d) m
      (asm w (step ptrs d z) s)"
proof -
  have "vxor (pvec (Suc z) k ptrs m e w) (get (m (ptrs ! z)) e w) = pvec z k ptrs m e w"
    "vxor (map xtimes (qvec (Suc z) k ptrs m e w)) (get (m (ptrs ! z)) e w) = qvec z k ptrs m e w"
    if "e + w \<le> d + W" for e
    using that z len by (simp_all add: pvec_step qvec_step)
  then have "lanes w ls (\<lambda>e. pvec z k ptrs m e w) (\<lambda>e. qvec z k ptrs m e w) d =
      lanes w ls (\<lambda>e. vxor (pvec (Suc z) k ptrs m e w) (get (m (ptrs ! z)) e w))
        (\<lambda>e. vxor (map xtimes (qvec (Suc z) k ptrs m e w)) (get (m (ptrs ! z)) e w)) d"
    by (intro lanes_cong) simp
  with step [OF assms(1) _ _ len] show ?thesis by simp
qed

lemma horner_turn:
  assumes ks: "kstate w zs (lanes w ls (\<lambda>e. pvec n k ptrs m e w) (\<lambda>e. qvec n k ptrs m e w) d) m s"
    and n: "n \<le> k" and len: "\<And>z. z < k \<Longrightarrow> d + W \<le> length (m (ptrs ! z))"
    and pq: "p \<noteq> q" "d + W \<le> length (m p)" "d + W \<le> length (m q)"
  shows "kstate w zh [] (m(p := put (m p) d (pvec 0 k ptrs m d W),
      q := put (m q) d (qvec 0 k ptrs m d W)))
    (asm w (post p q d) (for_down 0 n (\<lambda>z s. asm w (step ptrs d z) s) s))"
proof -
  have "kstate w zs (lanes w ls (\<lambda>e. pvec 0 k ptrs m e w) (\<lambda>e. qvec 0 k ptrs m e w) d) m
      (for_down 0 n (\<lambda>z s. asm w (step ptrs d z) s) s)"
    using ks n len
    by (intro for_down_invariant [where I = "\<lambda>z s. kstate w zs (lanes w ls
        (\<lambda>e. pvec z k ptrs m e w) (\<lambda>e. qvec z k ptrs m e w) d) m s"]) (auto intro!: horner_step)
  from post [OF this _ _ pq] show ?thesis by (simp add: vcat_pvec vcat_qvec)
qed

end

text \<open>
  Some kernels load the highest data page before the inner loop; others enter the inner
  loop with zero accumulators, which \<open>post\<close> clears again.
\<close>

locale gen_kernel_load = gen_kernel +
  fixes pre :: "addr list \<Rightarrow> nat \<Rightarrow> nat \<Rightarrow> insn list"
  assumes pre: "kstate w zh [] m s \<Longrightarrow> d + length ls * w \<le> length (m (ptrs ! z0)) \<Longrightarrow>
      kstate w zs (lanes w ls (\<lambda>e. get (m (ptrs ! z0)) e w) (\<lambda>e. get (m (ptrs ! z0)) e w) d) m
        (asm w (pre ptrs z0 d) s)"
begin

lemma run:
  assumes ok: "stripe_ok disks bytes ptrs m" and W: "W dvd bytes" and fpu: "wf_regs w fpu"
  shows "dram (for_step 0 bytes W
      (\<lambda>d s. asm w (post (ptrs ! (disks - 3 + 1)) (ptrs ! (disks - 3 + 2)) d)
        (for_down 0 (disks - 3) (\<lambda>z s. asm w (step ptrs d z) s)
          (asm w (pre ptrs (disks - 3) d) s)))
      (asm w init (kernel_fpu_begin fpu m))) = gen_syndrome_spec disks bytes ptrs m"
proof -
  obtain n where n: "disks = Suc n + 2"
    using stripe_ok_disks [OF ok] le_Suc_ex [of 3 disks] by auto
  have "dram (for_step 0 bytes W (\<lambda>d s. asm w (post (ptrs ! Suc n) (ptrs ! Suc (Suc n)) d)
        (for_down 0 n (\<lambda>z s. asm w (step ptrs d z) s) (asm w (pre ptrs n d) s)))
      (asm w init (kernel_fpu_begin fpu m))) = gen_syndrome_spec (Suc n + 2) bytes ptrs m"
  proof (rule gen_page [OF _ W_pos W])
    show "stripe_ok (Suc n + 2) bytes ptrs m" using ok n by simp
    show "kstate w zh [] m (asm w init (kernel_fpu_begin fpu m))"
      using init [of "kernel_fpu_begin fpu m"] fpu by (simp add: wf_regs_def)
  next
    fix d s and m :: mem
    assume ks: "kstate w zh [] m s"
      and len: "\<And>z. z < Suc n \<Longrightarrow> d + W \<le> length (m (ptrs ! z))"
      and pq: "ptrs ! Suc n \<noteq> ptrs ! Suc (Suc n)" "d + W \<le> length (m (ptrs ! Suc n))"
        "d + W \<le> length (m (ptrs ! Suc (Suc n)))"
    have "lanes w ls (\<lambda>e. pvec n (Suc n) ptrs m e w) (\<lambda>e. qvec n (Suc n) ptrs m e w) d =
        lanes w ls (\<lambda>e. get (m (ptrs ! n)) e w) (\<lambda>e. get (m (ptrs ! n)) e w) d"
      using len [of n] by (intro lanes_cong) (simp add: pvec_single)
    with pre [OF ks len [of n]]
    have "kstate w zs (lanes w ls (\<lambda>e. pvec n (Suc n) ptrs m e w)
        (\<lambda>e. qvec n (Suc n) ptrs m e w) d) m (asm w (pre ptrs n d) s)"
      by simp
    from horner_turn [OF this _ len pq]
    show "kstate w zh []
        (m(ptrs ! Suc n := put (m (ptrs ! Suc n)) d (pvec 0 (Suc n) ptrs m d W),
           ptrs ! Suc (Suc n) := put (m (ptrs ! Suc (Suc n))) d (qvec 0 (Suc n) ptrs m d W)))
        (asm w (post (ptrs ! Suc n) (ptrs ! Suc (Suc n)) d)
          (for_down 0 n (\<lambda>z s. asm w (step ptrs d z) s) (asm w (pre ptrs n d) s)))"
      by simp
  qed
  then show ?thesis by (simp add: n)
qed

end

locale gen_kernel_zero = gen_kernel +
  assumes zero: "kstate w zh [] m s \<Longrightarrow>
      kstate w zs (lanes w ls (\<lambda>_. replicate w 0) (\<lambda>_. replicate w 0) d) m s"
begin

lemma run:
  assumes ok: "stripe_ok disks bytes ptrs m" and W: "W dvd bytes" and fpu: "wf_regs w fpu"
  shows "dram (for_step 0 bytes W
      (\<lambda>d s. asm w (post (ptrs ! (disks - 3 + 1)) (ptrs ! (disks - 3 + 2)) d)
        (for_down 0 (disks - 3 + 1) (\<lambda>z s. asm w (step ptrs d z) s) s))
      (asm w init (kernel_fpu_begin fpu m))) = gen_syndrome_spec disks bytes ptrs m"
proof -
  obtain k where k: "disks = Suc k + 2"
    using stripe_ok_disks [OF ok] le_Suc_ex [of 3 disks] by auto
  have "dram (for_step 0 bytes W (\<lambda>d s. asm w (post (ptrs ! Suc k) (ptrs ! Suc (Suc k)) d)
        (for_down 0 (Suc k) (\<lambda>z s. asm w (step ptrs d z) s) s))
      (asm w init (kernel_fpu_begin fpu m))) = gen_syndrome_spec (Suc k + 2) bytes ptrs m"
  proof (rule gen_page [OF _ W_pos W])
    show "stripe_ok (Suc k + 2) bytes ptrs m" using ok k by simp
    show "kstate w zh [] m (asm w init (kernel_fpu_begin fpu m))"
      using init [of "kernel_fpu_begin fpu m"] fpu by (simp add: wf_regs_def)
  next
    fix d s and m :: mem
    assume "kstate w zh [] m s"
      and len: "\<And>z. z < Suc k \<Longrightarrow> d + W \<le> length (m (ptrs ! z))"
      and pq: "ptrs ! Suc k \<noteq> ptrs ! Suc (Suc k)" "d + W \<le> length (m (ptrs ! Suc k))"
        "d + W \<le> length (m (ptrs ! Suc (Suc k)))"
    then have "kstate w zs (lanes w ls (\<lambda>e. pvec (Suc k) (Suc k) ptrs m e w)
        (\<lambda>e. qvec (Suc k) (Suc k) ptrs m e w) d) m s"
      by (simp add: zero pvec_empty)
    from horner_turn [OF this _ len pq]
    show "kstate w zh []
        (m(ptrs ! Suc k := put (m (ptrs ! Suc k)) d (pvec 0 (Suc k) ptrs m d W),
           ptrs ! Suc (Suc k) := put (m (ptrs ! Suc (Suc k))) d (qvec 0 (Suc k) ptrs m d W)))
        (asm w (post (ptrs ! Suc k) (ptrs ! Suc (Suc k)) d)
          (for_down 0 (Suc k) (\<lambda>z s. asm w (step ptrs d z) s) s))"
      by simp
  qed
  then show ?thesis by (simp add: k)
qed

end

text \<open>
  The single-lane kernels are software-pipelined: a third register \<open>rd\<close> holds the page to
  be added in the next turn, and \<open>post\<close> does the last Horner step before storing.
\<close>

locale gen_kernel_pipe =
  fixes w :: nat and rp rq rd :: reg and zh :: "reg list"
    and init :: "insn list" and pre step :: "addr list \<Rightarrow> nat \<Rightarrow> nat \<Rightarrow> insn list"
    and post :: "addr \<Rightarrow> addr \<Rightarrow> nat \<Rightarrow> insn list"
  assumes width: "0 < w"
    and init: "wf_regs w s \<Longrightarrow> kstate w zh [] (dram s) (asm w init s)"
    and pre: "kstate w zh [] m s \<Longrightarrow> d + w \<le> length (m (ptrs ! z0)) \<Longrightarrow>
      d + w \<le> length (m (ptrs ! (z0 - 1))) \<Longrightarrow>
      kstate w zh [(rp, get (m (ptrs ! z0)) d w), (rq, get (m (ptrs ! z0)) d w),
        (rd, get (m (ptrs ! (z0 - 1))) d w)] m (asm w (pre ptrs z0 d) s)"
    and step: "kstate w zh [(rp, P), (rq, Q), (rd, D)] m s \<Longrightarrow>
      length P = w \<Longrightarrow> length Q = w \<Longrightarrow> length D = w \<Longrightarrow> d + w \<le> length (m (ptrs ! z)) \<Longrightarrow>
      kstate w zh [(rp, vxor P D), (rq, vxor (map xtimes Q) D), (rd, get (m (ptrs ! z)) d w)] m
        (asm w (step ptrs d z) s)"
    and post: "kstate w zh [(rp, P), (rq, Q), (rd, D)] m s \<Longrightarrow>
      length P = w \<Longrightarrow> length Q = w \<Longrightarrow> length D = w \<Longrightarrow> p \<noteq> q \<Longrightarrow>
      d + w \<le> length (m p) \<Longrightarrow> d + w \<le> length (m q) \<Longrightarrow>
      kstate w zh [] (m(p := put (m p) d (vxor P D), q := put (m q) d (vxor (map xtimes Q) D)))
        (asm w (post p q d) s)"
begin

lemma turn:
  assumes ks: "kstate w zh [] m s"
    and len: "\<And>z. z < n + 2 \<Longrightarrow> d + w \<le> length (m (ptrs ! z))"
    and pq: "p \<noteq> q" "d + w \<le> length (m p)" "d + w \<le> length (m q)"
  shows "kstate w zh [] (m(p := put (m p) d (pvec 0 (n + 2) ptrs m d w),
      q := put (m q) d (qvec 0 (n + 2) ptrs m d w)))
    (asm w (post p q d) (for_down 0 n (\<lambda>z s. asm w (step ptrs d z) s) (asm w (pre ptrs (Suc n) d) s)))"
proof -
  let ?J = "\<lambda>z. kstate w zh [(rp, pvec (Suc z) (n + 2) ptrs m d w),
      (rq, qvec (Suc z) (n + 2) ptrs m d w), (rd, get (m (ptrs ! z)) d w)] m"
  have "?J n (asm w (pre ptrs (Suc n) d) s)"
    using pre [OF ks len [of "Suc n"]] len [of n] len [of "Suc n"] by (simp add: pvec_single)
  then have "?J 0 (for_down 0 n (\<lambda>z s. asm w (step ptrs d z) s) (asm w (pre ptrs (Suc n) d) s))"
  proof (intro for_down_invariant [where I = ?J])
    fix z s
    assume "z < n" "?J (Suc z) s"
    with step [OF this(2), of d ptrs z] len [of z] len [of "Suc z"]
    show "?J z (asm w (step ptrs d z) s)" by (simp add: pvec_step qvec_step)
  qed simp_all
  from post [OF this _ _ _ pq] len [of 0] show ?thesis
    by (simp add: pvec_step qvec_step)
qed

lemma run:
  assumes ok: "stripe_ok disks bytes ptrs m" and W: "w dvd bytes" and fpu: "wf_regs w fpu"
  shows "dram (for_step 0 bytes w
      (\<lambda>d s. asm w (post (ptrs ! (disks - 3 + 1)) (ptrs ! (disks - 3 + 2)) d)
        (for_down 0 (disks - 3 - 1) (\<lambda>z s. asm w (step ptrs d z) s)
          (asm w (pre ptrs (disks - 3) d) s)))
      (asm w init (kernel_fpu_begin fpu m))) = gen_syndrome_spec disks bytes ptrs m"
proof -
  obtain n where n: "disks = n + 2 + 2"
    using stripe_ok_disks [OF ok] le_Suc_ex [of 4 disks] by auto
  have "dram (for_step 0 bytes w (\<lambda>d s. asm w (post (ptrs ! (n + 2)) (ptrs ! Suc (n + 2)) d)
        (for_down 0 n (\<lambda>z s. asm w (step ptrs d z) s) (asm w (pre ptrs (Suc n) d) s)))
      (asm w init (kernel_fpu_begin fpu m))) = gen_syndrome_spec (n + 2 + 2) bytes ptrs m"
  proof (rule gen_page [OF _ width W])
    show "stripe_ok (n + 2 + 2) bytes ptrs m" using ok n by simp
    show "kstate w zh [] m (asm w init (kernel_fpu_begin fpu m))"
      using init [of "kernel_fpu_begin fpu m"] fpu by (simp add: wf_regs_def)
  qed (rule turn)
  then show ?thesis by (simp add: n eval_nat_numeral)
qed

end

section \<open>Kernels that update the syndromes\<close>

text \<open>
  An \<open>xor_syndrome\<close> kernel starts from the highest changed page, runs Horner steps
  (\<open>right\<close>) down to the lowest changed page and then only doubles Q (\<open>left\<close>) down to page 0;
  \<open>mid\<close> is a group of prefetches between the two loops.
\<close>

locale xor_kernel =
  fixes w :: nat and ls :: "(reg \<times> reg) list" and init :: "insn list"
    and pre :: "addr list \<Rightarrow> addr \<Rightarrow> nat \<Rightarrow> nat \<Rightarrow> insn list"
    and right :: "addr list \<Rightarrow> nat \<Rightarrow> nat \<Rightarrow> insn list"
    and mid :: "addr \<Rightarrow> nat \<Rightarrow> insn list" and left :: "insn list"
    and post :: "addr \<Rightarrow> addr \<Rightarrow> nat \<Rightarrow> insn list"
  assumes width: "0 < w" "ls \<noteq> []"
    and init: "wf_regs w s \<Longrightarrow> kstate w [] [] (dram s) (asm w init s)"
    and pre: "kstate w [] [] m s \<Longrightarrow> d + length ls * w \<le> length (m (ptrs ! z0)) \<Longrightarrow>
      d + length ls * w \<le> length (m p) \<Longrightarrow>
      kstate w [] (lanes w ls (\<lambda>e. vxor (get (m p) e w) (get (m (ptrs ! z0)) e w))
        (\<lambda>e. get (m (ptrs ! z0)) e w) d) m (asm w (pre ptrs p z0 d) s)"
    and right: "kstate w [] (lanes w ls P Q d) m s \<Longrightarrow>
      (\<And>e. e + w \<le> d + length ls * w \<Longrightarrow> length (P e) = w) \<Longrightarrow> (\<And>e. length (Q e) = w) \<Longrightarrow>
      d + length ls * w \<le> length (m (ptrs ! z)) \<Longrightarrow>
      kstate w [] (lanes w ls (\<lambda>e. vxor (P e) (get (m (ptrs ! z)) e w))
          (\<lambda>e. vxor (map xtimes (Q e)) (get (m (ptrs ! z)) e w)) d) m (asm w (right ptrs d z) s)"
    and mid: "asm w (mid q d) s = s"
    and left: "kstate w [] (lanes w ls P Q d) m s \<Longrightarrow>
      (\<And>e. length (Q e) = w) \<Longrightarrow>
      kstate w [] (lanes w ls P (\<lambda>e. map xtimes (Q e)) d) m (asm w left s)"
    and post: "kstate w [] (lanes w ls P Q d) m s \<Longrightarrow>
      (\<And>e. e + w \<le> d + length ls * w \<Longrightarrow> length (P e) = w) \<Longrightarrow> (\<And>e. length (Q e) = w) \<Longrightarrow>
      p \<noteq> q \<Longrightarrow>
      d + length ls * w \<le> length (m p) \<Longrightarrow> d + length ls * w \<le> length (m q) \<Longrightarrow>
      kstate w [] [] (m(p := put (m p) d (vcat w ls P d),
          q := put (m q) d (vcat w ls (\<lambda>e. vxor (Q e) (get (m q) e w)) d)))
        (asm w (post p q d) s)"
begin

abbreviation W where "W \<equiv> length ls * w"

abbreviation P where "P ptrs hi m p z \<equiv> \<lambda>e. vxor (get (m p) e w) (pvec z hi ptrs m e w)"

abbreviation Q where "Q ptrs hi m z \<equiv> \<lambda>e. qvec z hi ptrs m e w"

lemma length_P: "d + W \<le> length (m p) \<Longrightarrow> e + w \<le> d + W \<Longrightarrow> length (P ptrs hi m p z e) = w"
  by simp

lemma right_side:
  assumes ks: "kstate w [] [] m s" and se: "start \<le> stop"
    and len: "\<And>z. z \<le> stop \<Longrightarrow> d + W \<le> length (m (ptrs ! z))" and p: "d + W \<le> length (m p)"
  shows "kstate w [] (lanes w ls (P ptrs (Suc stop) m p start) (Q ptrs (Suc stop) m start) d) m
    (for_down start stop (\<lambda>z s. asm w (right ptrs d z) s) (asm w (pre ptrs p stop d) s))"
proof (rule for_down_invariant [where I = "\<lambda>z s. kstate w [] (lanes w ls (P ptrs (Suc stop) m p z)
    (Q ptrs (Suc stop) m z) d) m s", OF se])
  have "lanes w ls (P ptrs (Suc stop) m p stop) (Q ptrs (Suc stop) m stop) d =
      lanes w ls (\<lambda>e. vxor (get (m p) e w) (get (m (ptrs ! stop)) e w))
        (\<lambda>e. get (m (ptrs ! stop)) e w) d"
    using len [of stop] by (intro lanes_cong) (simp add: pvec_single)
  with pre [OF ks len [of stop] p]
  show "kstate w [] (lanes w ls (P ptrs (Suc stop) m p stop) (Q ptrs (Suc stop) m stop) d) m
      (asm w (pre ptrs p stop d) s)" by simp
next
  fix z s
  assume z: "start \<le> z" "z < stop"
    and "kstate w [] (lanes w ls (P ptrs (Suc stop) m p (Suc z)) (Q ptrs (Suc stop) m (Suc z)) d) m s"
  then have "kstate w [] (lanes w ls
      (\<lambda>e. vxor (P ptrs (Suc stop) m p (Suc z) e) (get (m (ptrs ! z)) e w))
      (\<lambda>e. vxor (map xtimes (Q ptrs (Suc stop) m (Suc z) e)) (get (m (ptrs ! z)) e w)) d) m
      (asm w (right ptrs d z) s)"
    using len [of z] length_P [of d m p] p by (intro right) auto
  moreover have "lanes w ls (P ptrs (Suc stop) m p z) (Q ptrs (Suc stop) m z) d = lanes w ls
      (\<lambda>e. vxor (P ptrs (Suc stop) m p (Suc z) e) (get (m (ptrs ! z)) e w))
      (\<lambda>e. vxor (map xtimes (Q ptrs (Suc stop) m (Suc z) e)) (get (m (ptrs ! z)) e w)) d"
    using len [of z] z by (intro lanes_cong) (simp add: vxor_assoc pvec_step qvec_step)
  ultimately show "kstate w [] (lanes w ls (P ptrs (Suc stop) m p z) (Q ptrs (Suc stop) m z) d) m
      (asm w (right ptrs d z) s)" by simp
qed

lemma left_side:
  assumes ks: "kstate w [] (lanes w ls F (Q ptrs hi m start) d) m s"
  shows "kstate w [] (lanes w ls F (\<lambda>e. map (qbyte start hi ptrs m) [e..<e + w]) d) m
    (for_down 0 start (\<lambda>z s. asm w left s) s)"
proof -
  let ?I = "\<lambda>z. kstate w [] (lanes w ls F
      (\<lambda>e. map (gfmul (gexp (start - z))) (Q ptrs hi m start e)) d) m"
  have id: "gfmul 1 = id" by (simp add: fun_eq_iff)
  have "?I 0 (for_down 0 start (\<lambda>z s. asm w left s) s)"
  proof (rule for_down_invariant [where I = ?I])
    show "?I start s" using ks by (simp add: id)
  next
    fix z s
    assume "z < start" "?I (Suc z) s"
    then show "?I z (asm w left s)"
      using left [of F "\<lambda>e. map (gfmul (gexp (start - Suc z))) (Q ptrs hi m start e)" d m s]
      by (simp only: length_map length_pvec map_xtimes_gexp Suc_diff_Suc)
  qed simp
  then show ?thesis by (simp only: qvec_scale diff_zero)
qed

lemma turn:
  assumes ks: "kstate w [] [] m s" and se: "start \<le> stop"
    and len: "\<And>z. z \<le> stop \<Longrightarrow> d + W \<le> length (m (ptrs ! z))"
    and pq: "p \<noteq> q" "d + W \<le> length (m p)" "d + W \<le> length (m q)"
  shows "kstate w [] []
     (m(p := put (m p) d (map (\<lambda>i. m p ! i XOR pbyte start (Suc stop) ptrs m i) [d..<d + W]),
        q := put (m q) d (map (\<lambda>i. m q ! i XOR qbyte start (Suc stop) ptrs m i) [d..<d + W])))
     (asm w (post p q d) (for_down 0 start (\<lambda>z s. asm w left s) (asm w (mid q d)
       (for_down start stop (\<lambda>z s. asm w (right ptrs d z) s) (asm w (pre ptrs p stop d) s)))))"
    (is "kstate w [] [] _ ?s")
proof -
  let ?Q = "\<lambda>e. map (qbyte start (Suc stop) ptrs m) [e..<e + w]"
  have ks': "kstate w [] [] (m(p := put (m p) d (vcat w ls (P ptrs (Suc stop) m p start) d),
      q := put (m q) d (vcat w ls (\<lambda>e. vxor (?Q e) (get (m q) e w)) d))) ?s"
    unfolding mid
    by (rule post [OF left_side [OF right_side [OF ks se len pq(2)]] _ _ pq])
      (use pq length_P in auto)
  have "vcat w ls (P ptrs (Suc stop) m p start) d =
      vcat w ls (\<lambda>e. map (\<lambda>i. m p ! i XOR pbyte start (Suc stop) ptrs m i) [e..<e + w]) d"
    "vcat w ls (\<lambda>e. vxor (?Q e) (get (m q) e w)) d =
      vcat w ls (\<lambda>e. map (\<lambda>i. m q ! i XOR qbyte start (Suc stop) ptrs m i) [e..<e + w]) d"
    by (rule vcat_cong, use pq in \<open>simp add: list_eq_iff_nth_eq pvec_def ac_simps\<close>)+
  with ks' show ?thesis by (simp only: vcat_map)
qed

lemma run:
  assumes ok: "stripe_ok disks bytes ptrs m" and W: "W dvd bytes" and fpu: "wf_regs w fpu"
    and se: "start \<le> stop" "stop < disks - 2"
  shows "dram (for_step 0 bytes W
      (\<lambda>d s. asm w (post (ptrs ! (disks - 2)) (ptrs ! (disks - 1)) d)
        (for_down 0 start (\<lambda>z s. asm w left s) (asm w (mid (ptrs ! (disks - 1)) d)
          (for_down start stop (\<lambda>z s. asm w (right ptrs d z) s)
            (asm w (pre ptrs (ptrs ! (disks - 2)) stop d) s)))))
      (asm w init (kernel_fpu_begin fpu m))) = xor_syndrome_spec disks start stop bytes ptrs m"
    (is "dram (for_step 0 bytes W ?body _) = _")
proof -
  let ?p = "ptrs ! (disks - 2)" and ?q = "ptrs ! (disks - 1)"
  let ?f = "\<lambda>m i. m ?p ! i XOR pbyte start (Suc stop) ptrs m i"
  let ?g = "\<lambda>m i. m ?q ! i XOR qbyte start (Suc stop) ptrs m i"
  have W_pos: "0 < W" using width by simp
  have "dram (for_step 0 bytes W ?body (asm w init (kernel_fpu_begin fpu m))) =
     m(?p := put (m ?p) 0 (map (?f m) [0..<bytes]), ?q := put (m ?q) 0 (map (?g m) [0..<bytes]))"
  proof (rule pq_loop [where I = "\<lambda>s. kstate w [] [] (dram s) s", OF ok W_pos W])
    have "kstate w [] [] m (asm w init (kernel_fpu_begin fpu m))"
      using init [of "kernel_fpu_begin fpu m"] fpu by (simp add: wf_regs_def)
    then show "kstate w [] [] (dram (asm w init (kernel_fpu_begin fpu m)))
        (asm w init (kernel_fpu_begin fpu m))" "dram (asm w init (kernel_fpu_begin fpu m)) = m"
      by (auto simp: kstate_def)
  next
    fix d s m'
    assume d: "d + W \<le> bytes" and ks: "kstate w [] [] (dram s) s" and m': "dram s = m'"
      and ok': "stripe_ok disks bytes ptrs m'"
      and data: "\<And>z. z < disks - 2 \<Longrightarrow> m' (ptrs ! z) = m (ptrs ! z)"
      and same: "\<And>i. d \<le> i \<Longrightarrow> i < bytes \<Longrightarrow> m' ?p ! i = m ?p ! i"
        "\<And>i. d \<le> i \<Longrightarrow> i < bytes \<Longrightarrow> m' ?q ! i = m ?q ! i"
    have len: "d + W \<le> length (m' (ptrs ! z))" if "z < disks" for z
      using stripe_ok_length [OF ok' that] d by simp
    have "kstate w [] [] (m'(?p := put (m' ?p) d (map (?f m') [d..<d + W]),
        ?q := put (m' ?q) d (map (?g m') [d..<d + W]))) (?body d s)"
      using ks [unfolded m'] stripe_ok_pq(1) [OF ok] se by (intro turn) (simp_all add: len)
    moreover have f: "map (?f m') [d..<d + W] = map (?f m) [d..<d + W]"
      and g: "map (?g m') [d..<d + W] = map (?g m) [d..<d + W]"
      using d data se same
        pbyte_cong [of start "Suc stop" m' ptrs m] qbyte_cong [of start "Suc stop" m' ptrs m]
      by (auto simp del: upt_Suc)
    ultimately show "kstate w [] [] (dram (?body d s)) (?body d s) \<and> dram (?body d s) =
        m'(?p := put (m' ?p) d (map (?f m) [d..<d + W]), ?q := put (m' ?q) d (map (?g m) [d..<d + W]))"
      unfolding f g by (auto simp: kstate_def)
  qed simp_all
  then show ?thesis by (simp add: xor_syndrome_spec_def Let_def)
qed

end

end
