(* ===== verification/Raid6_SSE2.thy ===== *)
theory Raid6_SSE2
  imports Simd_Kernel
begin

text \<open>
  The SSE2 kernels of \<^verbatim>\<open>raid6/sse2.c\<close>: instruction by instruction, one list per group of
  \<^verbatim>\<open>asm volatile\<close> statements, with the loops of the C functions around them.
\<close>

definition raid6_sse_constants :: "u8 list" where
  "raid6_sse_constants = concat (map le_bytes
     [0x1d1d1d1d1d1d1d1d, 0x1d1d1d1d1d1d1d1d])"

lemma raid6_sse_constants_eq: "raid6_sse_constants = replicate 16 0x1d"
  by (simp add: raid6_sse_constants_def le_bytes_x1d flip: replicate_add)

section \<open>Plain SSE2\<close>

definition sse21_gen_init :: "insn list" where
  "sse21_gen_init = [
     MOVDQA_imm raid6_sse_constants 0, PXOR 5 5]"

definition sse21_gen_pre :: "addr list \<Rightarrow> nat \<Rightarrow> nat \<Rightarrow> insn list" where
  "sse21_gen_pre dptr z0 d = [
     PREFETCHNTA (dptr ! z0) d, MOVDQA_load (dptr ! z0) d 2,
     PREFETCHNTA (dptr ! (z0 - 1)) d, MOVDQA 2 4, MOVDQA_load (dptr ! (z0 - 1)) d 6]"

definition sse21_gen_step :: "addr list \<Rightarrow> nat \<Rightarrow> nat \<Rightarrow> insn list" where
  "sse21_gen_step dptr d z = [
     PREFETCHNTA (dptr ! z) d, PCMPGTB 4 5, PADDB 4 4, PAND 0 5, PXOR 5 4, PXOR 5 5,
     PXOR 6 2, PXOR 6 4, MOVDQA_load (dptr ! z) d 6]"

definition sse21_gen_post :: "addr \<Rightarrow> addr \<Rightarrow> nat \<Rightarrow> insn list" where
  "sse21_gen_post p q d = [
     PCMPGTB 4 5, PADDB 4 4, PAND 0 5, PXOR 5 4, PXOR 5 5, PXOR 6 2, PXOR 6 4,
     MOVNTDQ 2 p d, PXOR 2 2, MOVNTDQ 4 q d, PXOR 4 4]"

definition raid6_sse21_gen_syndrome ::
    "simd \<Rightarrow> nat \<Rightarrow> nat \<Rightarrow> addr list \<Rightarrow> mem \<Rightarrow> mem" where
  "raid6_sse21_gen_syndrome fpu disks bytes dptr m =
     (let z0 = disks - 3; p = dptr ! (z0 + 1); q = dptr ! (z0 + 2);
          s = asm 16 sse21_gen_init (kernel_fpu_begin fpu m);
          s = for_step 0 bytes 16 (\<lambda>d s.
                asm 16 (sse21_gen_post p q d)
                  (for_down 0 (z0 - 1) (\<lambda>z s. asm 16 (sse21_gen_step dptr d z) s)
                    (asm 16 (sse21_gen_pre dptr z0 d) s))) s;
          s = asm 16 [SFENCE] s
      in dram s)"

lemmas sse21_gen_defs =
  sse21_gen_init_def sse21_gen_pre_def sse21_gen_step_def sse21_gen_post_def raid6_sse_constants_eq

interpretation sse21_gen: gen_kernel_pipe 16 2 4 6 "[5]" sse21_gen_init sse21_gen_pre sse21_gen_step sse21_gen_post
  by unfold_locales (auto simp: kernel_simps sse21_gen_defs)

lemma raid6_sse21_gen_syndrome_correct:
  "stripe_ok disks bytes ptrs m \<Longrightarrow> 16 dvd bytes \<Longrightarrow> wf_regs 16 fpu \<Longrightarrow>
   raid6_sse21_gen_syndrome fpu disks bytes ptrs m = gen_syndrome_spec disks bytes ptrs m"
  using sse21_gen.run [of disks bytes ptrs m fpu] by (simp add: raid6_sse21_gen_syndrome_def Let_def)

definition sse21_xor_init :: "insn list" where
  "sse21_xor_init = [
     MOVDQA_imm raid6_sse_constants 0]"

definition sse21_xor_pre :: "addr list \<Rightarrow> addr \<Rightarrow> nat \<Rightarrow> nat \<Rightarrow> insn list" where
  "sse21_xor_pre dptr p z0 d = [
     MOVDQA_load (dptr ! z0) d 4, MOVDQA_load p d 2, PXOR 4 2]"

definition sse21_xor_right :: "addr list \<Rightarrow> nat \<Rightarrow> nat \<Rightarrow> insn list" where
  "sse21_xor_right dptr d z = [
     PXOR 5 5, PCMPGTB 4 5, PADDB 4 4, PAND 0 5, PXOR 5 4, MOVDQA_load (dptr ! z) d 5,
     PXOR 5 2, PXOR 5 4]"

definition sse21_xor_left :: "insn list" where
  "sse21_xor_left = [
     PXOR 5 5, PCMPGTB 4 5, PADDB 4 4, PAND 0 5, PXOR 5 4]"

definition sse21_xor_post :: "addr \<Rightarrow> addr \<Rightarrow> nat \<Rightarrow> insn list" where
  "sse21_xor_post p q d = [
     PXOR_load q d 4, MOVDQA_store 4 q d, MOVDQA_store 2 p d]"

definition raid6_sse21_xor_syndrome ::
    "simd \<Rightarrow> nat \<Rightarrow> nat \<Rightarrow> nat \<Rightarrow> nat \<Rightarrow> addr list \<Rightarrow> mem \<Rightarrow> mem" where
  "raid6_sse21_xor_syndrome fpu disks start stop bytes dptr m =
     (let z0 = stop; p = dptr ! (disks - 2); q = dptr ! (disks - 1);
          s = asm 16 sse21_xor_init (kernel_fpu_begin fpu m);
          s = for_step 0 bytes 16 (\<lambda>d s.
                asm 16 (sse21_xor_post p q d)
                  (for_down 0 start (\<lambda>z s. asm 16 sse21_xor_left s)
                    (for_down start z0 (\<lambda>z s. asm 16 (sse21_xor_right dptr d z) s)
                      (asm 16 (sse21_xor_pre dptr p z0 d) s)))) s;
          s = asm 16 [SFENCE] s
      in dram s)"

lemmas sse21_xor_defs =
  sse21_xor_init_def sse21_xor_pre_def sse21_xor_right_def sse21_xor_left_def sse21_xor_post_def raid6_sse_constants_eq

interpretation sse21_xor: xor_kernel 16 "[(2, 4)]"
    sse21_xor_init sse21_xor_pre sse21_xor_right "\<lambda>_ _. []" sse21_xor_left sse21_xor_post
  by unfold_locales (auto simp: kernel_simps sse21_xor_defs)

lemma raid6_sse21_xor_syndrome_correct:
  "stripe_ok disks bytes ptrs m \<Longrightarrow> 16 dvd bytes \<Longrightarrow> wf_regs 16 fpu \<Longrightarrow>
   start \<le> stop \<Longrightarrow> stop < disks - 2 \<Longrightarrow>
   raid6_sse21_xor_syndrome fpu disks start stop bytes ptrs m =
   xor_syndrome_spec disks start stop bytes ptrs m"
  using sse21_xor.run [of disks bytes ptrs m fpu start stop] by (simp add: raid6_sse21_xor_syndrome_def Let_def)

interpretation sse2x1: raid6_xor raid6_sse21_gen_syndrome "wf_regs 16" 16 raid6_sse21_xor_syndrome
  by unfold_locales (rule raid6_sse21_gen_syndrome_correct raid6_sse21_xor_syndrome_correct; assumption)+

section \<open>Unrolled by two\<close>

definition sse22_gen_init :: "insn list" where
  "sse22_gen_init = [
     MOVDQA_imm raid6_sse_constants 0, PXOR 5 5, PXOR 7 7]"

definition sse22_gen_pre :: "addr list \<Rightarrow> nat \<Rightarrow> nat \<Rightarrow> insn list" where
  "sse22_gen_pre dptr z0 d = [
     PREFETCHNTA (dptr ! z0) d, MOVDQA_load (dptr ! z0) d 2,
     MOVDQA_load (dptr ! z0) (d + 16) 3, MOVDQA 2 4, MOVDQA 3 6]"

definition sse22_gen_step :: "addr list \<Rightarrow> nat \<Rightarrow> nat \<Rightarrow> insn list" where
  "sse22_gen_step dptr d z = [
     PREFETCHNTA (dptr ! z) d, PCMPGTB 4 5, PCMPGTB 6 7, PADDB 4 4, PADDB 6 6, PAND 0 5,
     PAND 0 7, PXOR 5 4, PXOR 7 6, MOVDQA_load (dptr ! z) d 5,
     MOVDQA_load (dptr ! z) (d + 16) 7, PXOR 5 2, PXOR 7 3, PXOR 5 4, PXOR 7 6, PXOR 5 5,
     PXOR 7 7]"

definition sse22_gen_post :: "addr \<Rightarrow> addr \<Rightarrow> nat \<Rightarrow> insn list" where
  "sse22_gen_post p q d = [
     MOVNTDQ 2 p d, MOVNTDQ 3 p (d + 16), MOVNTDQ 4 q d, MOVNTDQ 6 q (d + 16)]"

definition raid6_sse22_gen_syndrome ::
    "simd \<Rightarrow> nat \<Rightarrow> nat \<Rightarrow> addr list \<Rightarrow> mem \<Rightarrow> mem" where
  "raid6_sse22_gen_syndrome fpu disks bytes dptr m =
     (let z0 = disks - 3; p = dptr ! (z0 + 1); q = dptr ! (z0 + 2);
          s = asm 16 sse22_gen_init (kernel_fpu_begin fpu m);
          s = for_step 0 bytes 32 (\<lambda>d s.
                asm 16 (sse22_gen_post p q d)
                  (for_down 0 (z0) (\<lambda>z s. asm 16 (sse22_gen_step dptr d z) s)
                    (asm 16 (sse22_gen_pre dptr z0 d) s))) s;
          s = asm 16 [SFENCE] s
      in dram s)"

lemmas sse22_gen_defs =
  sse22_gen_init_def sse22_gen_pre_def sse22_gen_step_def sse22_gen_post_def raid6_sse_constants_eq

interpretation sse22_gen: gen_kernel_load 16 "[(2, 4), (3, 6)]" "[5, 7]" "[5, 7]" sse22_gen_init sse22_gen_step sse22_gen_post sse22_gen_pre
  by unfold_locales (auto simp: kernel_simps sse22_gen_defs)

lemma raid6_sse22_gen_syndrome_correct:
  "stripe_ok disks bytes ptrs m \<Longrightarrow> 32 dvd bytes \<Longrightarrow> wf_regs 16 fpu \<Longrightarrow>
   raid6_sse22_gen_syndrome fpu disks bytes ptrs m = gen_syndrome_spec disks bytes ptrs m"
  using sse22_gen.run [of disks bytes ptrs m fpu] by (simp add: raid6_sse22_gen_syndrome_def Let_def)

definition sse22_xor_init :: "insn list" where
  "sse22_xor_init = [
     MOVDQA_imm raid6_sse_constants 0]"

definition sse22_xor_pre :: "addr list \<Rightarrow> addr \<Rightarrow> nat \<Rightarrow> nat \<Rightarrow> insn list" where
  "sse22_xor_pre dptr p z0 d = [
     MOVDQA_load (dptr ! z0) d 4, MOVDQA_load (dptr ! z0) (d + 16) 6, MOVDQA_load p d 2,
     MOVDQA_load p (d + 16) 3, PXOR 4 2, PXOR 6 3]"

definition sse22_xor_right :: "addr list \<Rightarrow> nat \<Rightarrow> nat \<Rightarrow> insn list" where
  "sse22_xor_right dptr d z = [
     PXOR 5 5, PXOR 7 7, PCMPGTB 4 5, PCMPGTB 6 7, PADDB 4 4, PADDB 6 6, PAND 0 5,
     PAND 0 7, PXOR 5 4, PXOR 7 6, MOVDQA_load (dptr ! z) d 5,
     MOVDQA_load (dptr ! z) (d + 16) 7, PXOR 5 2, PXOR 7 3, PXOR 5 4, PXOR 7 6]"

definition sse22_xor_left :: "insn list" where
  "sse22_xor_left = [
     PXOR 5 5, PXOR 7 7, PCMPGTB 4 5, PCMPGTB 6 7, PADDB 4 4, PADDB 6 6, PAND 0 5,
     PAND 0 7, PXOR 5 4, PXOR 7 6]"

definition sse22_xor_post :: "addr \<Rightarrow> addr \<Rightarrow> nat \<Rightarrow> insn list" where
  "sse22_xor_post p q d = [
     PXOR_load q d 4, PXOR_load q (d + 16) 6, MOVDQA_store 4 q d,
     MOVDQA_store 6 q (d + 16), MOVDQA_store 2 p d, MOVDQA_store 3 p (d + 16)]"

definition raid6_sse22_xor_syndrome ::
    "simd \<Rightarrow> nat \<Rightarrow> nat \<Rightarrow> nat \<Rightarrow> nat \<Rightarrow> addr list \<Rightarrow> mem \<Rightarrow> mem" where
  "raid6_sse22_xor_syndrome fpu disks start stop bytes dptr m =
     (let z0 = stop; p = dptr ! (disks - 2); q = dptr ! (disks - 1);
          s = asm 16 sse22_xor_init (kernel_fpu_begin fpu m);
          s = for_step 0 bytes 32 (\<lambda>d s.
                asm 16 (sse22_xor_post p q d)
                  (for_down 0 start (\<lambda>z s. asm 16 sse22_xor_left s)
                    (for_down start z0 (\<lambda>z s. asm 16 (sse22_xor_right dptr d z) s)
                      (asm 16 (sse22_xor_pre dptr p z0 d) s)))) s;
          s = asm 16 [SFENCE] s
      in dram s)"

lemmas sse22_xor_defs =
  sse22_xor_init_def sse22_xor_pre_def sse22_xor_right_def sse22_xor_left_def sse22_xor_post_def raid6_sse_constants_eq

interpretation sse22_xor: xor_kernel 16 "[(2, 4), (3, 6)]"
    sse22_xor_init sse22_xor_pre sse22_xor_right "\<lambda>_ _. []" sse22_xor_left sse22_xor_post
  by unfold_locales (auto simp: kernel_simps sse22_xor_defs)

lemma raid6_sse22_xor_syndrome_correct:
  "stripe_ok disks bytes ptrs m \<Longrightarrow> 32 dvd bytes \<Longrightarrow> wf_regs 16 fpu \<Longrightarrow>
   start \<le> stop \<Longrightarrow> stop < disks - 2 \<Longrightarrow>
   raid6_sse22_xor_syndrome fpu disks start stop bytes ptrs m =
   xor_syndrome_spec disks start stop bytes ptrs m"
  using sse22_xor.run [of disks bytes ptrs m fpu start stop] by (simp add: raid6_sse22_xor_syndrome_def Let_def)

interpretation sse2x2: raid6_xor raid6_sse22_gen_syndrome "wf_regs 16" 32 raid6_sse22_xor_syndrome
  by unfold_locales (rule raid6_sse22_gen_syndrome_correct raid6_sse22_xor_syndrome_correct; assumption)+

section \<open>Unrolled by four\<close>

definition sse24_gen_init :: "insn list" where
  "sse24_gen_init = [
     MOVDQA_imm raid6_sse_constants 0, PXOR 2 2, PXOR 3 3, PXOR 4 4, PXOR 5 5, PXOR 6 6,
     PXOR 7 7, PXOR 10 10, PXOR 11 11, PXOR 12 12, PXOR 13 13, PXOR 14 14, PXOR 15 15]"

definition sse24_gen_step :: "addr list \<Rightarrow> nat \<Rightarrow> nat \<Rightarrow> insn list" where
  "sse24_gen_step dptr d z = [
     PREFETCHNTA (dptr ! z) d, PREFETCHNTA (dptr ! z) (d + 32), PCMPGTB 4 5, PCMPGTB 6 7,
     PCMPGTB 12 13, PCMPGTB 14 15, PADDB 4 4, PADDB 6 6, PADDB 12 12, PADDB 14 14,
     PAND 0 5, PAND 0 7, PAND 0 13, PAND 0 15, PXOR 5 4, PXOR 7 6, PXOR 13 12,
     PXOR 15 14, MOVDQA_load (dptr ! z) d 5, MOVDQA_load (dptr ! z) (d + 16) 7,
     MOVDQA_load (dptr ! z) (d + 32) 13, MOVDQA_load (dptr ! z) (d + 48) 15, PXOR 5 2,
     PXOR 7 3, PXOR 13 10, PXOR 15 11, PXOR 5 4, PXOR 7 6, PXOR 13 12, PXOR 15 14,
     PXOR 5 5, PXOR 7 7, PXOR 13 13, PXOR 15 15]"

definition sse24_gen_post :: "addr \<Rightarrow> addr \<Rightarrow> nat \<Rightarrow> insn list" where
  "sse24_gen_post p q d = [
     MOVNTDQ 2 p d, PXOR 2 2, MOVNTDQ 3 p (d + 16), PXOR 3 3, MOVNTDQ 10 p (d + 32),
     PXOR 10 10, MOVNTDQ 11 p (d + 48), PXOR 11 11, MOVNTDQ 4 q d, PXOR 4 4,
     MOVNTDQ 6 q (d + 16), PXOR 6 6, MOVNTDQ 12 q (d + 32), PXOR 12 12,
     MOVNTDQ 14 q (d + 48), PXOR 14 14]"

definition raid6_sse24_gen_syndrome ::
    "simd \<Rightarrow> nat \<Rightarrow> nat \<Rightarrow> addr list \<Rightarrow> mem \<Rightarrow> mem" where
  "raid6_sse24_gen_syndrome fpu disks bytes dptr m =
     (let z0 = disks - 3; p = dptr ! (z0 + 1); q = dptr ! (z0 + 2);
          s = asm 16 sse24_gen_init (kernel_fpu_begin fpu m);
          s = for_step 0 bytes 64 (\<lambda>d s.
                asm 16 (sse24_gen_post p q d)
                  (for_down 0 (z0 + 1) (\<lambda>z s. asm 16 (sse24_gen_step dptr d z) s)
                    s)) s;
          s = asm 16 [SFENCE] s
      in dram s)"

lemmas sse24_gen_defs =
  sse24_gen_init_def sse24_gen_step_def sse24_gen_post_def raid6_sse_constants_eq

interpretation sse24_gen: gen_kernel_zero 16 "[(2, 4), (3, 6), (10, 12), (11, 14)]"
    "[2, 3, 4, 5, 6, 7, 10, 11, 12, 13, 14, 15]" "[5, 7, 13, 15]" sse24_gen_init sse24_gen_step sse24_gen_post
  by unfold_locales (auto simp: kernel_simps sse24_gen_defs)

lemma raid6_sse24_gen_syndrome_correct:
  "stripe_ok disks bytes ptrs m \<Longrightarrow> 64 dvd bytes \<Longrightarrow> wf_regs 16 fpu \<Longrightarrow>
   raid6_sse24_gen_syndrome fpu disks bytes ptrs m = gen_syndrome_spec disks bytes ptrs m"
  using sse24_gen.run [of disks bytes ptrs m fpu] by (simp add: raid6_sse24_gen_syndrome_def Let_def)

definition sse24_xor_init :: "insn list" where
  "sse24_xor_init = [
     MOVDQA_imm raid6_sse_constants 0]"

definition sse24_xor_pre :: "addr list \<Rightarrow> addr \<Rightarrow> nat \<Rightarrow> nat \<Rightarrow> insn list" where
  "sse24_xor_pre dptr p z0 d = [
     MOVDQA_load (dptr ! z0) d 4, MOVDQA_load (dptr ! z0) (d + 16) 6,
     MOVDQA_load (dptr ! z0) (d + 32) 12, MOVDQA_load (dptr ! z0) (d + 48) 14,
     MOVDQA_load p d 2, MOVDQA_load p (d + 16) 3, MOVDQA_load p (d + 32) 10,
     MOVDQA_load p (d + 48) 11, PXOR 4 2, PXOR 6 3, PXOR 12 10, PXOR 14 11]"

definition sse24_xor_right :: "addr list \<Rightarrow> nat \<Rightarrow> nat \<Rightarrow> insn list" where
  "sse24_xor_right dptr d z = [
     PREFETCHNTA (dptr ! z) d, PREFETCHNTA (dptr ! z) (d + 32), PXOR 5 5, PXOR 7 7,
     PXOR 13 13, PXOR 15 15, PCMPGTB 4 5, PCMPGTB 6 7, PCMPGTB 12 13, PCMPGTB 14 15,
     PADDB 4 4, PADDB 6 6, PADDB 12 12, PADDB 14 14, PAND 0 5, PAND 0 7, PAND 0 13,
     PAND 0 15, PXOR 5 4, PXOR 7 6, PXOR 13 12, PXOR 15 14, MOVDQA_load (dptr ! z) d 5,
     MOVDQA_load (dptr ! z) (d + 16) 7, MOVDQA_load (dptr ! z) (d + 32) 13,
     MOVDQA_load (dptr ! z) (d + 48) 15, PXOR 5 2, PXOR 7 3, PXOR 13 10, PXOR 15 11,
     PXOR 5 4, PXOR 7 6, PXOR 13 12, PXOR 15 14]"

definition sse24_xor_mid :: "addr \<Rightarrow> nat \<Rightarrow> insn list" where
  "sse24_xor_mid q d = [
     PREFETCHNTA q d, PREFETCHNTA q (d + 32)]"

definition sse24_xor_left :: "insn list" where
  "sse24_xor_left = [
     PXOR 5 5, PXOR 7 7, PXOR 13 13, PXOR 15 15, PCMPGTB 4 5, PCMPGTB 6 7, PCMPGTB 12 13,
     PCMPGTB 14 15, PADDB 4 4, PADDB 6 6, PADDB 12 12, PADDB 14 14, PAND 0 5, PAND 0 7,
     PAND 0 13, PAND 0 15, PXOR 5 4, PXOR 7 6, PXOR 13 12, PXOR 15 14]"

definition sse24_xor_post :: "addr \<Rightarrow> addr \<Rightarrow> nat \<Rightarrow> insn list" where
  "sse24_xor_post p q d = [
     MOVNTDQ 2 p d, MOVNTDQ 3 p (d + 16), MOVNTDQ 10 p (d + 32), MOVNTDQ 11 p (d + 48),
     PXOR_load q d 4, PXOR_load q (d + 16) 6, PXOR_load q (d + 32) 12,
     PXOR_load q (d + 48) 14, MOVNTDQ 4 q d, MOVNTDQ 6 q (d + 16), MOVNTDQ 12 q (d + 32),
     MOVNTDQ 14 q (d + 48)]"

definition raid6_sse24_xor_syndrome ::
    "simd \<Rightarrow> nat \<Rightarrow> nat \<Rightarrow> nat \<Rightarrow> nat \<Rightarrow> addr list \<Rightarrow> mem \<Rightarrow> mem" where
  "raid6_sse24_xor_syndrome fpu disks start stop bytes dptr m =
     (let z0 = stop; p = dptr ! (disks - 2); q = dptr ! (disks - 1);
          s = asm 16 sse24_xor_init (kernel_fpu_begin fpu m);
          s = for_step 0 bytes 64 (\<lambda>d s.
                asm 16 (sse24_xor_post p q d)
                  (for_down 0 start (\<lambda>z s. asm 16 sse24_xor_left s)
                    (asm 16 (sse24_xor_mid q d)
                    (for_down start z0 (\<lambda>z s. asm 16 (sse24_xor_right dptr d z) s)
                      (asm 16 (sse24_xor_pre dptr p z0 d) s))))) s;
          s = asm 16 [SFENCE] s
      in dram s)"

lemmas sse24_xor_defs =
  sse24_xor_init_def sse24_xor_pre_def sse24_xor_right_def sse24_xor_mid_def sse24_xor_left_def sse24_xor_post_def raid6_sse_constants_eq

interpretation sse24_xor: xor_kernel 16 "[(2, 4), (3, 6), (10, 12), (11, 14)]"
    sse24_xor_init sse24_xor_pre sse24_xor_right sse24_xor_mid sse24_xor_left sse24_xor_post
  by unfold_locales (auto simp: kernel_simps sse24_xor_defs)

lemma raid6_sse24_xor_syndrome_correct:
  "stripe_ok disks bytes ptrs m \<Longrightarrow> 64 dvd bytes \<Longrightarrow> wf_regs 16 fpu \<Longrightarrow>
   start \<le> stop \<Longrightarrow> stop < disks - 2 \<Longrightarrow>
   raid6_sse24_xor_syndrome fpu disks start stop bytes ptrs m =
   xor_syndrome_spec disks start stop bytes ptrs m"
  using sse24_xor.run [of disks bytes ptrs m fpu start stop] by (simp add: raid6_sse24_xor_syndrome_def Let_def)

interpretation sse2x4: raid6_xor raid6_sse24_gen_syndrome "wf_regs 16" 64 raid6_sse24_xor_syndrome
  by unfold_locales (rule raid6_sse24_gen_syndrome_correct raid6_sse24_xor_syndrome_correct; assumption)+

end
