(* ===== verification/Raid6_AVX2.thy ===== *)
theory Raid6_AVX2
  imports Simd_Kernel
begin

text \<open>
  The AVX2 kernels of \<^verbatim>\<open>raid6/avx2.c\<close>: instruction by instruction, one list per group of
  \<^verbatim>\<open>asm volatile\<close> statements, with the loops of the C functions around them.
\<close>

definition raid6_avx2_constants :: "u8 list" where
  "raid6_avx2_constants = concat (map le_bytes
     [0x1d1d1d1d1d1d1d1d, 0x1d1d1d1d1d1d1d1d,
      0x1d1d1d1d1d1d1d1d, 0x1d1d1d1d1d1d1d1d])"

lemma raid6_avx2_constants_eq: "raid6_avx2_constants = replicate 32 0x1d"
  by (simp add: raid6_avx2_constants_def le_bytes_x1d flip: replicate_add)

section \<open>Plain AVX2\<close>

definition avx21_gen_init :: "insn list" where
  "avx21_gen_init = [
     MOVDQA_imm raid6_avx2_constants 0, VPXOR 3 3 3]"

definition avx21_gen_pre :: "addr list \<Rightarrow> nat \<Rightarrow> nat \<Rightarrow> insn list" where
  "avx21_gen_pre dptr z0 d = [
     PREFETCHNTA (dptr ! z0) d, MOVDQA_load (dptr ! z0) d 2,
     PREFETCHNTA (dptr ! (z0 - 1)) d, MOVDQA 2 4, MOVDQA_load (dptr ! (z0 - 1)) d 6]"

definition avx21_gen_step :: "addr list \<Rightarrow> nat \<Rightarrow> nat \<Rightarrow> insn list" where
  "avx21_gen_step dptr d z = [
     PREFETCHNTA (dptr ! z) d, VPCMPGTB 4 3 5, VPADDB 4 4 4, VPAND 0 5 5, VPXOR 5 4 4,
     VPXOR 6 2 2, VPXOR 6 4 4, MOVDQA_load (dptr ! z) d 6]"

definition avx21_gen_post :: "addr \<Rightarrow> addr \<Rightarrow> nat \<Rightarrow> insn list" where
  "avx21_gen_post p q d = [
     VPCMPGTB 4 3 5, VPADDB 4 4 4, VPAND 0 5 5, VPXOR 5 4 4, VPXOR 6 2 2, VPXOR 6 4 4,
     MOVNTDQ 2 p d, VPXOR 2 2 2, MOVNTDQ 4 q d, VPXOR 4 4 4]"

definition raid6_avx21_gen_syndrome ::
    "simd \<Rightarrow> nat \<Rightarrow> nat \<Rightarrow> addr list \<Rightarrow> mem \<Rightarrow> mem" where
  "raid6_avx21_gen_syndrome fpu disks bytes dptr m =
     (let z0 = disks - 3; p = dptr ! (z0 + 1); q = dptr ! (z0 + 2);
          s = asm 32 avx21_gen_init (kernel_fpu_begin fpu m);
          s = for_step 0 bytes 32 (\<lambda>d s.
                asm 32 (avx21_gen_post p q d)
                  (for_down 0 (z0 - 1) (\<lambda>z s. asm 32 (avx21_gen_step dptr d z) s)
                    (asm 32 (avx21_gen_pre dptr z0 d) s))) s;
          s = asm 32 [SFENCE] s
      in dram s)"

lemmas avx21_gen_defs =
  avx21_gen_init_def avx21_gen_pre_def avx21_gen_step_def avx21_gen_post_def raid6_avx2_constants_eq

interpretation avx21_gen: gen_kernel_pipe 32 2 4 6 "[3]" avx21_gen_init avx21_gen_pre avx21_gen_step avx21_gen_post
  by unfold_locales (auto simp: kernel_simps avx21_gen_defs)

lemma raid6_avx21_gen_syndrome_correct:
  "stripe_ok disks bytes ptrs m \<Longrightarrow> 32 dvd bytes \<Longrightarrow> wf_regs 32 fpu \<Longrightarrow>
   raid6_avx21_gen_syndrome fpu disks bytes ptrs m = gen_syndrome_spec disks bytes ptrs m"
  using avx21_gen.run [of disks bytes ptrs m fpu] by (simp add: raid6_avx21_gen_syndrome_def Let_def)

definition avx21_xor_init :: "insn list" where
  "avx21_xor_init = [
     MOVDQA_imm raid6_avx2_constants 0]"

definition avx21_xor_pre :: "addr list \<Rightarrow> addr \<Rightarrow> nat \<Rightarrow> nat \<Rightarrow> insn list" where
  "avx21_xor_pre dptr p z0 d = [
     MOVDQA_load (dptr ! z0) d 4, MOVDQA_load p d 2, VPXOR 4 2 2]"

definition avx21_xor_right :: "addr list \<Rightarrow> nat \<Rightarrow> nat \<Rightarrow> insn list" where
  "avx21_xor_right dptr d z = [
     VPXOR 5 5 5, VPCMPGTB 4 5 5, VPADDB 4 4 4, VPAND 0 5 5, VPXOR 5 4 4,
     MOVDQA_load (dptr ! z) d 5, VPXOR 5 2 2, VPXOR 5 4 4]"

definition avx21_xor_left :: "insn list" where
  "avx21_xor_left = [
     VPXOR 5 5 5, VPCMPGTB 4 5 5, VPADDB 4 4 4, VPAND 0 5 5, VPXOR 5 4 4]"

definition avx21_xor_post :: "addr \<Rightarrow> addr \<Rightarrow> nat \<Rightarrow> insn list" where
  "avx21_xor_post p q d = [
     VPXOR_load q d 4 4, MOVDQA_store 4 q d, MOVDQA_store 2 p d]"

definition raid6_avx21_xor_syndrome ::
    "simd \<Rightarrow> nat \<Rightarrow> nat \<Rightarrow> nat \<Rightarrow> nat \<Rightarrow> addr list \<Rightarrow> mem \<Rightarrow> mem" where
  "raid6_avx21_xor_syndrome fpu disks start stop bytes dptr m =
     (let z0 = stop; p = dptr ! (disks - 2); q = dptr ! (disks - 1);
          s = asm 32 avx21_xor_init (kernel_fpu_begin fpu m);
          s = for_step 0 bytes 32 (\<lambda>d s.
                asm 32 (avx21_xor_post p q d)
                  (for_down 0 start (\<lambda>z s. asm 32 avx21_xor_left s)
                    (for_down start z0 (\<lambda>z s. asm 32 (avx21_xor_right dptr d z) s)
                      (asm 32 (avx21_xor_pre dptr p z0 d) s)))) s;
          s = asm 32 [SFENCE] s
      in dram s)"

lemmas avx21_xor_defs =
  avx21_xor_init_def avx21_xor_pre_def avx21_xor_right_def avx21_xor_left_def avx21_xor_post_def raid6_avx2_constants_eq

interpretation avx21_xor: xor_kernel 32 "[(2, 4)]"
    avx21_xor_init avx21_xor_pre avx21_xor_right "\<lambda>_ _. []" avx21_xor_left avx21_xor_post
  by unfold_locales (auto simp: kernel_simps avx21_xor_defs)

lemma raid6_avx21_xor_syndrome_correct:
  "stripe_ok disks bytes ptrs m \<Longrightarrow> 32 dvd bytes \<Longrightarrow> wf_regs 32 fpu \<Longrightarrow>
   start \<le> stop \<Longrightarrow> stop < disks - 2 \<Longrightarrow>
   raid6_avx21_xor_syndrome fpu disks start stop bytes ptrs m =
   xor_syndrome_spec disks start stop bytes ptrs m"
  using avx21_xor.run [of disks bytes ptrs m fpu start stop] by (simp add: raid6_avx21_xor_syndrome_def Let_def)

interpretation avx2x1: raid6_xor raid6_avx21_gen_syndrome "wf_regs 32" 32 raid6_avx21_xor_syndrome
  by unfold_locales (rule raid6_avx21_gen_syndrome_correct raid6_avx21_xor_syndrome_correct; assumption)+

section \<open>Unrolled by two\<close>

definition avx22_gen_init :: "insn list" where
  "avx22_gen_init = [
     MOVDQA_imm raid6_avx2_constants 0, VPXOR 1 1 1]"

definition avx22_gen_pre :: "addr list \<Rightarrow> nat \<Rightarrow> nat \<Rightarrow> insn list" where
  "avx22_gen_pre dptr z0 d = [
     PREFETCHNTA (dptr ! z0) d, PREFETCHNTA (dptr ! z0) (d + 32),
     MOVDQA_load (dptr ! z0) d 2, MOVDQA_load (dptr ! z0) (d + 32) 3, MOVDQA 2 4,
     MOVDQA 3 6]"

definition avx22_gen_step :: "addr list \<Rightarrow> nat \<Rightarrow> nat \<Rightarrow> insn list" where
  "avx22_gen_step dptr d z = [
     PREFETCHNTA (dptr ! z) d, PREFETCHNTA (dptr ! z) (d + 32), VPCMPGTB 4 1 5,
     VPCMPGTB 6 1 7, VPADDB 4 4 4, VPADDB 6 6 6, VPAND 0 5 5, VPAND 0 7 7, VPXOR 5 4 4,
     VPXOR 7 6 6, MOVDQA_load (dptr ! z) d 5, MOVDQA_load (dptr ! z) (d + 32) 7,
     VPXOR 5 2 2, VPXOR 7 3 3, VPXOR 5 4 4, VPXOR 7 6 6]"

definition avx22_gen_post :: "addr \<Rightarrow> addr \<Rightarrow> nat \<Rightarrow> insn list" where
  "avx22_gen_post p q d = [
     MOVNTDQ 2 p d, MOVNTDQ 3 p (d + 32), MOVNTDQ 4 q d, MOVNTDQ 6 q (d + 32)]"

definition raid6_avx22_gen_syndrome ::
    "simd \<Rightarrow> nat \<Rightarrow> nat \<Rightarrow> addr list \<Rightarrow> mem \<Rightarrow> mem" where
  "raid6_avx22_gen_syndrome fpu disks bytes dptr m =
     (let z0 = disks - 3; p = dptr ! (z0 + 1); q = dptr ! (z0 + 2);
          s = asm 32 avx22_gen_init (kernel_fpu_begin fpu m);
          s = for_step 0 bytes 64 (\<lambda>d s.
                asm 32 (avx22_gen_post p q d)
                  (for_down 0 (z0) (\<lambda>z s. asm 32 (avx22_gen_step dptr d z) s)
                    (asm 32 (avx22_gen_pre dptr z0 d) s))) s;
          s = asm 32 [SFENCE] s
      in dram s)"

lemmas avx22_gen_defs =
  avx22_gen_init_def avx22_gen_pre_def avx22_gen_step_def avx22_gen_post_def raid6_avx2_constants_eq

interpretation avx22_gen: gen_kernel_load 32 "[(2, 4), (3, 6)]" "[1]" "[1]" avx22_gen_init avx22_gen_step avx22_gen_post avx22_gen_pre
  by unfold_locales (auto simp: kernel_simps avx22_gen_defs)

lemma raid6_avx22_gen_syndrome_correct:
  "stripe_ok disks bytes ptrs m \<Longrightarrow> 64 dvd bytes \<Longrightarrow> wf_regs 32 fpu \<Longrightarrow>
   raid6_avx22_gen_syndrome fpu disks bytes ptrs m = gen_syndrome_spec disks bytes ptrs m"
  using avx22_gen.run [of disks bytes ptrs m fpu] by (simp add: raid6_avx22_gen_syndrome_def Let_def)

definition avx22_xor_init :: "insn list" where
  "avx22_xor_init = [
     MOVDQA_imm raid6_avx2_constants 0]"

definition avx22_xor_pre :: "addr list \<Rightarrow> addr \<Rightarrow> nat \<Rightarrow> nat \<Rightarrow> insn list" where
  "avx22_xor_pre dptr p z0 d = [
     MOVDQA_load (dptr ! z0) d 4, MOVDQA_load (dptr ! z0) (d + 32) 6, MOVDQA_load p d 2,
     MOVDQA_load p (d + 32) 3, VPXOR 4 2 2, VPXOR 6 3 3]"

definition avx22_xor_right :: "addr list \<Rightarrow> nat \<Rightarrow> nat \<Rightarrow> insn list" where
  "avx22_xor_right dptr d z = [
     VPXOR 5 5 5, VPXOR 7 7 7, VPCMPGTB 4 5 5, VPCMPGTB 6 7 7, VPADDB 4 4 4,
     VPADDB 6 6 6, VPAND 0 5 5, VPAND 0 7 7, VPXOR 5 4 4, VPXOR 7 6 6,
     MOVDQA_load (dptr ! z) d 5, MOVDQA_load (dptr ! z) (d + 32) 7, VPXOR 5 2 2,
     VPXOR 7 3 3, VPXOR 5 4 4, VPXOR 7 6 6]"

definition avx22_xor_left :: "insn list" where
  "avx22_xor_left = [
     VPXOR 5 5 5, VPXOR 7 7 7, VPCMPGTB 4 5 5, VPCMPGTB 6 7 7, VPADDB 4 4 4,
     VPADDB 6 6 6, VPAND 0 5 5, VPAND 0 7 7, VPXOR 5 4 4, VPXOR 7 6 6]"

definition avx22_xor_post :: "addr \<Rightarrow> addr \<Rightarrow> nat \<Rightarrow> insn list" where
  "avx22_xor_post p q d = [
     VPXOR_load q d 4 4, VPXOR_load q (d + 32) 6 6, MOVDQA_store 4 q d,
     MOVDQA_store 6 q (d + 32), MOVDQA_store 2 p d, MOVDQA_store 3 p (d + 32)]"

definition raid6_avx22_xor_syndrome ::
    "simd \<Rightarrow> nat \<Rightarrow> nat \<Rightarrow> nat \<Rightarrow> nat \<Rightarrow> addr list \<Rightarrow> mem \<Rightarrow> mem" where
  "raid6_avx22_xor_syndrome fpu disks start stop bytes dptr m =
     (let z0 = stop; p = dptr ! (disks - 2); q = dptr ! (disks - 1);
          s = asm 32 avx22_xor_init (kernel_fpu_begin fpu m);
          s = for_step 0 bytes 64 (\<lambda>d s.
                asm 32 (avx22_xor_post p q d)
                  (for_down 0 start (\<lambda>z s. asm 32 avx22_xor_left s)
                    (for_down start z0 (\<lambda>z s. asm 32 (avx22_xor_right dptr d z) s)
                      (asm 32 (avx22_xor_pre dptr p z0 d) s)))) s;
          s = asm 32 [SFENCE] s
      in dram s)"

lemmas avx22_xor_defs =
  avx22_xor_init_def avx22_xor_pre_def avx22_xor_right_def avx22_xor_left_def avx22_xor_post_def raid6_avx2_constants_eq

interpretation avx22_xor: xor_kernel 32 "[(2, 4), (3, 6)]"
    avx22_xor_init avx22_xor_pre avx22_xor_right "\<lambda>_ _. []" avx22_xor_left avx22_xor_post
  by unfold_locales (auto simp: kernel_simps avx22_xor_defs)

lemma raid6_avx22_xor_syndrome_correct:
  "stripe_ok disks bytes ptrs m \<Longrightarrow> 64 dvd bytes \<Longrightarrow> wf_regs 32 fpu \<Longrightarrow>
   start \<le> stop \<Longrightarrow> stop < disks - 2 \<Longrightarrow>
   raid6_avx22_xor_syndrome fpu disks start stop bytes ptrs m =
   xor_syndrome_spec disks start stop bytes ptrs m"
  using avx22_xor.run [of disks bytes ptrs m fpu start stop] by (simp add: raid6_avx22_xor_syndrome_def Let_def)

interpretation avx2x2: raid6_xor raid6_avx22_gen_syndrome "wf_regs 32" 64 raid6_avx22_xor_syndrome
  by unfold_locales (rule raid6_avx22_gen_syndrome_correct raid6_avx22_xor_syndrome_correct; assumption)+

section \<open>Unrolled by four\<close>

definition avx24_gen_init :: "insn list" where
  "avx24_gen_init = [
     MOVDQA_imm raid6_avx2_constants 0, VPXOR 1 1 1, VPXOR 2 2 2, VPXOR 3 3 3,
     VPXOR 4 4 4, VPXOR 6 6 6, VPXOR 10 10 10, VPXOR 11 11 11, VPXOR 12 12 12,
     VPXOR 14 14 14]"

definition avx24_gen_step :: "addr list \<Rightarrow> nat \<Rightarrow> nat \<Rightarrow> insn list" where
  "avx24_gen_step dptr d z = [
     PREFETCHNTA (dptr ! z) d, PREFETCHNTA (dptr ! z) (d + 32),
     PREFETCHNTA (dptr ! z) (d + 64), PREFETCHNTA (dptr ! z) (d + 96), VPCMPGTB 4 1 5,
     VPCMPGTB 6 1 7, VPCMPGTB 12 1 13, VPCMPGTB 14 1 15, VPADDB 4 4 4, VPADDB 6 6 6,
     VPADDB 12 12 12, VPADDB 14 14 14, VPAND 0 5 5, VPAND 0 7 7, VPAND 0 13 13,
     VPAND 0 15 15, VPXOR 5 4 4, VPXOR 7 6 6, VPXOR 13 12 12, VPXOR 15 14 14,
     MOVDQA_load (dptr ! z) d 5, MOVDQA_load (dptr ! z) (d + 32) 7,
     MOVDQA_load (dptr ! z) (d + 64) 13, MOVDQA_load (dptr ! z) (d + 96) 15, VPXOR 5 2 2,
     VPXOR 7 3 3, VPXOR 13 10 10, VPXOR 15 11 11, VPXOR 5 4 4, VPXOR 7 6 6,
     VPXOR 13 12 12, VPXOR 15 14 14]"

definition avx24_gen_post :: "addr \<Rightarrow> addr \<Rightarrow> nat \<Rightarrow> insn list" where
  "avx24_gen_post p q d = [
     MOVNTDQ 2 p d, VPXOR 2 2 2, MOVNTDQ 3 p (d + 32), VPXOR 3 3 3,
     MOVNTDQ 10 p (d + 64), VPXOR 10 10 10, MOVNTDQ 11 p (d + 96), VPXOR 11 11 11,
     MOVNTDQ 4 q d, VPXOR 4 4 4, MOVNTDQ 6 q (d + 32), VPXOR 6 6 6,
     MOVNTDQ 12 q (d + 64), VPXOR 12 12 12, MOVNTDQ 14 q (d + 96), VPXOR 14 14 14]"

definition raid6_avx24_gen_syndrome ::
    "simd \<Rightarrow> nat \<Rightarrow> nat \<Rightarrow> addr list \<Rightarrow> mem \<Rightarrow> mem" where
  "raid6_avx24_gen_syndrome fpu disks bytes dptr m =
     (let z0 = disks - 3; p = dptr ! (z0 + 1); q = dptr ! (z0 + 2);
          s = asm 32 avx24_gen_init (kernel_fpu_begin fpu m);
          s = for_step 0 bytes 128 (\<lambda>d s.
                asm 32 (avx24_gen_post p q d)
                  (for_down 0 (z0 + 1) (\<lambda>z s. asm 32 (avx24_gen_step dptr d z) s)
                    s)) s;
          s = asm 32 [SFENCE] s
      in dram s)"

lemmas avx24_gen_defs =
  avx24_gen_init_def avx24_gen_step_def avx24_gen_post_def raid6_avx2_constants_eq

interpretation avx24_gen: gen_kernel_zero 32 "[(2, 4), (3, 6), (10, 12), (11, 14)]"
    "[1, 2, 3, 4, 6, 10, 11, 12, 14]" "[1]" avx24_gen_init avx24_gen_step avx24_gen_post
  by unfold_locales (auto simp: kernel_simps avx24_gen_defs)

lemma raid6_avx24_gen_syndrome_correct:
  "stripe_ok disks bytes ptrs m \<Longrightarrow> 128 dvd bytes \<Longrightarrow> wf_regs 32 fpu \<Longrightarrow>
   raid6_avx24_gen_syndrome fpu disks bytes ptrs m = gen_syndrome_spec disks bytes ptrs m"
  using avx24_gen.run [of disks bytes ptrs m fpu] by (simp add: raid6_avx24_gen_syndrome_def Let_def)

definition avx24_xor_init :: "insn list" where
  "avx24_xor_init = [
     MOVDQA_imm raid6_avx2_constants 0]"

definition avx24_xor_pre :: "addr list \<Rightarrow> addr \<Rightarrow> nat \<Rightarrow> nat \<Rightarrow> insn list" where
  "avx24_xor_pre dptr p z0 d = [
     MOVDQA_load (dptr ! z0) d 4, MOVDQA_load (dptr ! z0) (d + 32) 6,
     MOVDQA_load (dptr ! z0) (d + 64) 12, MOVDQA_load (dptr ! z0) (d + 96) 14,
     MOVDQA_load p d 2, MOVDQA_load p (d + 32) 3, MOVDQA_load p (d + 64) 10,
     MOVDQA_load p (d + 96) 11, VPXOR 4 2 2, VPXOR 6 3 3, VPXOR 12 10 10, VPXOR 14 11 11]"

definition avx24_xor_right :: "addr list \<Rightarrow> nat \<Rightarrow> nat \<Rightarrow> insn list" where
  "avx24_xor_right dptr d z = [
     PREFETCHNTA (dptr ! z) d, PREFETCHNTA (dptr ! z) (d + 64), VPXOR 5 5 5, VPXOR 7 7 7,
     VPXOR 13 13 13, VPXOR 15 15 15, VPCMPGTB 4 5 5, VPCMPGTB 6 7 7, VPCMPGTB 12 13 13,
     VPCMPGTB 14 15 15, VPADDB 4 4 4, VPADDB 6 6 6, VPADDB 12 12 12, VPADDB 14 14 14,
     VPAND 0 5 5, VPAND 0 7 7, VPAND 0 13 13, VPAND 0 15 15, VPXOR 5 4 4, VPXOR 7 6 6,
     VPXOR 13 12 12, VPXOR 15 14 14, MOVDQA_load (dptr ! z) d 5,
     MOVDQA_load (dptr ! z) (d + 32) 7, MOVDQA_load (dptr ! z) (d + 64) 13,
     MOVDQA_load (dptr ! z) (d + 96) 15, VPXOR 5 2 2, VPXOR 7 3 3, VPXOR 13 10 10,
     VPXOR 15 11 11, VPXOR 5 4 4, VPXOR 7 6 6, VPXOR 13 12 12, VPXOR 15 14 14]"

definition avx24_xor_mid :: "addr \<Rightarrow> nat \<Rightarrow> insn list" where
  "avx24_xor_mid q d = [
     PREFETCHNTA q d, PREFETCHNTA q (d + 64)]"

definition avx24_xor_left :: "insn list" where
  "avx24_xor_left = [
     VPXOR 5 5 5, VPXOR 7 7 7, VPXOR 13 13 13, VPXOR 15 15 15, VPCMPGTB 4 5 5,
     VPCMPGTB 6 7 7, VPCMPGTB 12 13 13, VPCMPGTB 14 15 15, VPADDB 4 4 4, VPADDB 6 6 6,
     VPADDB 12 12 12, VPADDB 14 14 14, VPAND 0 5 5, VPAND 0 7 7, VPAND 0 13 13,
     VPAND 0 15 15, VPXOR 5 4 4, VPXOR 7 6 6, VPXOR 13 12 12, VPXOR 15 14 14]"

definition avx24_xor_post :: "addr \<Rightarrow> addr \<Rightarrow> nat \<Rightarrow> insn list" where
  "avx24_xor_post p q d = [
     MOVNTDQ 2 p d, MOVNTDQ 3 p (d + 32), MOVNTDQ 10 p (d + 64), MOVNTDQ 11 p (d + 96),
     VPXOR_load q d 4 4, VPXOR_load q (d + 32) 6 6, VPXOR_load q (d + 64) 12 12,
     VPXOR_load q (d + 96) 14 14, MOVNTDQ 4 q d, MOVNTDQ 6 q (d + 32),
     MOVNTDQ 12 q (d + 64), MOVNTDQ 14 q (d + 96)]"

definition raid6_avx24_xor_syndrome ::
    "simd \<Rightarrow> nat \<Rightarrow> nat \<Rightarrow> nat \<Rightarrow> nat \<Rightarrow> addr list \<Rightarrow> mem \<Rightarrow> mem" where
  "raid6_avx24_xor_syndrome fpu disks start stop bytes dptr m =
     (let z0 = stop; p = dptr ! (disks - 2); q = dptr ! (disks - 1);
          s = asm 32 avx24_xor_init (kernel_fpu_begin fpu m);
          s = for_step 0 bytes 128 (\<lambda>d s.
                asm 32 (avx24_xor_post p q d)
                  (for_down 0 start (\<lambda>z s. asm 32 avx24_xor_left s)
                    (asm 32 (avx24_xor_mid q d)
                    (for_down start z0 (\<lambda>z s. asm 32 (avx24_xor_right dptr d z) s)
                      (asm 32 (avx24_xor_pre dptr p z0 d) s))))) s;
          s = asm 32 [SFENCE] s
      in dram s)"

lemmas avx24_xor_defs =
  avx24_xor_init_def avx24_xor_pre_def avx24_xor_right_def avx24_xor_mid_def avx24_xor_left_def avx24_xor_post_def raid6_avx2_constants_eq

interpretation avx24_xor: xor_kernel 32 "[(2, 4), (3, 6), (10, 12), (11, 14)]"
    avx24_xor_init avx24_xor_pre avx24_xor_right avx24_xor_mid avx24_xor_left avx24_xor_post
  by unfold_locales (auto simp: kernel_simps avx24_xor_defs)

lemma raid6_avx24_xor_syndrome_correct:
  "stripe_ok disks bytes ptrs m \<Longrightarrow> 128 dvd bytes \<Longrightarrow> wf_regs 32 fpu \<Longrightarrow>
   start \<le> stop \<Longrightarrow> stop < disks - 2 \<Longrightarrow>
   raid6_avx24_xor_syndrome fpu disks start stop bytes ptrs m =
   xor_syndrome_spec disks start stop bytes ptrs m"
  using avx24_xor.run [of disks bytes ptrs m fpu start stop] by (simp add: raid6_avx24_xor_syndrome_def Let_def)

interpretation avx2x4: raid6_xor raid6_avx24_gen_syndrome "wf_regs 32" 128 raid6_avx24_xor_syndrome
  by unfold_locales (rule raid6_avx24_gen_syndrome_correct raid6_avx24_xor_syndrome_correct; assumption)+

end
