(* ===== verification/Raid6_AVX512.thy ===== *)
theory Raid6_AVX512
  imports Simd_Kernel
begin

text \<open>
  The AVX-512 kernels of \<^verbatim>\<open>raid6/avx512.c\<close>: instruction by instruction, one list per group of
  \<^verbatim>\<open>asm volatile\<close> statements, with the loops of the C functions around them.
  Q is updated by a single ternary-logic instruction instead of two exclusive ors.
\<close>

definition raid6_avx512_constants :: "u8 list" where
  "raid6_avx512_constants = concat (map le_bytes
     [0x1d1d1d1d1d1d1d1d, 0x1d1d1d1d1d1d1d1d,
      0x1d1d1d1d1d1d1d1d, 0x1d1d1d1d1d1d1d1d,
      0x1d1d1d1d1d1d1d1d, 0x1d1d1d1d1d1d1d1d,
      0x1d1d1d1d1d1d1d1d, 0x1d1d1d1d1d1d1d1d])"

lemma raid6_avx512_constants_eq: "raid6_avx512_constants = replicate 64 0x1d"
  by (simp add: raid6_avx512_constants_def le_bytes_x1d flip: replicate_add)

section \<open>Plain AVX-512\<close>

definition avx5121_gen_init :: "insn list" where
  "avx5121_gen_init = [
     MOVDQA_imm raid6_avx512_constants 0, VPXOR 1 1 1]"

definition avx5121_gen_pre :: "addr list \<Rightarrow> nat \<Rightarrow> nat \<Rightarrow> insn list" where
  "avx5121_gen_pre dptr z0 d = [
     PREFETCHNTA (dptr ! z0) d, MOVDQA_load (dptr ! z0) d 2,
     PREFETCHNTA (dptr ! (z0 - 1)) d, MOVDQA 2 4, MOVDQA_load (dptr ! (z0 - 1)) d 6]"

definition avx5121_gen_step :: "addr list \<Rightarrow> nat \<Rightarrow> nat \<Rightarrow> insn list" where
  "avx5121_gen_step dptr d z = [
     PREFETCHNTA (dptr ! z) d, VPCMPGTB_k 4 1 1, VPMOVM2B 1 5, VPADDB 4 4 4, VPAND 0 5 5,
     VPTERNLOGQ 0x96 5 6 4, VPXOR 6 2 2, MOVDQA_load (dptr ! z) d 6]"

definition avx5121_gen_post :: "addr \<Rightarrow> addr \<Rightarrow> nat \<Rightarrow> insn list" where
  "avx5121_gen_post p q d = [
     VPCMPGTB_k 4 1 1, VPMOVM2B 1 5, VPADDB 4 4 4, VPAND 0 5 5, VPTERNLOGQ 0x96 5 6 4,
     VPXOR 6 2 2, MOVNTDQ 2 p d, VPXOR 2 2 2, MOVNTDQ 4 q d, VPXOR 4 4 4]"

definition raid6_avx5121_gen_syndrome ::
    "simd \<Rightarrow> nat \<Rightarrow> nat \<Rightarrow> addr list \<Rightarrow> mem \<Rightarrow> mem" where
  "raid6_avx5121_gen_syndrome fpu disks bytes dptr m =
     (let z0 = disks - 3; p = dptr ! (z0 + 1); q = dptr ! (z0 + 2);
          s = asm 64 avx5121_gen_init (kernel_fpu_begin fpu m);
          s = for_step 0 bytes 64 (\<lambda>d s.
                asm 64 (avx5121_gen_post p q d)
                  (for_down 0 (z0 - 1) (\<lambda>z s. asm 64 (avx5121_gen_step dptr d z) s)
                    (asm 64 (avx5121_gen_pre dptr z0 d) s))) s;
          s = asm 64 [SFENCE] s
      in dram s)"

lemmas avx5121_gen_defs =
  avx5121_gen_init_def avx5121_gen_pre_def avx5121_gen_step_def avx5121_gen_post_def raid6_avx512_constants_eq

interpretation avx5121_gen: gen_kernel_pipe 64 2 4 6 "[1]" avx5121_gen_init avx5121_gen_pre avx5121_gen_step avx5121_gen_post
  by unfold_locales (auto simp: kernel_simps avx5121_gen_defs)

lemma raid6_avx5121_gen_syndrome_correct:
  "stripe_ok disks bytes ptrs m \<Longrightarrow> 64 dvd bytes \<Longrightarrow> wf_regs 64 fpu \<Longrightarrow>
   raid6_avx5121_gen_syndrome fpu disks bytes ptrs m = gen_syndrome_spec disks bytes ptrs m"
  using avx5121_gen.run [of disks bytes ptrs m fpu] by (simp add: raid6_avx5121_gen_syndrome_def Let_def)

definition avx5121_xor_init :: "insn list" where
  "avx5121_xor_init = [
     MOVDQA_imm raid6_avx512_constants 0]"

definition avx5121_xor_pre :: "addr list \<Rightarrow> addr \<Rightarrow> nat \<Rightarrow> nat \<Rightarrow> insn list" where
  "avx5121_xor_pre dptr p z0 d = [
     MOVDQA_load (dptr ! z0) d 4, MOVDQA_load p d 2, VPXOR 4 2 2]"

definition avx5121_xor_right :: "addr list \<Rightarrow> nat \<Rightarrow> nat \<Rightarrow> insn list" where
  "avx5121_xor_right dptr d z = [
     VPXOR 5 5 5, VPCMPGTB_k 4 5 1, VPMOVM2B 1 5, VPADDB 4 4 4, VPAND 0 5 5,
     MOVDQA_load (dptr ! z) d 6, VPXOR 6 2 2, VPTERNLOGQ 0x96 5 6 4]"

definition avx5121_xor_left :: "insn list" where
  "avx5121_xor_left = [
     VPXOR 5 5 5, VPCMPGTB_k 4 5 1, VPMOVM2B 1 5, VPADDB 4 4 4, VPAND 0 5 5, VPXOR 5 4 4]"

definition avx5121_xor_post :: "addr \<Rightarrow> addr \<Rightarrow> nat \<Rightarrow> insn list" where
  "avx5121_xor_post p q d = [
     VPXOR_load q d 4 4, MOVDQA_store 4 q d, MOVDQA_store 2 p d]"

definition raid6_avx5121_xor_syndrome ::
    "simd \<Rightarrow> nat \<Rightarrow> nat \<Rightarrow> nat \<Rightarrow> nat \<Rightarrow> addr list \<Rightarrow> mem \<Rightarrow> mem" where
  "raid6_avx5121_xor_syndrome fpu disks start stop bytes dptr m =
     (let z0 = stop; p = dptr ! (disks - 2); q = dptr ! (disks - 1);
          s = asm 64 avx5121_xor_init (kernel_fpu_begin fpu m);
          s = for_step 0 bytes 64 (\<lambda>d s.
                asm 64 (avx5121_xor_post p q d)
                  (for_down 0 start (\<lambda>z s. asm 64 avx5121_xor_left s)
                    (for_down start z0 (\<lambda>z s. asm 64 (avx5121_xor_right dptr d z) s)
                      (asm 64 (avx5121_xor_pre dptr p z0 d) s)))) s;
          s = asm 64 [SFENCE] s
      in dram s)"

lemmas avx5121_xor_defs =
  avx5121_xor_init_def avx5121_xor_pre_def avx5121_xor_right_def avx5121_xor_left_def avx5121_xor_post_def raid6_avx512_constants_eq

interpretation avx5121_xor: xor_kernel 64 "[(2, 4)]"
    avx5121_xor_init avx5121_xor_pre avx5121_xor_right "\<lambda>_ _. []" avx5121_xor_left avx5121_xor_post
  by unfold_locales (auto simp: kernel_simps avx5121_xor_defs)

lemma raid6_avx5121_xor_syndrome_correct:
  "stripe_ok disks bytes ptrs m \<Longrightarrow> 64 dvd bytes \<Longrightarrow> wf_regs 64 fpu \<Longrightarrow>
   start \<le> stop \<Longrightarrow> stop < disks - 2 \<Longrightarrow>
   raid6_avx5121_xor_syndrome fpu disks start stop bytes ptrs m =
   xor_syndrome_spec disks start stop bytes ptrs m"
  using avx5121_xor.run [of disks bytes ptrs m fpu start stop] by (simp add: raid6_avx5121_xor_syndrome_def Let_def)

interpretation avx512x1: raid6_xor raid6_avx5121_gen_syndrome "wf_regs 64" 64 raid6_avx5121_xor_syndrome
  by unfold_locales (rule raid6_avx5121_gen_syndrome_correct raid6_avx5121_xor_syndrome_correct; assumption)+

section \<open>Unrolled by two\<close>

definition avx5122_gen_init :: "insn list" where
  "avx5122_gen_init = [
     MOVDQA_imm raid6_avx512_constants 0, VPXOR 1 1 1]"

definition avx5122_gen_pre :: "addr list \<Rightarrow> nat \<Rightarrow> nat \<Rightarrow> insn list" where
  "avx5122_gen_pre dptr z0 d = [
     PREFETCHNTA (dptr ! z0) d, PREFETCHNTA (dptr ! z0) (d + 64),
     MOVDQA_load (dptr ! z0) d 2, MOVDQA_load (dptr ! z0) (d + 64) 3, MOVDQA 2 4,
     MOVDQA 3 6]"

definition avx5122_gen_step :: "addr list \<Rightarrow> nat \<Rightarrow> nat \<Rightarrow> insn list" where
  "avx5122_gen_step dptr d z = [
     PREFETCHNTA (dptr ! z) d, PREFETCHNTA (dptr ! z) (d + 64), VPCMPGTB_k 4 1 1,
     VPCMPGTB_k 6 1 2, VPMOVM2B 1 5, VPMOVM2B 2 7, VPADDB 4 4 4, VPADDB 6 6 6,
     VPAND 0 5 5, VPAND 0 7 7, MOVDQA_load (dptr ! z) d 8,
     MOVDQA_load (dptr ! z) (d + 64) 9, VPTERNLOGQ 0x96 5 8 4, VPTERNLOGQ 0x96 7 9 6,
     VPXOR 8 2 2, VPXOR 9 3 3]"

definition avx5122_gen_post :: "addr \<Rightarrow> addr \<Rightarrow> nat \<Rightarrow> insn list" where
  "avx5122_gen_post p q d = [
     MOVNTDQ 2 p d, MOVNTDQ 3 p (d + 64), MOVNTDQ 4 q d, MOVNTDQ 6 q (d + 64)]"

definition raid6_avx5122_gen_syndrome ::
    "simd \<Rightarrow> nat \<Rightarrow> nat \<Rightarrow> addr list \<Rightarrow> mem \<Rightarrow> mem" where
  "raid6_avx5122_gen_syndrome fpu disks bytes dptr m =
     (let z0 = disks - 3; p = dptr ! (z0 + 1); q = dptr ! (z0 + 2);
          s = asm 64 avx5122_gen_init (kernel_fpu_begin fpu m);
          s = for_step 0 bytes 128 (\<lambda>d s.
                asm 64 (avx5122_gen_post p q d)
                  (for_down 0 (z0) (\<lambda>z s. asm 64 (avx5122_gen_step dptr d z) s)
                    (asm 64 (avx5122_gen_pre dptr z0 d) s))) s;
          s = asm 64 [SFENCE] s
      in dram s)"

lemmas avx5122_gen_defs =
  avx5122_gen_init_def avx5122_gen_pre_def avx5122_gen_step_def avx5122_gen_post_def raid6_avx512_constants_eq

interpretation avx5122_gen: gen_kernel_load 64 "[(2, 4), (3, 6)]" "[1]" "[1]" avx5122_gen_init avx5122_gen_step avx5122_gen_post avx5122_gen_pre
  by unfold_locales (auto simp: kernel_simps avx5122_gen_defs)

lemma raid6_avx5122_gen_syndrome_correct:
  "stripe_ok disks bytes ptrs m \<Longrightarrow> 128 dvd bytes \<Longrightarrow> wf_regs 64 fpu \<Longrightarrow>
   raid6_avx5122_gen_syndrome fpu disks bytes ptrs m = gen_syndrome_spec disks bytes ptrs m"
  using avx5122_gen.run [of disks bytes ptrs m fpu] by (simp add: raid6_avx5122_gen_syndrome_def Let_def)

definition avx5122_xor_init :: "insn list" where
  "avx5122_xor_init = [
     MOVDQA_imm raid6_avx512_constants 0]"

definition avx5122_xor_pre :: "addr list \<Rightarrow> addr \<Rightarrow> nat \<Rightarrow> nat \<Rightarrow> insn list" where
  "avx5122_xor_pre dptr p z0 d = [
     MOVDQA_load (dptr ! z0) d 4, MOVDQA_load (dptr ! z0) (d + 64) 6, MOVDQA_load p d 2,
     MOVDQA_load p (d + 64) 3, VPXOR 4 2 2, VPXOR 6 3 3]"

definition avx5122_xor_right :: "addr list \<Rightarrow> nat \<Rightarrow> nat \<Rightarrow> insn list" where
  "avx5122_xor_right dptr d z = [
     VPXOR 5 5 5, VPXOR 7 7 7, VPCMPGTB_k 4 5 1, VPCMPGTB_k 6 7 2, VPMOVM2B 1 5,
     VPMOVM2B 2 7, VPADDB 4 4 4, VPADDB 6 6 6, VPAND 0 5 5, VPAND 0 7 7,
     MOVDQA_load (dptr ! z) d 8, MOVDQA_load (dptr ! z) (d + 64) 9, VPXOR 8 2 2,
     VPXOR 9 3 3, VPTERNLOGQ 0x96 5 8 4, VPTERNLOGQ 0x96 7 9 6]"

definition avx5122_xor_left :: "insn list" where
  "avx5122_xor_left = [
     VPXOR 5 5 5, VPXOR 7 7 7, VPCMPGTB_k 4 5 1, VPCMPGTB_k 6 7 2, VPMOVM2B 1 5,
     VPMOVM2B 2 7, VPADDB 4 4 4, VPADDB 6 6 6, VPAND 0 5 5, VPAND 0 7 7, VPXOR 5 4 4,
     VPXOR 7 6 6]"

definition avx5122_xor_post :: "addr \<Rightarrow> addr \<Rightarrow> nat \<Rightarrow> insn list" where
  "avx5122_xor_post p q d = [
     VPXOR_load q d 4 4, VPXOR_load q (d + 64) 6 6, MOVDQA_store 4 q d,
     MOVDQA_store 6 q (d + 64), MOVDQA_store 2 p d, MOVDQA_store 3 p (d + 64)]"

definition raid6_avx5122_xor_syndrome ::
    "simd \<Rightarrow> nat \<Rightarrow> nat \<Rightarrow> nat \<Rightarrow> nat \<Rightarrow> addr list \<Rightarrow> mem \<Rightarrow> mem" where
  "raid6_avx5122_xor_syndrome fpu disks start stop bytes dptr m =
     (let z0 = stop; p = dptr ! (disks - 2); q = dptr ! (disks - 1);
          s = asm 64 avx5122_xor_init (kernel_fpu_begin fpu m);
          s = for_step 0 bytes 128 (\<lambda>d s.
                asm 64 (avx5122_xor_post p q d)
                  (for_down 0 start (\<lambda>z s. asm 64 avx5122_xor_left s)
                    (for_down start z0 (\<lambda>z s. asm 64 (avx5122_xor_right dptr d z) s)
                      (asm 64 (avx5122_xor_pre dptr p z0 d) s)))) s;
          s = asm 64 [SFENCE] s
      in dram s)"

lemmas avx5122_xor_defs =
  avx5122_xor_init_def avx5122_xor_pre_def avx5122_xor_right_def avx5122_xor_left_def avx5122_xor_post_def raid6_avx512_constants_eq

interpretation avx5122_xor: xor_kernel 64 "[(2, 4), (3, 6)]"
    avx5122_xor_init avx5122_xor_pre avx5122_xor_right "\<lambda>_ _. []" avx5122_xor_left avx5122_xor_post
  by unfold_locales (auto simp: kernel_simps avx5122_xor_defs)

lemma raid6_avx5122_xor_syndrome_correct:
  "stripe_ok disks bytes ptrs m \<Longrightarrow> 128 dvd bytes \<Longrightarrow> wf_regs 64 fpu \<Longrightarrow>
   start \<le> stop \<Longrightarrow> stop < disks - 2 \<Longrightarrow>
   raid6_avx5122_xor_syndrome fpu disks start stop bytes ptrs m =
   xor_syndrome_spec disks start stop bytes ptrs m"
  using avx5122_xor.run [of disks bytes ptrs m fpu start stop] by (simp add: raid6_avx5122_xor_syndrome_def Let_def)

interpretation avx512x2: raid6_xor raid6_avx5122_gen_syndrome "wf_regs 64" 128 raid6_avx5122_xor_syndrome
  by unfold_locales (rule raid6_avx5122_gen_syndrome_correct raid6_avx5122_xor_syndrome_correct; assumption)+

section \<open>Unrolled by four\<close>

definition avx5124_gen_init :: "insn list" where
  "avx5124_gen_init = [
     MOVDQA_imm raid6_avx512_constants 0, VPXOR 1 1 1, VPXOR 2 2 2, VPXOR 3 3 3,
     VPXOR 4 4 4, VPXOR 6 6 6, VPXOR 10 10 10, VPXOR 11 11 11, VPXOR 12 12 12,
     VPXOR 14 14 14]"

definition avx5124_gen_step :: "addr list \<Rightarrow> nat \<Rightarrow> nat \<Rightarrow> insn list" where
  "avx5124_gen_step dptr d z = [
     PREFETCHNTA (dptr ! z) d, PREFETCHNTA (dptr ! z) (d + 64),
     PREFETCHNTA (dptr ! z) (d + 128), PREFETCHNTA (dptr ! z) (d + 192),
     VPCMPGTB_k 4 1 1, VPCMPGTB_k 6 1 2, VPCMPGTB_k 12 1 3, VPCMPGTB_k 14 1 4,
     VPMOVM2B 1 5, VPMOVM2B 2 7, VPMOVM2B 3 13, VPMOVM2B 4 15, VPADDB 4 4 4,
     VPADDB 6 6 6, VPADDB 12 12 12, VPADDB 14 14 14, VPAND 0 5 5, VPAND 0 7 7,
     VPAND 0 13 13, VPAND 0 15 15, MOVDQA_load (dptr ! z) d 8,
     MOVDQA_load (dptr ! z) (d + 64) 9, MOVDQA_load (dptr ! z) (d + 128) 16,
     MOVDQA_load (dptr ! z) (d + 192) 17, VPTERNLOGQ 0x96 5 8 4, VPTERNLOGQ 0x96 7 9 6,
     VPTERNLOGQ 0x96 13 16 12, VPTERNLOGQ 0x96 15 17 14, VPXOR 8 2 2, VPXOR 9 3 3,
     VPXOR 16 10 10, VPXOR 17 11 11]"

definition avx5124_gen_post :: "addr \<Rightarrow> addr \<Rightarrow> nat \<Rightarrow> insn list" where
  "avx5124_gen_post p q d = [
     MOVNTDQ 2 p d, VPXOR 2 2 2, MOVNTDQ 3 p (d + 64), VPXOR 3 3 3,
     MOVNTDQ 10 p (d + 128), VPXOR 10 10 10, MOVNTDQ 11 p (d + 192), VPXOR 11 11 11,
     MOVNTDQ 4 q d, VPXOR 4 4 4, MOVNTDQ 6 q (d + 64), VPXOR 6 6 6,
     MOVNTDQ 12 q (d + 128), VPXOR 12 12 12, MOVNTDQ 14 q (d + 192), VPXOR 14 14 14]"

definition raid6_avx5124_gen_syndrome ::
    "simd \<Rightarrow> nat \<Rightarrow> nat \<Rightarrow> addr list \<Rightarrow> mem \<Rightarrow> mem" where
  "raid6_avx5124_gen_syndrome fpu disks bytes dptr m =
     (let z0 = disks - 3; p = dptr ! (z0 + 1); q = dptr ! (z0 + 2);
          s = asm 64 avx5124_gen_init (kernel_fpu_begin fpu m);
          s = for_step 0 bytes 256 (\<lambda>d s.
                asm 64 (avx5124_gen_post p q d)
                  (for_down 0 (z0 + 1) (\<lambda>z s. asm 64 (avx5124_gen_step dptr d z) s)
                    s)) s;
          s = asm 64 [SFENCE] s
      in dram s)"

lemmas avx5124_gen_defs =
  avx5124_gen_init_def avx5124_gen_step_def avx5124_gen_post_def raid6_avx512_constants_eq

interpretation avx5124_gen: gen_kernel_zero 64 "[(2, 4), (3, 6), (10, 12), (11, 14)]"
    "[1, 2, 3, 4, 6, 10, 11, 12, 14]" "[1]" avx5124_gen_init avx5124_gen_step avx5124_gen_post
  by unfold_locales (auto simp: kernel_simps avx5124_gen_defs)

lemma raid6_avx5124_gen_syndrome_correct:
  "stripe_ok disks bytes ptrs m \<Longrightarrow> 256 dvd bytes \<Longrightarrow> wf_regs 64 fpu \<Longrightarrow>
   raid6_avx5124_gen_syndrome fpu disks bytes ptrs m = gen_syndrome_spec disks bytes ptrs m"
  using avx5124_gen.run [of disks bytes ptrs m fpu] by (simp add: raid6_avx5124_gen_syndrome_def Let_def)

definition avx5124_xor_init :: "insn list" where
  "avx5124_xor_init = [
     MOVDQA_imm raid6_avx512_constants 0]"

definition avx5124_xor_pre :: "addr list \<Rightarrow> addr \<Rightarrow> nat \<Rightarrow> nat \<Rightarrow> insn list" where
  "avx5124_xor_pre dptr p z0 d = [
     MOVDQA_load (dptr ! z0) d 4, MOVDQA_load (dptr ! z0) (d + 64) 6,
     MOVDQA_load (dptr ! z0) (d + 128) 12, MOVDQA_load (dptr ! z0) (d + 192) 14,
     MOVDQA_load p d 2, MOVDQA_load p (d + 64) 3, MOVDQA_load p (d + 128) 10,
     MOVDQA_load p (d + 192) 11, VPXOR 4 2 2, VPXOR 6 3 3, VPXOR 12 10 10, VPXOR 14 11 11]"

definition avx5124_xor_right :: "addr list \<Rightarrow> nat \<Rightarrow> nat \<Rightarrow> insn list" where
  "avx5124_xor_right dptr d z = [
     VPXOR 5 5 5, VPXOR 7 7 7, VPXOR 13 13 13, VPXOR 15 15 15, PREFETCHNTA (dptr ! z) d,
     PREFETCHNTA (dptr ! z) (d + 128), VPCMPGTB_k 4 5 1, VPCMPGTB_k 6 7 2,
     VPCMPGTB_k 12 13 3, VPCMPGTB_k 14 15 4, VPMOVM2B 1 5, VPMOVM2B 2 7, VPMOVM2B 3 13,
     VPMOVM2B 4 15, VPADDB 4 4 4, VPADDB 6 6 6, VPADDB 12 12 12, VPADDB 14 14 14,
     VPAND 0 5 5, VPAND 0 7 7, VPAND 0 13 13, VPAND 0 15 15, MOVDQA_load (dptr ! z) d 8,
     MOVDQA_load (dptr ! z) (d + 64) 9, MOVDQA_load (dptr ! z) (d + 128) 16,
     MOVDQA_load (dptr ! z) (d + 192) 17, VPXOR 8 2 2, VPXOR 9 3 3, VPXOR 16 10 10,
     VPXOR 17 11 11, VPTERNLOGQ 0x96 5 8 4, VPTERNLOGQ 0x96 7 9 6,
     VPTERNLOGQ 0x96 13 16 12, VPTERNLOGQ 0x96 15 17 14]"

definition avx5124_xor_mid :: "addr \<Rightarrow> nat \<Rightarrow> insn list" where
  "avx5124_xor_mid q d = [
     PREFETCHNTA q d, PREFETCHNTA q (d + 128)]"

definition avx5124_xor_left :: "insn list" where
  "avx5124_xor_left = [
     VPXOR 5 5 5, VPXOR 7 7 7, VPXOR 13 13 13, VPXOR 15 15 15, VPCMPGTB_k 4 5 1,
     VPCMPGTB_k 6 7 2, VPCMPGTB_k 12 13 3, VPCMPGTB_k 14 15 4, VPMOVM2B 1 5,
     VPMOVM2B 2 7, VPMOVM2B 3 13, VPMOVM2B 4 15, VPADDB 4 4 4, VPADDB 6 6 6,
     VPADDB 12 12 12, VPADDB 14 14 14, VPAND 0 5 5, VPAND 0 7 7, VPAND 0 13 13,
     VPAND 0 15 15, VPXOR 5 4 4, VPXOR 7 6 6, VPXOR 13 12 12, VPXOR 15 14 14]"

definition avx5124_xor_post :: "addr \<Rightarrow> addr \<Rightarrow> nat \<Rightarrow> insn list" where
  "avx5124_xor_post p q d = [
     MOVNTDQ 2 p d, MOVNTDQ 3 p (d + 64), MOVNTDQ 10 p (d + 128), MOVNTDQ 11 p (d + 192),
     VPXOR_load q d 4 4, VPXOR_load q (d + 64) 6 6, VPXOR_load q (d + 128) 12 12,
     VPXOR_load q (d + 192) 14 14, MOVNTDQ 4 q d, MOVNTDQ 6 q (d + 64),
     MOVNTDQ 12 q (d + 128), MOVNTDQ 14 q (d + 192)]"

definition raid6_avx5124_xor_syndrome ::
    "simd \<Rightarrow> nat \<Rightarrow> nat \<Rightarrow> nat \<Rightarrow> nat \<Rightarrow> addr list \<Rightarrow> mem \<Rightarrow> mem" where
  "raid6_avx5124_xor_syndrome fpu disks start stop bytes dptr m =
     (let z0 = stop; p = dptr ! (disks - 2); q = dptr ! (disks - 1);
          s = asm 64 avx5124_xor_init (kernel_fpu_begin fpu m);
          s = for_step 0 bytes 256 (\<lambda>d s.
                asm 64 (avx5124_xor_post p q d)
                  (for_down 0 start (\<lambda>z s. asm 64 avx5124_xor_left s)
                    (asm 64 (avx5124_xor_mid q d)
                    (for_down start z0 (\<lambda>z s. asm 64 (avx5124_xor_right dptr d z) s)
                      (asm 64 (avx5124_xor_pre dptr p z0 d) s))))) s;
          s = asm 64 [SFENCE] s
      in dram s)"

lemmas avx5124_xor_defs =
  avx5124_xor_init_def avx5124_xor_pre_def avx5124_xor_right_def avx5124_xor_mid_def avx5124_xor_left_def avx5124_xor_post_def raid6_avx512_constants_eq

interpretation avx5124_xor: xor_kernel 64 "[(2, 4), (3, 6), (10, 12), (11, 14)]"
    avx5124_xor_init avx5124_xor_pre avx5124_xor_right avx5124_xor_mid avx5124_xor_left avx5124_xor_post
  by unfold_locales (auto simp: kernel_simps avx5124_xor_defs)

lemma raid6_avx5124_xor_syndrome_correct:
  "stripe_ok disks bytes ptrs m \<Longrightarrow> 256 dvd bytes \<Longrightarrow> wf_regs 64 fpu \<Longrightarrow>
   start \<le> stop \<Longrightarrow> stop < disks - 2 \<Longrightarrow>
   raid6_avx5124_xor_syndrome fpu disks start stop bytes ptrs m =
   xor_syndrome_spec disks start stop bytes ptrs m"
  using avx5124_xor.run [of disks bytes ptrs m fpu start stop] by (simp add: raid6_avx5124_xor_syndrome_def Let_def)

interpretation avx512x4: raid6_xor raid6_avx5124_gen_syndrome "wf_regs 64" 256 raid6_avx5124_xor_syndrome
  by unfold_locales (rule raid6_avx5124_gen_syndrome_correct raid6_avx5124_xor_syndrome_correct; assumption)+

end
