(* ===== verification/Raid6_MMX.thy ===== *)
theory Raid6_MMX
  imports Simd_Kernel
begin

text \<open>
  The MMX kernels of \<^verbatim>\<open>raid6/mmx.c\<close>: instruction by instruction, one list per group of
  \<^verbatim>\<open>asm volatile\<close> statements, with the loops of the C functions around them.
\<close>

definition raid6_mmx_constants :: "u8 list" where
  "raid6_mmx_constants = le_bytes 0x1d1d1d1d1d1d1d1d"

lemma raid6_mmx_constants_eq: "raid6_mmx_constants = replicate 8 0x1d"
  by (simp add: raid6_mmx_constants_def le_bytes_x1d)

section \<open>Plain MMX\<close>

definition mmx1_gen_init :: "insn list" where
  "mmx1_gen_init = [
     MOVDQA_imm raid6_mmx_constants 0, PXOR 5 5]"

definition mmx1_gen_pre :: "addr list \<Rightarrow> nat \<Rightarrow> nat \<Rightarrow> insn list" where
  "mmx1_gen_pre dptr z0 d = [
     MOVDQA_load (dptr ! z0) d 2, MOVDQA 2 4]"

definition mmx1_gen_step :: "addr list \<Rightarrow> nat \<Rightarrow> nat \<Rightarrow> insn list" where
  "mmx1_gen_step dptr d z = [
     MOVDQA_load (dptr ! z) d 6, PCMPGTB 4 5, PADDB 4 4, PAND 0 5, PXOR 5 4, PXOR 5 5,
     PXOR 6 2, PXOR 6 4]"

definition mmx1_gen_post :: "addr \<Rightarrow> addr \<Rightarrow> nat \<Rightarrow> insn list" where
  "mmx1_gen_post p q d = [
     MOVDQA_store 2 p d, PXOR 2 2, MOVDQA_store 4 q d, PXOR 4 4]"

definition raid6_mmx1_gen_syndrome ::
    "simd \<Rightarrow> nat \<Rightarrow> nat \<Rightarrow> addr list \<Rightarrow> mem \<Rightarrow> mem" where
  "raid6_mmx1_gen_syndrome fpu disks bytes dptr m =
     (let z0 = disks - 3; p = dptr ! (z0 + 1); q = dptr ! (z0 + 2);
          s = asm 8 mmx1_gen_init (kernel_fpu_begin fpu m);
          s = for_step 0 bytes 8 (\<lambda>d s.
                asm 8 (mmx1_gen_post p q d)
                  (for_down 0 (z0) (\<lambda>z s. asm 8 (mmx1_gen_step dptr d z) s)
                    (asm 8 (mmx1_gen_pre dptr z0 d) s))) s
      in dram s)"

lemmas mmx1_gen_defs =
  mmx1_gen_init_def mmx1_gen_pre_def mmx1_gen_step_def mmx1_gen_post_def raid6_mmx_constants_eq

interpretation mmx1_gen: gen_kernel_load 8 "[(2, 4)]" "[5]" "[5]" mmx1_gen_init mmx1_gen_step mmx1_gen_post mmx1_gen_pre
  by unfold_locales (auto simp: kernel_simps mmx1_gen_defs)

lemma raid6_mmx1_gen_syndrome_correct:
  "stripe_ok disks bytes ptrs m \<Longrightarrow> 8 dvd bytes \<Longrightarrow> wf_regs 8 fpu \<Longrightarrow>
   raid6_mmx1_gen_syndrome fpu disks bytes ptrs m = gen_syndrome_spec disks bytes ptrs m"
  using mmx1_gen.run [of disks bytes ptrs m fpu] by (simp add: raid6_mmx1_gen_syndrome_def Let_def)

interpretation mmxx1: raid6_gen raid6_mmx1_gen_syndrome "wf_regs 8" 8
  by unfold_locales (rule raid6_mmx1_gen_syndrome_correct)

section \<open>Unrolled by two\<close>

definition mmx2_gen_init :: "insn list" where
  "mmx2_gen_init = [
     MOVDQA_imm raid6_mmx_constants 0, PXOR 5 5, PXOR 7 7]"

definition mmx2_gen_pre :: "addr list \<Rightarrow> nat \<Rightarrow> nat \<Rightarrow> insn list" where
  "mmx2_gen_pre dptr z0 d = [
     MOVDQA_load (dptr ! z0) d 2, MOVDQA_load (dptr ! z0) (d + 8) 3, MOVDQA 2 4,
     MOVDQA 3 6]"

definition mmx2_gen_step :: "addr list \<Rightarrow> nat \<Rightarrow> nat \<Rightarrow> insn list" where
  "mmx2_gen_step dptr d z = [
     PCMPGTB 4 5, PCMPGTB 6 7, PADDB 4 4, PADDB 6 6, PAND 0 5, PAND 0 7, PXOR 5 4,
     PXOR 7 6, MOVDQA_load (dptr ! z) d 5, MOVDQA_load (dptr ! z) (d + 8) 7, PXOR 5 2,
     PXOR 7 3, PXOR 5 4, PXOR 7 6, PXOR 5 5, PXOR 7 7]"

definition mmx2_gen_post :: "addr \<Rightarrow> addr \<Rightarrow> nat \<Rightarrow> insn list" where
  "mmx2_gen_post p q d = [
     MOVDQA_store 2 p d, MOVDQA_store 3 p (d + 8), MOVDQA_store 4 q d,
     MOVDQA_store 6 q (d + 8)]"

definition raid6_mmx2_gen_syndrome ::
    "simd \<Rightarrow> nat \<Rightarrow> nat \<Rightarrow> addr list \<Rightarrow> mem \<Rightarrow> mem" where
  "raid6_mmx2_gen_syndrome fpu disks bytes dptr m =
     (let z0 = disks - 3; p = dptr ! (z0 + 1); q = dptr ! (z0 + 2);
          s = asm 8 mmx2_gen_init (kernel_fpu_begin fpu m);
          s = for_step 0 bytes 16 (\<lambda>d s.
                asm 8 (mmx2_gen_post p q d)
                  (for_down 0 (z0) (\<lambda>z s. asm 8 (mmx2_gen_step dptr d z) s)
                    (asm 8 (mmx2_gen_pre dptr z0 d) s))) s
      in dram s)"

lemmas mmx2_gen_defs =
  mmx2_gen_init_def mmx2_gen_pre_def mmx2_gen_step_def mmx2_gen_post_def raid6_mmx_constants_eq

interpretation mmx2_gen: gen_kernel_load 8 "[(2, 4), (3, 6)]" "[5, 7]" "[5, 7]" mmx2_gen_init mmx2_gen_step mmx2_gen_post mmx2_gen_pre
  by unfold_locales (auto simp: kernel_simps mmx2_gen_defs)

lemma raid6_mmx2_gen_syndrome_correct:
  "stripe_ok disks bytes ptrs m \<Longrightarrow> 16 dvd bytes \<Longrightarrow> wf_regs 8 fpu \<Longrightarrow>
   raid6_mmx2_gen_syndrome fpu disks bytes ptrs m = gen_syndrome_spec disks bytes ptrs m"
  using mmx2_gen.run [of disks bytes ptrs m fpu] by (simp add: raid6_mmx2_gen_syndrome_def Let_def)

interpretation mmxx2: raid6_gen raid6_mmx2_gen_syndrome "wf_regs 8" 16
  by unfold_locales (rule raid6_mmx2_gen_syndrome_correct)

end
