(* ===== verification/Raid6_SSE1.thy ===== *)
theory Raid6_SSE1
  imports Raid6_MMX
begin

text \<open>
  The SSE-1 kernels of \<^verbatim>\<open>raid6/sse1.c\<close>: instruction by instruction, one list per group of
  \<^verbatim>\<open>asm volatile\<close> statements, with the loops of the C functions around them.
\<close>

section \<open>Plain SSE-1\<close>

definition sse11_gen_init :: "insn list" where
  "sse11_gen_init = [
     MOVDQA_imm raid6_mmx_constants 0, PXOR 5 5]"

definition sse11_gen_pre :: "addr list \<Rightarrow> nat \<Rightarrow> nat \<Rightarrow> insn list" where
  "sse11_gen_pre dptr z0 d = [
     PREFETCHNTA (dptr ! z0) d, MOVDQA_load (dptr ! z0) d 2,
     PREFETCHNTA (dptr ! (z0 - 1)) d, MOVDQA 2 4, MOVDQA_load (dptr ! (z0 - 1)) d 6]"

definition sse11_gen_step :: "addr list \<Rightarrow> nat \<Rightarrow> nat \<Rightarrow> insn list" where
  "sse11_gen_step dptr d z = [
     PREFETCHNTA (dptr ! z) d, PCMPGTB 4 5, PADDB 4 4, PAND 0 5, PXOR 5 4, PXOR 5 5,
     PXOR 6 2, PXOR 6 4, MOVDQA_load (dptr ! z) d 6]"

definition sse11_gen_post :: "addr \<Rightarrow> addr \<Rightarrow> nat \<Rightarrow> insn list" where
  "sse11_gen_post p q d = [
     PCMPGTB 4 5, PADDB 4 4, PAND 0 5, PXOR 5 4, PXOR 5 5, PXOR 6 2, PXOR 6 4,
     MOVNTDQ 2 p d, MOVNTDQ 4 q d]"

definition raid6_sse11_gen_syndrome ::
    "simd \<Rightarrow> nat \<Rightarrow> nat \<Rightarrow> addr list \<Rightarrow> mem \<Rightarrow> mem" where
  "raid6_sse11_gen_syndrome fpu disks bytes dptr m =
     (let z0 = disks - 3; p = dptr ! (z0 + 1); q = dptr ! (z0 + 2);
          s = asm 8 sse11_gen_init (kernel_fpu_begin fpu m);
          s = for_step 0 bytes 8 (\<lambda>d s.
                asm 8 (sse11_gen_post p q d)
                  (for_down 0 (z0 - 1) (\<lambda>z s. asm 8 (sse11_gen_step dptr d z) s)
                    (asm 8 (sse11_gen_pre dptr z0 d) s))) s;
          s = asm 8 [SFENCE] s
      in dram s)"

lemmas sse11_gen_defs =
  sse11_gen_init_def sse11_gen_pre_def sse11_gen_step_def sse11_gen_post_def raid6_mmx_constants_eq

interpretation sse11_gen: gen_kernel_pipe 8 2 4 6 "[5]" sse11_gen_init sse11_gen_pre sse11_gen_step sse11_gen_post
  by unfold_locales (auto simp: kernel_simps sse11_gen_defs)

lemma raid6_sse11_gen_syndrome_correct:
  "stripe_ok disks bytes ptrs m \<Longrightarrow> 8 dvd bytes \<Longrightarrow> wf_regs 8 fpu \<Longrightarrow>
   raid6_sse11_gen_syndrome fpu disks bytes ptrs m = gen_syndrome_spec disks bytes ptrs m"
  using sse11_gen.run [of disks bytes ptrs m fpu] by (simp add: raid6_sse11_gen_syndrome_def Let_def)

interpretation sse1x1: raid6_gen raid6_sse11_gen_syndrome "wf_regs 8" 8
  by unfold_locales (rule raid6_sse11_gen_syndrome_correct)

section \<open>Unrolled by two\<close>

definition sse12_gen_init :: "insn list" where
  "sse12_gen_init = [
     MOVDQA_imm raid6_mmx_constants 0, PXOR 5 5, PXOR 7 7]"

definition sse12_gen_pre :: "addr list \<Rightarrow> nat \<Rightarrow> nat \<Rightarrow> insn list" where
  "sse12_gen_pre dptr z0 d = [
     PREFETCHNTA (dptr ! z0) d, MOVDQA_load (dptr ! z0) d 2,
     MOVDQA_load (dptr ! z0) (d + 8) 3, MOVDQA 2 4, MOVDQA 3 6]"

definition sse12_gen_step :: "addr list \<Rightarrow> nat \<Rightarrow> nat \<Rightarrow> insn list" where
  "sse12_gen_step dptr d z = [
     PREFETCHNTA (dptr ! z) d, PCMPGTB 4 5, PCMPGTB 6 7, PADDB 4 4, PADDB 6 6, PAND 0 5,
     PAND 0 7, PXOR 5 4, PXOR 7 6, MOVDQA_load (dptr ! z) d 5,
     MOVDQA_load (dptr ! z) (d + 8) 7, PXOR 5 2, PXOR 7 3, PXOR 5 4, PXOR 7 6, PXOR 5 5,
     PXOR 7 7]"

definition sse12_gen_post :: "addr \<Rightarrow> addr \<Rightarrow> nat \<Rightarrow> insn list" where
  "sse12_gen_post p q d = [
     MOVNTDQ 2 p d, MOVNTDQ 3 p (d + 8), MOVNTDQ 4 q d, MOVNTDQ 6 q (d + 8)]"

definition raid6_sse12_gen_syndrome ::
    "simd \<Rightarrow> nat \<Rightarrow> nat \<Rightarrow> addr list \<Rightarrow> mem \<Rightarrow> mem" where
  "raid6_sse12_gen_syndrome fpu disks bytes dptr m =
     (let z0 = disks - 3; p = dptr ! (z0 + 1); q = dptr ! (z0 + 2);
          s = asm 8 sse12_gen_init (kernel_fpu_begin fpu m);
          s = for_step 0 bytes 16 (\<lambda>d s.
                asm 8 (sse12_gen_post p q d)
                  (for_down 0 (z0) (\<lambda>z s. asm 8 (sse12_gen_step dptr d z) s)
                    (asm 8 (sse12_gen_pre dptr z0 d) s))) s;
          s = asm 8 [SFENCE] s
      in dram s)"

lemmas sse12_gen_defs =
  sse12_gen_init_def sse12_gen_pre_def sse12_gen_step_def sse12_gen_post_def raid6_mmx_constants_eq

interpretation sse12_gen: gen_kernel_load 8 "[(2, 4), (3, 6)]" "[5, 7]" "[5, 7]" sse12_gen_init sse12_gen_step sse12_gen_post sse12_gen_pre
  by unfold_locales (auto simp: kernel_simps sse12_gen_defs)

lemma raid6_sse12_gen_syndrome_correct:
  "stripe_ok disks bytes ptrs m \<Longrightarrow> 16 dvd bytes \<Longrightarrow> wf_regs 8 fpu \<Longrightarrow>
   raid6_sse12_gen_syndrome fpu disks bytes ptrs m = gen_syndrome_spec disks bytes ptrs m"
  using sse12_gen.run [of disks bytes ptrs m fpu] by (simp add: raid6_sse12_gen_syndrome_def Let_def)

interpretation sse1x2: raid6_gen raid6_sse12_gen_syndrome "wf_regs 8" 16
  by unfold_locales (rule raid6_sse12_gen_syndrome_correct)

end
