(* ===== verification/Raid6_Int.thy ===== *)
theory Raid6_Int
  imports Simd_Machine
begin

text \<open>
  The portable integer kernels of \<^verbatim>\<open>raid6/int.uc\<close>, a template that \<^verbatim>\<open>unroll.awk\<close> expands for
  the unrolling factors \<^verbatim>\<open>$#\<close> = 1, 2, 4 and 8; the factor is the argument \<open>n\<close>. The code works
  on eight bytes at a time in a 64-bit word (\<^verbatim>\<open>BITS_PER_LONG == 64\<close>, lowest byte first), and an
  unrolled variable \<^verbatim>\<open>wq$$\<close> is the list of its copies.
\<close>

section \<open>Arithmetic on the bytes of a word\<close>

definition NBYTES :: "u64 \<Rightarrow> u64" where
  "NBYTES x = x * 0x0101010101010101"

definition SHLBYTE :: "u64 \<Rightarrow> u64" where
  "SHLBYTE v = (let vv = push_bit 1 v AND NBYTES 0xfe in vv)"

definition MASK :: "u64 \<Rightarrow> u64" where
  "MASK v = (let vv = v AND NBYTES 0x80; vv = push_bit 1 vv - drop_bit 7 vv in vv)"

section \<open>The kernels\<close>

definition read64 :: "u8 list \<Rightarrow> nat \<Rightarrow> u64" where
  "read64 xs d = foldr (\<lambda>b w. ucast b OR push_bit 8 w) (get xs d 8) 0"

definition load_words :: "nat \<Rightarrow> u8 list \<Rightarrow> nat \<Rightarrow> u64 list" where
  "load_words n xs d = map (\<lambda>j. read64 xs (d + j * 8)) [0..<n]"

primrec store_words :: "u64 list \<Rightarrow> nat \<Rightarrow> u8 list \<Rightarrow> u8 list" where
  "store_words [] d xs = xs"
| "store_words (w # ws) d xs = store_words ws (d + 8) (put xs d (le_bytes w))"

definition int_step :: "nat \<Rightarrow> u64 list \<Rightarrow> u64 list \<times> u64 list \<Rightarrow> u64 list \<times> u64 list" where
  "int_step n wd = (\<lambda>(wp, wq).
     let wp = map2 (XOR) wp wd;
         w2 = map MASK wq;
         w1 = map SHLBYTE wq;
         w2 = map (\<lambda>w. w AND NBYTES 0x1d) w2;
         w1 = map2 (XOR) w1 w2;
         wq = map2 (XOR) w1 wd
     in (wp, wq))"

definition int_gen_turn :: "nat \<Rightarrow> addr list \<Rightarrow> nat \<Rightarrow> addr \<Rightarrow> addr \<Rightarrow> nat \<Rightarrow> mem \<Rightarrow> mem" where
  "int_gen_turn n dptr z0 p q d m =
     (let wp = load_words n (m (dptr ! z0)) d; wq = wp;
          (wp, wq) = for_down 0 z0 (\<lambda>z. int_step n (load_words n (m (dptr ! z)) d)) (wp, wq);
          m = m(p := store_words wp d (m p));
          m = m(q := store_words wq d (m q))
      in m)"

definition raid6_int_gen_syndrome :: "nat \<Rightarrow> nat \<Rightarrow> nat \<Rightarrow> addr list \<Rightarrow> mem \<Rightarrow> mem" where
  "raid6_int_gen_syndrome n disks bytes dptr m =
     (let z0 = disks - 3; p = dptr ! (z0 + 1); q = dptr ! (z0 + 2)
      in for_step 0 bytes (8 * n) (int_gen_turn n dptr z0 p q) m)"

definition int_left :: "u64 list \<Rightarrow> u64 list" where
  "int_left wq =
     (let w2 = map MASK wq;
          w1 = map SHLBYTE wq;
          w2 = map (\<lambda>w. w AND NBYTES 0x1d) w2;
          wq = map2 (XOR) w1 w2
      in wq)"

definition int_xor_turn ::
    "nat \<Rightarrow> addr list \<Rightarrow> nat \<Rightarrow> nat \<Rightarrow> addr \<Rightarrow> addr \<Rightarrow> nat \<Rightarrow> mem \<Rightarrow> mem" where
  "int_xor_turn n dptr start z0 p q d m =
     (let wp = load_words n (m (dptr ! z0)) d; wq = wp;
          (wp, wq) = for_down start z0 (\<lambda>z. int_step n (load_words n (m (dptr ! z)) d)) (wp, wq);
          wq = for_down 0 start (\<lambda>z. int_left) wq;
          m = m(p := store_words (map2 (XOR) (load_words n (m p) d) wp) d (m p));
          m = m(q := store_words (map2 (XOR) (load_words n (m q) d) wq) d (m q))
      in m)"

definition raid6_int_xor_syndrome ::
    "nat \<Rightarrow> nat \<Rightarrow> nat \<Rightarrow> nat \<Rightarrow> nat \<Rightarrow> addr list \<Rightarrow> mem \<Rightarrow> mem" where
  "raid6_int_xor_syndrome n disks start stop bytes dptr m =
     (let z0 = stop; p = dptr ! (disks - 2); q = dptr ! (disks - 1)
      in for_step 0 bytes (8 * n) (int_xor_turn n dptr start z0 p q) m)"

section \<open>The word operations act on each byte\<close>

lemma length_le_bytes [simp]: "length (le_bytes w) = 8"
  by (simp add: le_bytes_def)

lemma nth_le_bytes: "i < 8 \<Longrightarrow> le_bytes w ! i = ucast (drop_bit (8 * i) w)"
  by (simp add: le_bytes_def)

lemma bit_le_bytes: "i < 8 \<Longrightarrow> k < 8 \<Longrightarrow> bit (le_bytes w ! i) k = bit w (8 * i + k)"
  by (simp add: nth_le_bytes bit_simps)

lemma NBYTES_consts:
  "NBYTES 0xfe = 0xfefefefefefefefe" "NBYTES 0x80 = 0x8080808080808080"
  "NBYTES 0x1d = 0x1d1d1d1d1d1d1d1d"
  by (simp_all add: NBYTES_def)

text \<open>
  \<open>MASK\<close> subtracts a word whose only bits are at the bottom of each byte from its shift by
  eight: a product with 255, which is a sum without carries.
\<close>

definition bytes_bits :: "nat set \<Rightarrow> u64 \<Rightarrow> bool" where
  "bytes_bits S x \<longleftrightarrow> (\<forall>n. bit x n \<longrightarrow> n mod 8 \<in> S)"

lemma double_disjoint:
  assumes "bytes_bits {..<j} x" "0 < j" "2 * j \<le> 8"
  shows "x + push_bit j x = x XOR push_bit j x" "bytes_bits {..<2 * j} (x XOR push_bit j x)"
proof -
  have sh: "(n - j) mod 8 < j \<Longrightarrow> j \<le> n \<Longrightarrow> j \<le> n mod 8 \<and> n mod 8 < 2 * j" for n :: nat
  proof -
    assume a: "(n - j) mod 8 < j" "j \<le> n"
    have "n mod 8 = ((n - j) mod 8 + j) mod 8" using a(2) by (simp add: mod_add_left_eq)
    also have "\<dots> = (n - j) mod 8 + j" using a assms(3) by (intro mod_less) linarith
    finally show ?thesis using a by simp
  qed
  have b: "bit x n \<Longrightarrow> n mod 8 < j" for n using assms(1) by (auto simp: bytes_bits_def)
  have "x AND push_bit j x = 0"
    by (rule bit_word_eqI) (auto simp: bit_simps dest!: b sh)
  then show "x + push_bit j x = x XOR push_bit j x" by (rule disjunctive_add_eq_xor)
  show "bytes_bits {..<2 * j} (x XOR push_bit j x)"
    using assms(2) by (auto simp: bytes_bits_def bit_simps dest!: b sh)
qed

lemma bit_double:
  assumes "bytes_bits {..<j} x" "0 < j" "2 * j \<le> 8" "k < 2 * j"
  shows "bit (x XOR push_bit j x) (8 * i + k) \<longleftrightarrow> bit x (8 * i + (if k < j then k else k - j))"
proof -
  have b: "bit x n \<Longrightarrow> n mod 8 < j" for n using assms(1) by (auto simp: bytes_bits_def)
  have km: "(8 * i + k) mod 8 = k" using assms by simp
  show ?thesis
  proof (cases "k < j")
    case True
    have "\<not> bit x (8 * i + k - j)" if "j \<le> 8 * i + k"
    proof
      assume "bit x (8 * i + k - j)"
      from b [OF this] have "(8 * i + k - j) mod 8 < j" .
      moreover have "k = ((8 * i + k - j) mod 8 + j) mod 8"
        using that km by (simp add: mod_add_left_eq)
      moreover have "((8 * i + k - j) mod 8 + j) mod 8 = (8 * i + k - j) mod 8 + j"
        using calculation(1) assms(3) by (intro mod_less) linarith
      ultimately show False using True by simp
    qed
    with True show ?thesis by (auto simp: bit_simps dest: bit_imp_le_length)
  next
    case False
    have "bit x (8 * i + k) = False" using b [of "8 * i + k"] km False by auto
    moreover have "8 * i + k - j = 8 * i + (k - j)" using False by simp
    moreover have "8 * i + k < 64" if "bit x (8 * i + (k - j))"
    proof -
      have "i < 8" using bit_imp_le_length [OF that] by simp
      with assms show ?thesis by simp
    qed
    ultimately show ?thesis using False by (auto simp: bit_simps)
  qed
qed

lemma bit_0x80: "bit (0x8080808080808080 :: u64) m \<longleftrightarrow> m < 64 \<and> m mod 8 = 7"
proof (cases "m < 64")
  case True
  have "\<forall>m\<in>set [0..<64]. bit (0x8080808080808080 :: u64) m \<longleftrightarrow> m mod 8 = 7"
    by (simp add: upt_rec bit_simps)
  with True show ?thesis by simp
qed (auto dest: bit_imp_le_length)

lemma mod_le_7: "m mod 8 = 7 \<Longrightarrow> 7 \<le> (m :: nat)"
  by (metis mod_less_eq_dividend)

lemma bit_MASK:
  assumes "i < 8" "k < 8"
  shows "bit (MASK v) (8 * i + k) \<longleftrightarrow> bit v (8 * i + 7)"
proof -
  define u where "u = drop_bit 7 (v AND 0x8080808080808080)"
  define x1 where "x1 = u XOR push_bit 1 u"
  define x2 where "x2 = x1 XOR push_bit 2 x1"
  have bit_u: "bit u n \<longleftrightarrow> bit v (7 + n) \<and> 7 + n < 64 \<and> (7 + n) mod 8 = 7" for n
    by (simp only: u_def bit_drop_bit_eq bit_and_iff bit_0x80 o_def)
  have "n mod 8 = 0" if "(7 + n) mod 8 = 7" for n :: nat
    using that by presburger
  then have u: "bytes_bits {..<1} u"
    by (simp add: bytes_bits_def bit_u)
  from double_disjoint [OF u] have x1: "x1 = u + push_bit 1 u" "bytes_bits {..<2} x1"
    by (simp_all add: x1_def)
  from double_disjoint [OF x1(2)] have x2: "x2 = x1 + push_bit 2 x1" "bytes_bits {..<4} x2"
    by (simp_all add: x2_def)
  from double_disjoint [OF x2(2)] have x3: "x2 XOR push_bit 4 x2 = x2 + push_bit 4 x2" by simp
  have vv: "v AND 0x8080808080808080 = push_bit 7 u"
  proof (rule bit_word_eqI)
    fix n
    show "bit (v AND 0x8080808080808080) n = bit (push_bit 7 u) n"
      unfolding bit_push_bit_iff bit_and_iff bit_u bit_0x80 using mod_le_7 [of n] by auto
  qed
  have "MASK v = push_bit 1 (push_bit 7 u) - u"
    unfolding MASK_def Let_def NBYTES_consts u_def [symmetric] by (simp only: vv)
  also have "\<dots> = x2 + push_bit 4 x2"
    unfolding x2(1) x1(1) by (simp add: push_bit_eq_mult)
  also have "\<dots> = x2 XOR push_bit 4 x2" by (rule x3 [symmetric])
  finally have "bit (MASK v) (8 * i + k) \<longleftrightarrow> bit (x2 XOR push_bit 4 x2) (8 * i + k)" by simp
  also have "\<dots> \<longleftrightarrow> bit u (8 * i)"
  proof -
    define k1 where "k1 = (if k < 4 then k else k - 4)"
    define k2 where "k2 = (if k1 < 2 then k1 else k1 - 2)"
    have k: "k1 < 4" "k2 < 2" using assms by (auto simp: k1_def k2_def)
    have "bit (x2 XOR push_bit 4 x2) (8 * i + k) = bit x2 (8 * i + k1)"
      unfolding k1_def using assms by (intro bit_double [OF x2(2)]) auto
    also have "\<dots> = bit x1 (8 * i + k2)"
      unfolding x2_def k2_def using k by (intro bit_double [OF x1(2)]) auto
    also have "\<dots> = bit u (8 * i + (if k2 < 1 then k2 else k2 - 1))"
      unfolding x1_def using k by (intro bit_double [OF u]) auto
    finally show ?thesis using k by (simp split: if_splits)
  qed
  also have "\<dots> \<longleftrightarrow> bit v (8 * i + 7)"
    using assms by (simp add: bit_u add.commute)
  finally show ?thesis .
qed

lemma bit_SHLBYTE:
  assumes "i < 8" "k < 8"
  shows "bit (SHLBYTE v) (8 * i + k) \<longleftrightarrow> 0 < k \<and> bit v (8 * i + k - 1)"
proof -
  have c: "bit (0xfefefefefefefefe :: u64) (8 * i + k) \<longleftrightarrow> 0 < k"
    using assms unfolding less_8_cases
    by (elim insertE emptyE; hypsubst) simp_all
  show ?thesis
    using assms unfolding SHLBYTE_def Let_def NBYTES_consts bit_and_iff c bit_push_bit_iff
    by auto
qed

lemma bit_0x1d: 
  assumes "i < 8" "k < 8"
  shows "bit (0x1d1d1d1d1d1d1d1d :: u64) (8 * i + k) \<longleftrightarrow> bit (0x1d :: u8) k"
  using assms unfolding less_8_cases
  by (elim insertE emptyE; hypsubst) simp_all

lemma bit_xtimes:
  assumes "k < 8"
  shows "bit (xtimes b) k \<longleftrightarrow> (0 < k \<and> bit b (k - 1)) \<noteq> (bit b 7 \<and> bit (0x1d :: u8) k)"
  using assms unfolding xtimes_def bit_xor_iff bit_push_bit_iff by (auto simp: and_0x80_bit)

lemma le_bytes_xtimes:
  "le_bytes (SHLBYTE v XOR (MASK v AND NBYTES 0x1d)) = map xtimes (le_bytes v)"
proof (rule nth_equalityI)
  fix i
  assume "i < length (le_bytes (SHLBYTE v XOR (MASK v AND NBYTES 0x1d)))"
  then have i: "i < 8" by simp
  have "bit (le_bytes (SHLBYTE v XOR (MASK v AND NBYTES 0x1d)) ! i) k = bit (xtimes (le_bytes v ! i)) k"
    if "k < 8" for k
    using i that bit_le_bytes [OF i, of "k - 1" v] bit_le_bytes [OF i, of 7 v]
    unfolding bit_le_bytes [OF i that] bit_xtimes [OF that] bit_xor_iff bit_and_iff
      bit_SHLBYTE [OF i that] bit_MASK [OF i that] NBYTES_consts bit_0x1d [OF i that]
    by auto
  then show "le_bytes (SHLBYTE v XOR (MASK v AND NBYTES 0x1d)) ! i = map xtimes (le_bytes v) ! i"
    using i by (auto intro: bit_word_eqI)
qed simp

section \<open>Lists of words as runs of bytes\<close>

definition bytes_of :: "u64 list \<Rightarrow> u8 list" where
  "bytes_of ws = concat (map le_bytes ws)"

lemma bytes_of_simps [simp]:
  "bytes_of [] = []" "bytes_of (w # ws) = le_bytes w @ bytes_of ws"
  by (simp_all add: bytes_of_def)

lemma length_bytes_of [simp]: "length (bytes_of ws) = 8 * length ws"
  by (induction ws) simp_all

lemma bit_foldr_word:
  "k < 8 \<Longrightarrow> 8 * i + k < 64 \<Longrightarrow>
   bit (foldr (\<lambda>b w. ucast b OR push_bit 8 w) bs (0 :: u64)) (8 * i + k) \<longleftrightarrow>
   i < length bs \<and> bit (bs ! i :: u8) k"
proof (induction bs arbitrary: i)
  case (Cons b bs)
  show ?case
  proof (cases i)
    case 0
    with Cons.prems show ?thesis by (simp add: bit_simps)
  next
    case (Suc j)
    with Cons.prems Cons.IH [of j] show ?thesis by (simp add: bit_simps u8_no_bit add.commute)
  qed
qed simp

lemma le_bytes_read64:
  assumes "d + 8 \<le> length xs"
  shows "le_bytes (read64 xs d) = get xs d 8"
proof (rule nth_equalityI)
  fix i
  assume "i < length (le_bytes (read64 xs d))"
  then have i: "i < 8" by simp
  have "bit (le_bytes (read64 xs d) ! i) k = bit (get xs d 8 ! i) k" if "k < 8" for k
    using i that assms unfolding bit_le_bytes [OF i that] read64_def
    by (subst bit_foldr_word) auto
  then show "le_bytes (read64 xs d) ! i = get xs d 8 ! i"
    by (auto intro: bit_word_eqI)
qed (use assms in simp)

lemma get_append: "d + a + b \<le> length xs \<Longrightarrow> get xs d a @ get xs (d + a) b = get xs d (a + b)"
  by (auto simp: list_eq_iff_nth_eq nth_append)

lemma load_words_Suc: "load_words (Suc n) xs d = read64 xs d # load_words n xs (d + 8)"
  unfolding load_words_def by (simp add: upt_conv_Cons map_Suc_upt [symmetric] del: upt_Suc) (simp add: algebra_simps)

lemma length_load_words [simp]: "length (load_words n xs d) = n"
  by (simp add: load_words_def)

lemma bytes_of_load:
  "d + 8 * n \<le> length xs \<Longrightarrow> bytes_of (load_words n xs d) = get xs d (8 * n)"
proof (induction n arbitrary: d)
  case 0
  then show ?case by (simp add: load_words_def get_def)
next
  case (Suc n)
  then show ?case
    using get_append [of d 8 "8 * n" xs] by (simp add: load_words_Suc le_bytes_read64)
qed

lemma store_words_eq:
  "d + 8 * length ws \<le> length xs \<Longrightarrow> store_words ws d xs = put xs d (bytes_of ws)"
proof (induction ws arbitrary: d xs)
  case (Cons w ws)
  then show ?case using put_put [of d "le_bytes w" "bytes_of ws" xs] by simp
qed simp

lemma le_bytes_xor: "le_bytes (a XOR b) = vxor (le_bytes a) (le_bytes b)"
proof (rule nth_equalityI)
  fix i
  assume "i < length (le_bytes (a XOR b))"
  then have i: "i < 8" by simp
  show "le_bytes (a XOR b) ! i = vxor (le_bytes a) (le_bytes b) ! i"
    using i by (auto simp: bit_le_bytes bit_xor_iff intro: bit_word_eqI)
qed simp

lemma vxor_append: "length a = length c \<Longrightarrow> vxor (a @ b) (c @ d) = vxor a c @ vxor b d"
  by (simp add: vxor_def)

lemma bytes_of_xor:
  "length a = length b \<Longrightarrow> bytes_of (map2 (XOR) a b) = vxor (bytes_of a) (bytes_of b)"
  by (induction a b rule: list_induct2) (simp_all add: le_bytes_xor vxor_append vxor_def)

lemma bytes_of_xtimes:
  "bytes_of (map2 (XOR) (map SHLBYTE ws) (map (\<lambda>w. w AND NBYTES 0x1d) (map MASK ws))) =
   map xtimes (bytes_of ws)"
  by (induction ws) (simp_all add: le_bytes_xtimes)

section \<open>The kernels compute the syndromes\<close>

lemma horner_words:
  assumes "length wp = n" "length wq = n"
    and "bytes_of wp = pvec (Suc z) k ptrs m d (8 * n)" "bytes_of wq = qvec (Suc z) k ptrs m d (8 * n)"
    and "z < k" "d + 8 * n \<le> length (m (ptrs ! z))"
    and "int_step n (load_words n (m (ptrs ! z)) d) (wp, wq) = (wp', wq')"
  shows "length wp' = n" "length wq' = n"
    "bytes_of wp' = pvec z k ptrs m d (8 * n)" "bytes_of wq' = qvec z k ptrs m d (8 * n)"
  using assms pvec_step [of z k d "8 * n" m ptrs] qvec_step [of z k d "8 * n" m ptrs]
  by (auto simp: int_step_def Let_def bytes_of_xor bytes_of_load bytes_of_xtimes simp del: map_map)

lemma right_words:
  assumes "lo \<le> hi" and len: "\<And>z. z \<le> hi \<Longrightarrow> d + 8 * n \<le> length (m (ptrs ! z))"
  obtains wp wq where "for_down lo hi (\<lambda>z. int_step n (load_words n (m (ptrs ! z)) d))
      (load_words n (m (ptrs ! hi)) d, load_words n (m (ptrs ! hi)) d) = (wp, wq)"
    "length wp = n" "length wq = n" "bytes_of wp = pvec lo (Suc hi) ptrs m d (8 * n)"
    "bytes_of wq = qvec lo (Suc hi) ptrs m d (8 * n)"
proof -
  let ?I = "\<lambda>z (wp, wq). length wp = n \<and> length wq = n \<and>
    bytes_of wp = pvec z (Suc hi) ptrs m d (8 * n) \<and> bytes_of wq = qvec z (Suc hi) ptrs m d (8 * n)"
  have "?I lo (for_down lo hi (\<lambda>z. int_step n (load_words n (m (ptrs ! z)) d))
      (load_words n (m (ptrs ! hi)) d, load_words n (m (ptrs ! hi)) d))"
  proof (rule for_down_invariant [where I = ?I, OF assms(1)])
    show "?I hi (load_words n (m (ptrs ! hi)) d, load_words n (m (ptrs ! hi)) d)"
      using len [of hi] by (simp add: bytes_of_load pvec_single)
  next
    fix z ws
    assume z: "z < hi" and I: "?I (Suc z) ws"
    obtain wp wq wp' wq' where ws: "ws = (wp, wq)"
      "int_step n (load_words n (m (ptrs ! z)) d) (wp, wq) = (wp', wq')" by fastforce
    with I have "length wp = n" "length wq = n" "bytes_of wp = pvec (Suc z) (Suc hi) ptrs m d (8 * n)"
      "bytes_of wq = qvec (Suc z) (Suc hi) ptrs m d (8 * n)" by auto
    from horner_words [OF this _ len ws(2)] z ws show "?I z (int_step n (load_words n (m (ptrs ! z)) d) ws)"
      by simp
  qed
  then show thesis using that by (auto split: prod.splits)
qed

lemma left_words:
  assumes "length wq = n" "bytes_of wq = qvec start hi ptrs m d (8 * n)"
  shows "length (for_down 0 start (\<lambda>z. int_left) wq) = n"
    "bytes_of (for_down 0 start (\<lambda>z. int_left) wq) = map (qbyte start hi ptrs m) [d..<d + 8 * n]"
proof -
  let ?I = "\<lambda>z wq. length wq = n \<and>
    bytes_of wq = map (gfmul (gexp (start - z))) (qvec start hi ptrs m d (8 * n))"
  have "?I 0 (for_down 0 start (\<lambda>z. int_left) wq)"
  proof (rule for_down_invariant [where I = ?I])
    have "gfmul 1 = id" by (simp add: fun_eq_iff)
    with assms show "?I start wq" by simp
  next
    fix z wq
    assume z: "z < start" and I: "?I (Suc z) wq"
    then have "bytes_of (int_left wq) = map xtimes (bytes_of wq)" "length (int_left wq) = n"
      unfolding int_left_def Let_def bytes_of_xtimes by simp_all
    with I z show "?I z (int_left wq)"
      by (simp only: map_xtimes_gexp Suc_diff_Suc)
  qed simp
  then show "length (for_down 0 start (\<lambda>z. int_left) wq) = n"
    "bytes_of (for_down 0 start (\<lambda>z. int_left) wq) = map (qbyte start hi ptrs m) [d..<d + 8 * n]"
    by (simp_all only: qvec_scale diff_zero)
qed

lemma raid6_int_gen_syndrome_correct:
  assumes ok: "stripe_ok disks bytes ptrs m" and n: "0 < n" "8 * n dvd bytes"
  shows "raid6_int_gen_syndrome n disks bytes ptrs m = gen_syndrome_spec disks bytes ptrs m"
proof -
  obtain k where k: "disks = Suc k + 2"
    using stripe_ok_disks [OF ok] le_Suc_ex [of 3 disks] by auto
  have W: "8 * n > 0" using n by simp
  let ?p = "ptrs ! (disks - 2)" and ?q = "ptrs ! (disks - 1)"
  have "for_step 0 bytes (8 * n) (int_gen_turn n ptrs k ?p ?q) m =
      m(?p := put (m ?p) 0 (map (pbyte 0 (disks - 2) ptrs m) [0..<bytes]),
        ?q := put (m ?q) 0 (map (qbyte 0 (disks - 2) ptrs m) [0..<bytes]))"
  proof (rule pq_loop [where I = "\<lambda>_. True" and mm = "\<lambda>m. m", OF ok W n(2) refl refl])
    fix d m1 m'
    assume d: "d + 8 * n \<le> bytes" and m': "m1 = m'" and ok': "stripe_ok disks bytes ptrs m'"
      and data: "\<And>z. z < disks - 2 \<Longrightarrow> m' (ptrs ! z) = m (ptrs ! z)"
    have len: "d + 8 * n \<le> length (m' (ptrs ! z))" if "z < disks" for z
      using stripe_ok_length [OF ok' that] d by simp
    obtain wp wq where ws: "for_down 0 k (\<lambda>z. int_step n (load_words n (m' (ptrs ! z)) d))
      (load_words n (m' (ptrs ! k)) d, load_words n (m' (ptrs ! k)) d) = (wp, wq)"
      and l: "length wp = n" "length wq = n" and v: "bytes_of wp = pvec 0 (Suc k) ptrs m' d (8 * n)"
      "bytes_of wq = qvec 0 (Suc k) ptrs m' d (8 * n)"
      by (rule right_words [of 0 k d n m' ptrs]) (use len k in auto)
    have v': "bytes_of wp = map (pbyte 0 (disks - 2) ptrs m) [d..<d + 8 * n]"
      "bytes_of wq = map (qbyte 0 (disks - 2) ptrs m) [d..<d + 8 * n]"
      using v data k pbyte_cong [of 0 "Suc k" m' ptrs m] qbyte_cong [of 0 "Suc k" m' ptrs m]
      by (simp_all add: qvec_0 pvec_def)
    show "True \<and> int_gen_turn n ptrs k ?p ?q d m1 =
        m'(?p := put (m' ?p) d (map (pbyte 0 (disks - 2) ptrs m) [d..<d + 8 * n]),
           ?q := put (m' ?q) d (map (qbyte 0 (disks - 2) ptrs m) [d..<d + 8 * n]))"
      using len [of "disks - 2"] len [of "disks - 1"] k l stripe_ok_pq(1) [OF ok]
      by (simp add: int_gen_turn_def Let_def m' ws store_words_eq v' fun_eq_iff)
  qed simp_all
  then show ?thesis
    by (simp add: raid6_int_gen_syndrome_def gen_syndrome_spec_def k Let_def)
qed

lemma raid6_int_xor_syndrome_correct:
  assumes ok: "stripe_ok disks bytes ptrs m" and n: "0 < n" "8 * n dvd bytes"
    and se: "start \<le> stop" "stop < disks - 2"
  shows "raid6_int_xor_syndrome n disks start stop bytes ptrs m =
    xor_syndrome_spec disks start stop bytes ptrs m"
proof -
  have W: "8 * n > 0" using n by simp
  let ?p = "ptrs ! (disks - 2)" and ?q = "ptrs ! (disks - 1)"
  let ?f = "\<lambda>m i. m ?p ! i XOR pbyte start (Suc stop) ptrs m i"
  let ?g = "\<lambda>m i. m ?q ! i XOR qbyte start (Suc stop) ptrs m i"
  have "for_step 0 bytes (8 * n) (int_xor_turn n ptrs start stop ?p ?q) m =
      m(?p := put (m ?p) 0 (map (?f m) [0..<bytes]), ?q := put (m ?q) 0 (map (?g m) [0..<bytes]))"
  proof (rule pq_loop [where I = "\<lambda>_. True" and mm = "\<lambda>m. m", OF ok W n(2) refl refl])
    fix d m1 m'
    assume d: "d + 8 * n \<le> bytes" and m': "m1 = m'" and ok': "stripe_ok disks bytes ptrs m'"
      and data: "\<And>z. z < disks - 2 \<Longrightarrow> m' (ptrs ! z) = m (ptrs ! z)"
      and same: "\<And>i. d \<le> i \<Longrightarrow> i < bytes \<Longrightarrow> m' ?p ! i = m ?p ! i"
        "\<And>i. d \<le> i \<Longrightarrow> i < bytes \<Longrightarrow> m' ?q ! i = m ?q ! i"
    have len: "d + 8 * n \<le> length (m' (ptrs ! z))" if "z < disks" for z
      using stripe_ok_length [OF ok' that] d by simp
    have lens: "d + 8 * n \<le> length (m' ?p)" "d + 8 * n \<le> length (m' ?q)"
      using len [of "disks - 2"] len [of "disks - 1"] se by auto
    obtain wp wq where ws: "for_down start stop (\<lambda>z. int_step n (load_words n (m' (ptrs ! z)) d))
      (load_words n (m' (ptrs ! stop)) d, load_words n (m' (ptrs ! stop)) d) = (wp, wq)"
      and l: "length wp = n" "length wq = n" and v: "bytes_of wp = pvec start (Suc stop) ptrs m' d (8 * n)"
      "bytes_of wq = qvec start (Suc stop) ptrs m' d (8 * n)"
      by (rule right_words [of start stop d n m' ptrs]) (use len se in auto)
    let ?wq = "for_down 0 start (\<lambda>z. int_left) wq"
    note w = left_words [OF l(2) v(2)]
    have fg: "map (?f m') [d..<d + 8 * n] = map (?f m) [d..<d + 8 * n]"
      "map (?g m') [d..<d + 8 * n] = map (?g m) [d..<d + 8 * n]"
      using d data se same
        pbyte_cong [of start "Suc stop" m' ptrs m] qbyte_cong [of start "Suc stop" m' ptrs m]
      by (auto simp del: upt_Suc)
    have "bytes_of (map2 (XOR) (load_words n (m' ?p) d) wp) = map (?f m) [d..<d + 8 * n]"
      "bytes_of (map2 (XOR) (load_words n (m' ?q) d) ?wq) = map (?g m) [d..<d + 8 * n]"
      unfolding fg [symmetric] using lens l w v by (simp_all add: bytes_of_xor bytes_of_load list_eq_iff_nth_eq pvec_def)
    then show "True \<and> int_xor_turn n ptrs start stop ?p ?q d m1 =
        m'(?p := put (m' ?p) d (map (?f m) [d..<d + 8 * n]), ?q := put (m' ?q) d (map (?g m) [d..<d + 8 * n]))"
      using lens l w(1) stripe_ok_pq(1) [OF ok]
      by (simp add: int_xor_turn_def Let_def m' ws store_words_eq fun_eq_iff)
  qed simp_all
  then show ?thesis
    by (simp add: raid6_int_xor_syndrome_def xor_syndrome_spec_def Let_def)
qed

interpretation intx1: raid6_xor "\<lambda>_ :: unit. raid6_int_gen_syndrome 1" "\<lambda>_. True" 8
  "\<lambda>_. raid6_int_xor_syndrome 1"
  by unfold_locales (simp_all add: raid6_int_gen_syndrome_correct raid6_int_xor_syndrome_correct)

interpretation intx2: raid6_xor "\<lambda>_ :: unit. raid6_int_gen_syndrome 2" "\<lambda>_. True" 16
  "\<lambda>_. raid6_int_xor_syndrome 2"
  by unfold_locales (simp_all add: raid6_int_gen_syndrome_correct raid6_int_xor_syndrome_correct)

interpretation intx4: raid6_xor "\<lambda>_ :: unit. raid6_int_gen_syndrome 4" "\<lambda>_. True" 32
  "\<lambda>_. raid6_int_xor_syndrome 4"
  by unfold_locales (simp_all add: raid6_int_gen_syndrome_correct raid6_int_xor_syndrome_correct)

interpretation intx8: raid6_xor "\<lambda>_ :: unit. raid6_int_gen_syndrome 8" "\<lambda>_. True" 64
  "\<lambda>_. raid6_int_xor_syndrome 8"
  by unfold_locales (simp_all add: raid6_int_gen_syndrome_correct raid6_int_xor_syndrome_correct)

end
