(* ===== verification/Raid6_Recov.thy ===== *)
theory Raid6_Recov
  imports Raid6_Spec
begin

text \<open>
  Recovery of a stripe with two failed pages: \<^verbatim>\<open>raid6/recov.c\<close>. The routines reuse the lost
  pages as scratch space for a syndrome over the surviving data, computed through the
  function pointer \<^verbatim>\<open>raid6_call.gen_syndrome\<close>, here the argument \<open>gen\<close>; the address of
  \<^verbatim>\<open>raid6_empty_zero_page\<close> is the argument \<open>zp\<close>. The pointer table is changed and restored;
  a routine returns it together with the memory.
\<close>

section \<open>The integer routines\<close>

definition raid6_2data_recov_intx1 ::
    "(nat \<Rightarrow> nat \<Rightarrow> addr list \<Rightarrow> mem \<Rightarrow> mem) \<Rightarrow> addr \<Rightarrow>
     nat \<Rightarrow> nat \<Rightarrow> nat \<Rightarrow> nat \<Rightarrow> addr list \<Rightarrow> mem \<Rightarrow> addr list \<times> mem" where
  "raid6_2data_recov_intx1 gen zp disks bytes faila failb ptrs m =
     (let p = ptrs ! (disks - 2); q = ptrs ! (disks - 1);
          dp = ptrs ! faila;
          ptrs = ptrs[faila := zp];
          ptrs = ptrs[disks - 2 := dp];
          dq = ptrs ! failb;
          ptrs = ptrs[failb := zp];
          ptrs = ptrs[disks - 1 := dq];
          m = gen disks bytes ptrs m;
          ptrs = ptrs[faila := dp];
          ptrs = ptrs[failb := dq];
          ptrs = ptrs[disks - 2 := p];
          ptrs = ptrs[disks - 1 := q];
          pbmul = raid6_gfmul ! unat (raid6_gfexi ! (failb - faila));
          qmul = raid6_gfmul !
            unat (raid6_gfinv ! unat (raid6_gfexp ! faila XOR raid6_gfexp ! failb));
          m = for_step 0 bytes 1 (\<lambda>i m.
                let px = m p ! i XOR m dp ! i;
                    qx = qmul ! unat (m q ! i XOR m dq ! i);
                    db = pbmul ! unat px XOR qx;
                    m = m(dq := (m dq)[i := db]);
                    m = m(dp := (m dp)[i := db XOR px])
                in m) m
      in (ptrs, m))"

definition raid6_datap_recov_intx1 ::
    "(nat \<Rightarrow> nat \<Rightarrow> addr list \<Rightarrow> mem \<Rightarrow> mem) \<Rightarrow> addr \<Rightarrow>
     nat \<Rightarrow> nat \<Rightarrow> nat \<Rightarrow> addr list \<Rightarrow> mem \<Rightarrow> addr list \<times> mem" where
  "raid6_datap_recov_intx1 gen zp disks bytes faila ptrs m =
     (let p = ptrs ! (disks - 2); q = ptrs ! (disks - 1);
          dq = ptrs ! faila;
          ptrs = ptrs[faila := zp];
          ptrs = ptrs[disks - 1 := dq];
          m = gen disks bytes ptrs m;
          ptrs = ptrs[faila := dq];
          ptrs = ptrs[disks - 1 := q];
          qmul = raid6_gfmul ! unat (raid6_gfinv ! unat (raid6_gfexp ! faila));
          m = for_step 0 bytes 1 (\<lambda>i m.
                let m = m(dq := (m dq)[i := qmul ! unat (m q ! i XOR m dq ! i)]);
                    m = m(p := (m p)[i := m p ! i XOR m dq ! i])
                in m) m
      in (ptrs, m))"

text \<open>
  The test driver's dispatch. \<open>data2\<close> and \<open>datap\<close> are the global function pointers
  \<^verbatim>\<open>raid6_2data_recov\<close> and \<^verbatim>\<open>raid6_datap_recov\<close>.
\<close>

definition raid6_dual_recov ::
    "(nat \<Rightarrow> nat \<Rightarrow> addr list \<Rightarrow> mem \<Rightarrow> mem) \<Rightarrow>
     (nat \<Rightarrow> nat \<Rightarrow> nat \<Rightarrow> nat \<Rightarrow> addr list \<Rightarrow> mem \<Rightarrow> (addr list \<times> mem) option) \<Rightarrow>
     (nat \<Rightarrow> nat \<Rightarrow> nat \<Rightarrow> addr list \<Rightarrow> mem \<Rightarrow> (addr list \<times> mem) option) \<Rightarrow>
     nat \<Rightarrow> nat \<Rightarrow> nat \<Rightarrow> nat \<Rightarrow> addr list \<Rightarrow> mem \<Rightarrow> (addr list \<times> mem) option" where
  "raid6_dual_recov gen data2 datap disks bytes faila failb ptrs m =
     (let (faila, failb) = (if faila > failb then (failb, faila) else (faila, failb))
      in if failb = disks - 1 then
           (if faila = disks - 2 then Some (ptrs, gen disks bytes ptrs m)
            else Some (ptrs, m))
         else if failb = disks - 2 then datap disks bytes faila ptrs m
         else data2 disks bytes faila failb ptrs m)"

lemma raid6_dual_recov_sym:
  "raid6_dual_recov gen data2 datap disks bytes a b ptrs m = raid6_dual_recov gen data2 datap disks bytes b a ptrs m"
  unfolding raid6_dual_recov_def by (cases a b rule: linorder_cases) simp_all

section \<open>What recovery has to achieve\<close>

text \<open>\<open>synced\<close>: the P and Q pages hold the syndromes of the data pages.\<close>

definition synced :: "nat \<Rightarrow> nat \<Rightarrow> addr list \<Rightarrow> mem \<Rightarrow> bool" where
  "synced disks bytes ptrs m \<longleftrightarrow>
     (\<forall>i<bytes. m (ptrs ! (disks - 2)) ! i = pbyte 0 (disks - 2) ptrs m i \<and>
                m (ptrs ! (disks - 1)) ! i = qbyte 0 (disks - 2) ptrs m i)"

text \<open>
  \<open>lost disks bytes js zp ptrs m0 m\<close>: memory \<open>m\<close> is the good stripe \<open>m0\<close> with the pages at the
  slots \<open>js\<close> overwritten by anything. The lost pages are not shared with any other slot;
  other data slots may share a page (typically the zero page).
\<close>

definition lost :: "nat \<Rightarrow> nat \<Rightarrow> nat set \<Rightarrow> addr \<Rightarrow> addr list \<Rightarrow> mem \<Rightarrow> mem \<Rightarrow> bool" where
  "lost disks bytes js zp ptrs m0 m \<longleftrightarrow>
     stripe_ok disks bytes ptrs m0 \<and> stripe_ok disks bytes ptrs m \<and> disks \<le> 257 \<and>
     synced disks bytes ptrs m0 \<and>
     bytes \<le> length (m zp) \<and> (\<forall>i<bytes. m zp ! i = 0) \<and>
     (\<forall>j\<in>js. ptrs ! j \<noteq> zp \<and> (\<forall>z<disks. z \<noteq> j \<longrightarrow> ptrs ! z \<noteq> ptrs ! j)) \<and>
     (\<forall>a. a \<notin> (!) ptrs ` js \<longrightarrow> m a = m0 a)"

definition restored :: "nat \<Rightarrow> addr list \<Rightarrow> mem \<Rightarrow> mem \<Rightarrow> mem" where
  "restored bytes as m0 m = (\<lambda>a. if a \<in> set as then put (m a) 0 (take bytes (m0 a)) else m a)"

lemma lostD:
  assumes "lost disks bytes js zp ptrs m0 m"
  shows "stripe_ok disks bytes ptrs m0" "stripe_ok disks bytes ptrs m" "disks \<le> 257"
    "synced disks bytes ptrs m0" "bytes \<le> length (m zp)" "i < bytes \<Longrightarrow> m zp ! i = 0"
    "j \<in> js \<Longrightarrow> ptrs ! j \<noteq> zp"
    "j \<in> js \<Longrightarrow> z < disks \<Longrightarrow> z \<noteq> j \<Longrightarrow> ptrs ! z \<noteq> ptrs ! j"
    "a \<notin> (!) ptrs ` js \<Longrightarrow> m a = m0 a"
  using assms by (auto simp: lost_def)

section \<open>Algebra of two lost pages\<close>

lemma xsum_two:
  assumes "a < n" "b < n" "a \<noteq> b"
  shows "xsum n f = f a XOR (f b XOR xsum n (f(a := 0, b := 0)))"
  using assms xsum_remove [of a n f] xsum_remove [of b n "f(a := 0)"] by simp

lemma recover_b:
  assumes ab: "a < b" "b < 255" and "px = x XOR y" "qx = gfmul (gexp a) x XOR gfmul (gexp b) y"
  shows "gfmul (raid6_gfexi ! (b - a)) px XOR
    gfmul (raid6_gfinv ! unat (raid6_gfexp ! a XOR raid6_gfexp ! b)) qx = y"
proof -
  have ne: "gexp a \<noteq> gexp b" using ab by (simp add: gexp_eq_iff)
  have fac: "gfmul (gexp a) (gexp (b - a) XOR 1) = gexp a XOR gexp b"
    using ab by (simp add: gfmul_xor_right gfmul_gexp ac_simps)
  have nz: "gexp a XOR gexp b \<noteq> 0" using ne by (metis xor_self_cancel xor.right_neutral)
  have "gfmul (gexp (b - a) XOR 1) (gfmul (gexp a) (gfpow (gexp a XOR gexp b) 254)) = 1"
    (is "gfmul ?c (gfmul _ ?i) = 1")
  proof -
    have "gfmul ?c (gfmul (gexp a) ?i) = gfmul (gfmul (gexp a) ?c) ?i"
      by (simp only: gf.mul_ac)
    then show ?thesis by (simp only: fac gf.mul_inv [OF nz])
  qed
  then have "gfpow (gexp (b - a) XOR 1) 254 = gfmul (gexp a) (gfpow (gexp a XOR gexp b) 254)"
    by (rule gf.inv_unique)
  with gf.solve_two [OF ne assms(3,4)] ab show ?thesis
    by (simp add: nth_raid6_gfexi nth_raid6_gfexp nth_raid6_gfinv)
qed

lemma recover_a:
  assumes "a < 255"
  shows "gfmul (raid6_gfinv ! unat (raid6_gfexp ! a)) (gfmul (gexp a) x) = x"
  using assms gf.mul_cancel [OF gexp_neq_0] by (simp add: nth_raid6_gfexp nth_raid6_gfinv)

section \<open>The syndrome over the surviving pages\<close>

text \<open>A pointer table is usable when its pages are long enough and the last two are not shared.\<close>

lemma stripe_okI:
  assumes "length ptrs = disks" "4 \<le> disks" "bytes + 256 \<le> 2 ^ 31"
    and "\<And>z. z < disks \<Longrightarrow> bytes \<le> length (m (ptrs ! z))"
    and "\<And>z. z < disks - 1 \<Longrightarrow> ptrs ! z \<noteq> ptrs ! (disks - 1)"
    and "\<And>z. z < disks - 2 \<Longrightarrow> ptrs ! z \<noteq> ptrs ! (disks - 2)"
  shows "stripe_ok disks bytes ptrs m"
  unfolding stripe_ok_def
proof (intro conjI ballI allI impI)
  show "bytes \<le> length (m a)" if "a \<in> set ptrs" for a
    using that assms(1,4) by (metis in_set_conv_nth)
qed (use assms in simp_all)

lemma stripe_ok_dead2:
  assumes l: "lost disks bytes {a, b} zp ptrs m0 m" and ab: "a < b" "b < disks - 2"
  shows "stripe_ok disks bytes
    (ptrs[a := zp, disks - 2 := ptrs ! a, b := zp, disks - 1 := ptrs ! b]) m" (is "stripe_ok _ _ ?p m")
proof (rule stripe_okI)
  have n: "length ptrs = disks" "4 \<le> disks" using stripe_ok_disks [OF lostD(2) [OF l]] by auto
  then show "length ?p = disks" "4 \<le> disks" by simp_all
  show "bytes + 256 \<le> 2 ^ 31" using lostD(2) [OF l] by (simp only: stripe_ok_def)
  have nth: "?p ! z = (if z = disks - 1 then ptrs ! b else if z = disks - 2 then ptrs ! a
      else if z = a \<or> z = b then zp else ptrs ! z)" if "z < disks" for z
    using that n ab by (simp add: nth_list_update)
  show "bytes \<le> length (m (?p ! z))" if "z < disks" for z
    using that ab n lostD(5) [OF l] stripe_ok_length [OF lostD(2) [OF l]] by (simp only: nth) auto
  have lone: "zp \<noteq> ptrs ! j" "z < disks \<Longrightarrow> z \<noteq> j \<Longrightarrow> ptrs ! z \<noteq> ptrs ! j" if "j = a \<or> j = b" for j z
    using that lostD(7) [OF l, of j] lostD(8) [OF l, of j] by auto
  show "?p ! z \<noteq> ?p ! (disks - 1)" if "z < disks - 1" for z
  proof -
    from that n have "z < disks" "disks - 1 < disks" by auto
    then show ?thesis using that ab n lone [of b] by (simp only: nth) auto
  qed
  show "?p ! z \<noteq> ?p ! (disks - 2)" if "z < disks - 2" for z
  proof -
    from that n have "z < disks" "disks - 2 < disks" by auto
    then show ?thesis using that ab n lone [of a] by (simp only: nth) auto
  qed
qed

lemma stripe_ok_deadp:
  assumes l: "lost disks bytes {a, disks - 2} zp ptrs m0 m" and a: "a < disks - 2"
  shows "stripe_ok disks bytes (ptrs[a := zp, disks - 1 := ptrs ! a]) m" (is "stripe_ok _ _ ?p m")
proof (rule stripe_okI)
  have n: "length ptrs = disks" "4 \<le> disks" using stripe_ok_disks [OF lostD(2) [OF l]] by auto
  then show "length ?p = disks" "4 \<le> disks" by simp_all
  show "bytes + 256 \<le> 2 ^ 31" using lostD(2) [OF l] by (simp only: stripe_ok_def)
  have nth: "?p ! z = (if z = disks - 1 then ptrs ! a else if z = a then zp else ptrs ! z)"
    if "z < disks" for z
    using that n a by (simp add: nth_list_update)
  show "bytes \<le> length (m (?p ! z))" if "z < disks" for z
    using that a n lostD(5) [OF l] stripe_ok_length [OF lostD(2) [OF l]] by (simp only: nth) auto
  have lone: "zp \<noteq> ptrs ! j" "z < disks \<Longrightarrow> z \<noteq> j \<Longrightarrow> ptrs ! z \<noteq> ptrs ! j"
    if "j = a \<or> j = disks - 2" for j z
    using that lostD(7) [OF l, of j] lostD(8) [OF l, of j] by auto
  show "?p ! z \<noteq> ?p ! (disks - 1)" if "z < disks - 1" for z
  proof -
    from that n have "z < disks" "disks - 1 < disks" by auto
    then show ?thesis using that a n lone [of a] by (simp only: nth) auto
  qed
  show "?p ! z \<noteq> ?p ! (disks - 2)" if "z < disks - 2" for z
  proof -
    from that n have "z < disks" "disks - 2 < disks" by auto
    then show ?thesis using that a n lone [of "disks - 2"] by (simp only: nth) auto
  qed
qed

context raid6_gen
begin

lemma dead2:
  assumes r: "entry r" and l: "lost disks bytes {a, b} zp ptrs m0 m" and ab: "a < b" "b < disks - 2"
    and w: "width dvd bytes"
  obtains f g where
    "gen r disks bytes (ptrs[a := zp, disks - 2 := ptrs ! a, b := zp, disks - 1 := ptrs ! b]) m =
      m(ptrs ! a := put (m (ptrs ! a)) 0 (map f [0..<bytes]),
        ptrs ! b := put (m (ptrs ! b)) 0 (map g [0..<bytes]))"
    "\<And>i. i < bytes \<Longrightarrow> m (ptrs ! (disks - 2)) ! i XOR f i = m0 (ptrs ! a) ! i XOR m0 (ptrs ! b) ! i"
    "\<And>i. i < bytes \<Longrightarrow> m (ptrs ! (disks - 1)) ! i XOR g i =
       gfmul (gexp a) (m0 (ptrs ! a) ! i) XOR gfmul (gexp b) (m0 (ptrs ! b) ! i)"
proof -
  let ?ptrs = "ptrs[a := zp, disks - 2 := ptrs ! a, b := zp, disks - 1 := ptrs ! b]"
  let ?k = "disks - 2" and ?D = "\<lambda>i z. m0 (ptrs ! z) ! i"
  have n: "length ptrs = disks" "4 \<le> disks" using stripe_ok_disks [OF lostD(2) [OF l]] by auto
  have idx: "a < ?k" "b < ?k" "a \<noteq> b" using ab by auto
  have data: "m (?ptrs ! z) ! i = ((?D i)(a := 0, b := 0)) z" if "z < ?k" "i < bytes" for z i
    using that ab n lostD(6,8,9) [OF l] by (auto simp: nth_list_update)
  have pq: "m (ptrs ! (disks - 2)) = m0 (ptrs ! (disks - 2))" "m (ptrs ! (disks - 1)) = m0 (ptrs ! (disks - 1))"
    using ab n lostD(8) [OF l] by (intro lostD(9) [OF l]; auto)+
  have f: "pbyte 0 ?k ?ptrs m i = xsum ?k ((?D i)(a := 0, b := 0))" if "i < bytes" for i
    unfolding pbyte_def xsum_range_0 using data that by (intro xsum_cong) auto
  have g: "qbyte 0 ?k ?ptrs m i = xsum ?k ((\<lambda>z. gfmul (gexp z) (?D i z))(a := 0, b := 0))"
    if "i < bytes" for i
    unfolding qbyte_def xsum_range_0 using data that by (intro xsum_cong) auto
  show thesis
  proof (rule that [of "pbyte 0 ?k ?ptrs m" "qbyte 0 ?k ?ptrs m"])
    show "gen r disks bytes ?ptrs m = m(ptrs ! a := put (m (ptrs ! a)) 0 (map (pbyte 0 ?k ?ptrs m) [0..<bytes]),
        ptrs ! b := put (m (ptrs ! b)) 0 (map (qbyte 0 ?k ?ptrs m) [0..<bytes]))"
      using ab n unfolding gen_syndrome [OF r stripe_ok_dead2 [OF l ab] w]
      by (simp add: gen_syndrome_spec_def Let_def nth_list_update)
  next
    fix i
    assume i: "i < bytes"
    have "m0 (ptrs ! ?k) ! i = xsum ?k (?D i)"
      "m0 (ptrs ! (disks - 1)) ! i = xsum ?k (\<lambda>z. gfmul (gexp z) (?D i z))"
      using lostD(4) [OF l] i by (simp_all add: synced_def pbyte_def qbyte_def)
    then show "m (ptrs ! ?k) ! i XOR pbyte 0 ?k ?ptrs m i = ?D i a XOR ?D i b"
      "m (ptrs ! (disks - 1)) ! i XOR qbyte 0 ?k ?ptrs m i =
        gfmul (gexp a) (?D i a) XOR gfmul (gexp b) (?D i b)"
      unfolding pq f [OF i] g [OF i]
      using xsum_two [OF idx, of "?D i"] xsum_two [OF idx, of "\<lambda>z. gfmul (gexp z) (?D i z)"]
      by (simp_all only: xor.assoc xor_self_eq xor.right_neutral)
  qed
qed

lemma deadp:
  assumes r: "entry r" and l: "lost disks bytes {a, disks - 2} zp ptrs m0 m" and a: "a < disks - 2"
    and w: "width dvd bytes"
  obtains f g where
    "gen r disks bytes (ptrs[a := zp, disks - 1 := ptrs ! a]) m =
      m(ptrs ! (disks - 2) := put (m (ptrs ! (disks - 2))) 0 (map f [0..<bytes]),
        ptrs ! a := put (m (ptrs ! a)) 0 (map g [0..<bytes]))"
    "\<And>i. i < bytes \<Longrightarrow> m0 (ptrs ! (disks - 2)) ! i = f i XOR m0 (ptrs ! a) ! i"
    "\<And>i. i < bytes \<Longrightarrow> m (ptrs ! (disks - 1)) ! i XOR g i = gfmul (gexp a) (m0 (ptrs ! a) ! i)"
proof -
  let ?ptrs = "ptrs[a := zp, disks - 1 := ptrs ! a]"
  let ?k = "disks - 2" and ?D = "\<lambda>i z. m0 (ptrs ! z) ! i"
  have n: "length ptrs = disks" "4 \<le> disks" using stripe_ok_disks [OF lostD(2) [OF l]] by auto
  have data: "m (?ptrs ! z) ! i = ((?D i)(a := 0)) z" if "z < ?k" "i < bytes" for z i
    using that a n lostD(6,8,9) [OF l] by (auto simp: nth_list_update)
  have q: "m (ptrs ! (disks - 1)) = m0 (ptrs ! (disks - 1))"
    using a n lostD(8) [OF l] by (intro lostD(9) [OF l]) auto
  have f: "pbyte 0 ?k ?ptrs m i = xsum ?k ((?D i)(a := 0))" if "i < bytes" for i
    unfolding pbyte_def xsum_range_0 using data that by (intro xsum_cong) auto
  have g: "qbyte 0 ?k ?ptrs m i = xsum ?k ((\<lambda>z. gfmul (gexp z) (?D i z))(a := 0))"
    if "i < bytes" for i
    unfolding qbyte_def xsum_range_0 using data that by (intro xsum_cong) auto
  show thesis
  proof (rule that [of "pbyte 0 ?k ?ptrs m" "qbyte 0 ?k ?ptrs m"])
    show "gen r disks bytes ?ptrs m = m(ptrs ! ?k := put (m (ptrs ! ?k)) 0 (map (pbyte 0 ?k ?ptrs m) [0..<bytes]),
        ptrs ! a := put (m (ptrs ! a)) 0 (map (qbyte 0 ?k ?ptrs m) [0..<bytes]))"
      using a n unfolding gen_syndrome [OF r stripe_ok_deadp [OF l a] w]
      by (simp add: gen_syndrome_spec_def Let_def nth_list_update)
  next
    fix i
    assume i: "i < bytes"
    have "m0 (ptrs ! ?k) ! i = xsum ?k (?D i)"
      "m0 (ptrs ! (disks - 1)) ! i = xsum ?k (\<lambda>z. gfmul (gexp z) (?D i z))"
      using lostD(4) [OF l] i by (simp_all add: synced_def pbyte_def qbyte_def)
    then show "m0 (ptrs ! ?k) ! i = pbyte 0 ?k ?ptrs m i XOR ?D i a"
      "m (ptrs ! (disks - 1)) ! i XOR qbyte 0 ?k ?ptrs m i = gfmul (gexp a) (?D i a)"
      unfolding q f [OF i] g [OF i]
      using xsum_remove [OF a, of "?D i"] xsum_remove [OF a, of "\<lambda>z. gfmul (gexp z) (?D i z)"]
      by (simp_all only: xor.assoc xor.commute [of "?D i a"] xor_self_eq xor.right_neutral)
  qed
qed

end

section \<open>The correction loops\<close>

text \<open>
  The value that a byte of the second lost page gets from the two syndrome differences, and
  what it takes for a loop that computes it, in runs of \<open>w\<close> bytes, to restore both pages.
\<close>

definition recov_b :: "nat \<Rightarrow> nat \<Rightarrow> u8 \<Rightarrow> u8 \<Rightarrow> u8" where
  "recov_b a b px qx = gfmul (raid6_gfexi ! (b - a)) px XOR
     gfmul (raid6_gfinv ! unat (raid6_gfexp ! a XOR raid6_gfexp ! b)) qx"

definition recov_a :: "nat \<Rightarrow> u8 \<Rightarrow> u8" where
  "recov_a a qx = gfmul (raid6_gfinv ! unat (raid6_gfexp ! a)) qx"

lemma put_same:
  "length ys = length zs \<Longrightarrow> d + length zs \<le> length xs \<Longrightarrow> put (put xs d ys) d zs = put xs d zs"
  by (auto simp: list_eq_iff_nth_eq nth_put)

lemma map_nth_take: "n \<le> length xs \<Longrightarrow> map ((!) xs) [0..<n] = take n xs"
  by (auto simp: list_eq_iff_nth_eq)

text \<open>
  Both lost pages first get the syndrome difference with the pages that are left (\<open>f\<close>, \<open>g\<close>
  are those of lemma \<open>dead2\<close>); one turn of the loop turns a run of these into data.
\<close>

lemma finish2:
  fixes mm :: "'s \<Rightarrow> mem"
  assumes l: "lost disks bytes {a, b} zp ptrs m0 m" and ab: "a < b" "b < disks - 2"
    and w: "0 < w" "w dvd bytes"
    and dp: "dp = ptrs ! a" and dq: "dq = ptrs ! b"
    and p: "p = ptrs ! (disks - 2)" and q: "q = ptrs ! (disks - 1)"
    and px: "\<And>i. i < bytes \<Longrightarrow> m p ! i XOR f i = m0 dp ! i XOR m0 dq ! i"
    and qx: "\<And>i. i < bytes \<Longrightarrow> m q ! i XOR g i =
        gfmul (gexp a) (m0 dp ! i) XOR gfmul (gexp b) (m0 dq ! i)"
    and init: "I s" "mm s = m(dp := put (m dp) 0 (map f [0..<bytes]),
                             dq := put (m dq) 0 (map g [0..<bytes]))"
    and turn: "\<And>d s m'. d + w \<le> bytes \<Longrightarrow> I s \<Longrightarrow> mm s = m' \<Longrightarrow> dp \<noteq> dq \<Longrightarrow>
        p \<noteq> dp \<Longrightarrow> p \<noteq> dq \<Longrightarrow> q \<noteq> dp \<Longrightarrow> q \<noteq> dq \<Longrightarrow>
        (\<And>x. x \<in> {p, q, dp, dq} \<Longrightarrow> d + w \<le> length (m' x)) \<Longrightarrow>
        I (body d s) \<and> mm (body d s) =
          m'(dp := put (m' dp) d (map (\<lambda>i. recov_b a b (m' p ! i XOR m' dp ! i) (m' q ! i XOR m' dq ! i)
                     XOR (m' p ! i XOR m' dp ! i)) [d..<d + w]),
             dq := put (m' dq) d (map (\<lambda>i. recov_b a b (m' p ! i XOR m' dp ! i)
                     (m' q ! i XOR m' dq ! i)) [d..<d + w]))"
  shows "mm (for_step 0 bytes w body s) = restored bytes [dp, dq] m0 m"
proof -
  let ?m1 = "m(dp := put (m dp) 0 (map f [0..<bytes]), dq := put (m dq) 0 (map g [0..<bytes]))"
  have n: "4 \<le> disks" "b < 255" using stripe_ok_disks [OF lostD(2) [OF l]] lostD(3) [OF l] ab by auto
  have ne: "dp \<noteq> dq" "p \<noteq> dp" "p \<noteq> dq" "q \<noteq> dp" "q \<noteq> dq"
    using lostD(8) [OF l, of a] lostD(8) [OF l, of b] ab n by (auto simp: dp dq p q)
  have len: "bytes \<le> length (m x)" "bytes \<le> length (m0 x)" if "x \<in> {p, q, dp, dq}" for x
    using that stripe_ok_length [OF lostD(2) [OF l]] stripe_ok_length [OF lostD(1) [OF l]] ab n
    by (auto simp: dp dq p q)
  have len_dp: "bytes \<le> length (m dp)" "bytes \<le> length (m0 dp)"
    and len_dq: "bytes \<le> length (m dq)" "bytes \<le> length (m0 dq)" using len by auto
  have "mm (for_step 0 bytes w body s) = ?m1(dp := put (?m1 dp) 0 (map ((!) (m0 dp)) [0..<bytes]),
      dq := put (?m1 dq) 0 (map ((!) (m0 dq)) [0..<bytes]))"
  proof (rule two_page_loop [where I = I and mm = mm, OF ne(1) _ _ w init])
    show "bytes \<le> length (?m1 dp)" "bytes \<le> length (?m1 dq)" using len_dp len_dq ne by auto
  next
    fix d s m'
    assume d: "d + w \<le> bytes" and s: "I s" "mm s = m'" and len': "\<And>x. length (m' x) = length (?m1 x)"
      and frame: "\<And>x. x \<noteq> dp \<Longrightarrow> x \<noteq> dq \<Longrightarrow> m' x = ?m1 x"
      and same: "\<And>i. d \<le> i \<Longrightarrow> i < bytes \<Longrightarrow> m' dp ! i = ?m1 dp ! i"
        "\<And>i. d \<le> i \<Longrightarrow> i < bytes \<Longrightarrow> m' dq ! i = ?m1 dq ! i"
    have "length (m' x) = length (m x)" for x using len' len_dp len_dq by simp
    then have lenw: "\<And>x. x \<in> {p, q, dp, dq} \<Longrightarrow> d + w \<le> length (m' x)"
      using len d by fastforce
    have "m' p ! i XOR m' dp ! i = m0 dp ! i XOR m0 dq ! i"
      "m' q ! i XOR m' dq ! i = gfmul (gexp a) (m0 dp ! i) XOR gfmul (gexp b) (m0 dq ! i)"
      if "d \<le> i" "i < d + w" for i
      using that d same frame ne px [of i] qx [of i] len_dp len_dq by (auto simp: nth_put)
    then have "recov_b a b (m' p ! i XOR m' dp ! i) (m' q ! i XOR m' dq ! i) = m0 dq ! i"
      "m0 dq ! i XOR (m' p ! i XOR m' dp ! i) = m0 dp ! i" if "d \<le> i" "i < d + w" for i
      using that recover_b [OF ab(1) n(2)] by (simp_all add: recov_b_def ac_simps)
    then have "map (\<lambda>i. recov_b a b (m' p ! i XOR m' dp ! i) (m' q ! i XOR m' dq ! i)
          XOR (m' p ! i XOR m' dp ! i)) [d..<d + w] = map ((!) (m0 dp)) [d..<d + w]"
      "map (\<lambda>i. recov_b a b (m' p ! i XOR m' dp ! i) (m' q ! i XOR m' dq ! i)) [d..<d + w] =
        map ((!) (m0 dq)) [d..<d + w]"
      by simp_all
    with turn [OF d s ne lenw]
    show "I (body d s) \<and> mm (body d s) = m'(dp := put (m' dp) d (map ((!) (m0 dp)) [d..<d + w]),
        dq := put (m' dq) d (map ((!) (m0 dq)) [d..<d + w]))" by simp
  qed
  also have "\<dots> = restored bytes [dp, dq] m0 m"
    using ne len_dp len_dq by (auto simp: restored_def fun_eq_iff put_same map_nth_take)
  finally show ?thesis .
qed

lemma finishp:
  fixes mm :: "'s \<Rightarrow> mem"
  assumes l: "lost disks bytes {a, disks - 2} zp ptrs m0 m" and a: "a < disks - 2"
    and w: "0 < w" "w dvd bytes"
    and dq: "dq = ptrs ! a" and p: "p = ptrs ! (disks - 2)" and q: "q = ptrs ! (disks - 1)"
    and px: "\<And>i. i < bytes \<Longrightarrow> m0 p ! i = f i XOR m0 dq ! i"
    and qx: "\<And>i. i < bytes \<Longrightarrow> m q ! i XOR g i = gfmul (gexp a) (m0 dq ! i)"
    and init: "I s" "mm s = m(p := put (m p) 0 (map f [0..<bytes]),
                             dq := put (m dq) 0 (map g [0..<bytes]))"
    and turn: "\<And>d s m'. d + w \<le> bytes \<Longrightarrow> I s \<Longrightarrow> mm s = m' \<Longrightarrow> p \<noteq> dq \<Longrightarrow> q \<noteq> p \<Longrightarrow> q \<noteq> dq \<Longrightarrow>
        (\<And>x. x \<in> {p, q, dq} \<Longrightarrow> d + w \<le> length (m' x)) \<Longrightarrow>
        I (body d s) \<and> mm (body d s) =
          m'(p := put (m' p) d (map (\<lambda>i. m' p ! i XOR recov_a a (m' q ! i XOR m' dq ! i)) [d..<d + w]),
             dq := put (m' dq) d (map (\<lambda>i. recov_a a (m' q ! i XOR m' dq ! i)) [d..<d + w]))"
  shows "mm (for_step 0 bytes w body s) = restored bytes [p, dq] m0 m"
proof -
  let ?m1 = "m(p := put (m p) 0 (map f [0..<bytes]), dq := put (m dq) 0 (map g [0..<bytes]))"
  have n: "4 \<le> disks" "a < 255" using stripe_ok_disks [OF lostD(2) [OF l]] lostD(3) [OF l] a by auto
  have ne: "p \<noteq> dq" "q \<noteq> p" "q \<noteq> dq"
    using lostD(8) [OF l, of a] lostD(8) [OF l, of "disks - 2"] a n by (auto simp: dq p q)
  have len: "bytes \<le> length (m x)" "bytes \<le> length (m0 x)" if "x \<in> {p, q, dq}" for x
    using that stripe_ok_length [OF lostD(2) [OF l]] stripe_ok_length [OF lostD(1) [OF l]] a n
    by (auto simp: dq p q)
  have len_p: "bytes \<le> length (m p)" "bytes \<le> length (m0 p)"
    and len_dq: "bytes \<le> length (m dq)" "bytes \<le> length (m0 dq)" using len by auto
  have "mm (for_step 0 bytes w body s) = ?m1(p := put (?m1 p) 0 (map ((!) (m0 p)) [0..<bytes]),
      dq := put (?m1 dq) 0 (map ((!) (m0 dq)) [0..<bytes]))"
  proof (rule two_page_loop [where I = I and mm = mm, OF ne(1) _ _ w init])
    show "bytes \<le> length (?m1 p)" "bytes \<le> length (?m1 dq)" using len_p len_dq ne by auto
  next
    fix d s m'
    assume d: "d + w \<le> bytes" and s: "I s" "mm s = m'" and len': "\<And>x. length (m' x) = length (?m1 x)"
      and frame: "\<And>x. x \<noteq> p \<Longrightarrow> x \<noteq> dq \<Longrightarrow> m' x = ?m1 x"
      and same: "\<And>i. d \<le> i \<Longrightarrow> i < bytes \<Longrightarrow> m' p ! i = ?m1 p ! i"
        "\<And>i. d \<le> i \<Longrightarrow> i < bytes \<Longrightarrow> m' dq ! i = ?m1 dq ! i"
    have "length (m' x) = length (m x)" for x using len' len_p len_dq by simp
    then have lenw: "\<And>x. x \<in> {p, q, dq} \<Longrightarrow> d + w \<le> length (m' x)"
      using len d by fastforce
    have "m' p ! i = f i" "m' q ! i XOR m' dq ! i = gfmul (gexp a) (m0 dq ! i)"
      if "d \<le> i" "i < d + w" for i
      using that d same frame ne qx [of i] len_p len_dq by (auto simp: nth_put)
    then have "recov_a a (m' q ! i XOR m' dq ! i) = m0 dq ! i" "m' p ! i XOR m0 dq ! i = m0 p ! i"
      if "d \<le> i" "i < d + w" for i
      using that d px [of i] recover_a [OF n(2)] by (simp_all add: recov_a_def)
    then have "map (\<lambda>i. m' p ! i XOR recov_a a (m' q ! i XOR m' dq ! i)) [d..<d + w] =
        map ((!) (m0 p)) [d..<d + w]"
      "map (\<lambda>i. recov_a a (m' q ! i XOR m' dq ! i)) [d..<d + w] = map ((!) (m0 dq)) [d..<d + w]"
      by simp_all
    with turn [OF d s ne lenw]
    show "I (body d s) \<and> mm (body d s) = m'(p := put (m' p) d (map ((!) (m0 p)) [d..<d + w]),
        dq := put (m' dq) d (map ((!) (m0 dq)) [d..<d + w]))" by simp
  qed
  also have "\<dots> = restored bytes [p, dq] m0 m"
    using ne len_p len_dq by (auto simp: restored_def fun_eq_iff put_same map_nth_take)
  finally show ?thesis .
qed

section \<open>The contract of the recovery routines\<close>

lemma restored_take:
  assumes "a \<in> set as \<or> m a = m0 a" "bytes \<le> length (m a)" "bytes \<le> length (m0 a)"
  shows "take bytes (restored bytes as m0 m a) = take bytes (m0 a)"
  using assms by (auto simp: restored_def list_eq_iff_nth_eq nth_put)

locale raid6_recov =
  fixes data2 :: "'r \<Rightarrow> nat \<Rightarrow> nat \<Rightarrow> nat \<Rightarrow> nat \<Rightarrow> addr list \<Rightarrow> mem \<Rightarrow>
      (addr list \<times> mem) option"
    and datap :: "'r \<Rightarrow> nat \<Rightarrow> nat \<Rightarrow> nat \<Rightarrow> addr list \<Rightarrow> mem \<Rightarrow>
      (addr list \<times> mem) option"
    and entry :: "'r \<Rightarrow> bool" and width :: nat and zp :: addr
  assumes data2: "entry r \<Longrightarrow> lost disks bytes {a, b} zp ptrs m0 m \<Longrightarrow> a < b \<Longrightarrow> b < disks - 2 \<Longrightarrow>
      width dvd bytes \<Longrightarrow>
      data2 r disks bytes a b ptrs m = Some (ptrs, restored bytes [ptrs ! a, ptrs ! b] m0 m)"
    and datap: "entry r \<Longrightarrow> lost disks bytes {a, disks - 2} zp ptrs m0 m \<Longrightarrow> a < disks - 2 \<Longrightarrow>
      width dvd bytes \<Longrightarrow>
      datap r disks bytes a ptrs m = Some (ptrs, restored bytes [ptrs ! (disks - 2), ptrs ! a] m0 m)"
begin

text \<open>After recovery the whole stripe reads as before the loss.\<close>

lemma data2_stripe:
  assumes "entry r" and l: "lost disks bytes {a, b} zp ptrs m0 m" and "a < b" "b < disks - 2"
    and "width dvd bytes" and z: "z < disks"
  shows "take bytes (snd (the (data2 r disks bytes a b ptrs m)) (ptrs ! z)) = take bytes (m0 (ptrs ! z))"
  unfolding data2 [OF assms(1-5)] option.sel snd_conv
  using lostD(9) [OF l, of "ptrs ! z"] stripe_ok_length [OF lostD(2) [OF l] z]
    stripe_ok_length [OF lostD(1) [OF l] z]
  by (intro restored_take) auto

lemma datap_stripe:
  assumes "entry r" and l: "lost disks bytes {a, disks - 2} zp ptrs m0 m" and "a < disks - 2"
    and "width dvd bytes" and z: "z < disks"
  shows "take bytes (snd (the (datap r disks bytes a ptrs m)) (ptrs ! z)) = take bytes (m0 (ptrs ! z))"
  unfolding datap [OF assms(1-4)] option.sel snd_conv
  using lostD(9) [OF l, of "ptrs ! z"] stripe_ok_length [OF lostD(2) [OF l] z]
    stripe_ok_length [OF lostD(1) [OF l] z]
  by (intro restored_take) auto

end

section \<open>The integer routines meet the contract\<close>

lemma restore_table2:
  assumes "length ptrs = disks" "a < b" "b < disks - 2"
  shows "ptrs[a := x, disks - 2 := x2, b := y, disks - 1 := y2, a := ptrs ! a, b := ptrs ! b,
    disks - 2 := ptrs ! (disks - 2), disks - 1 := ptrs ! (disks - 1)] = ptrs"
  using assms by (auto simp: list_eq_iff_nth_eq nth_list_update)

lemma restore_tablep:
  assumes "length ptrs = disks" "a < disks - 2"
  shows "ptrs[a := x, disks - 1 := y, a := ptrs ! a, disks - 1 := ptrs ! (disks - 1)] = ptrs"
  using assms by (auto simp: list_eq_iff_nth_eq nth_list_update)

lemma put_one: "Suc d \<le> length xs \<Longrightarrow> put xs d [x] = xs[d := x]"
  by (auto simp: list_eq_iff_nth_eq nth_put nth_list_update)

lemma nth_update_here: "Suc d \<le> length xs \<Longrightarrow> xs[d := x] ! d = x"
  by simp

sublocale raid6_gen \<subseteq> intx1: raid6_recov 
  "\<lambda>r disks bytes a b ptrs m. Some (raid6_2data_recov_intx1 (gen r) zp disks bytes a b ptrs m)"
  "\<lambda>r disks bytes a ptrs m. Some (raid6_datap_recov_intx1 (gen r) zp disks bytes a ptrs m)"
  entry width zp for zp
proof
  fix r disks bytes a b ptrs m0 m
  assume r: "entry r" and l: "lost disks bytes {a, b} zp ptrs m0 m" and ab: "a < b" "b < disks - 2"
    and w: "width dvd bytes"
  have n: "length ptrs = disks" using stripe_ok_disks [OF lostD(2) [OF l]] by auto
  have nth: "ptrs[a := zp, disks - 2 := ptrs ! a] ! b = ptrs ! b" using ab n by simp
  obtain f g where gen: "gen r disks bytes
      (ptrs[a := zp, disks - 2 := ptrs ! a, b := zp, disks - 1 := ptrs ! b]) m =
      m(ptrs ! a := put (m (ptrs ! a)) 0 (map f [0..<bytes]),
        ptrs ! b := put (m (ptrs ! b)) 0 (map g [0..<bytes]))"
    and fg: "\<And>i. i < bytes \<Longrightarrow> m (ptrs ! (disks - 2)) ! i XOR f i = m0 (ptrs ! a) ! i XOR m0 (ptrs ! b) ! i"
    "\<And>i. i < bytes \<Longrightarrow> m (ptrs ! (disks - 1)) ! i XOR g i =
       gfmul (gexp a) (m0 (ptrs ! a) ! i) XOR gfmul (gexp b) (m0 (ptrs ! b) ! i)"
    using dead2 [OF r l ab w] by blast
  show "Some (raid6_2data_recov_intx1 (gen r) zp disks bytes a b ptrs m) =
      Some (ptrs, restored bytes [ptrs ! a, ptrs ! b] m0 m)"
    unfolding raid6_2data_recov_intx1_def Let_def nth gen restore_table2 [OF n ab]
    by (rule arg_cong [where f = "\<lambda>m. Some (ptrs, m)"],
        rule finish2 [where mm = "\<lambda>m. m" and I = "\<lambda>_. True", OF l ab _ _ refl refl refl refl fg])
      (auto simp: put_one recov_b_def fun_eq_iff)
next
  fix r disks bytes a ptrs m0 m
  assume r: "entry r" and l: "lost disks bytes {a, disks - 2} zp ptrs m0 m" and a: "a < disks - 2"
    and w: "width dvd bytes"
  have n: "length ptrs = disks" using stripe_ok_disks [OF lostD(2) [OF l]] by auto
  obtain f g where gen: "gen r disks bytes (ptrs[a := zp, disks - 1 := ptrs ! a]) m =
      m(ptrs ! (disks - 2) := put (m (ptrs ! (disks - 2))) 0 (map f [0..<bytes]),
        ptrs ! a := put (m (ptrs ! a)) 0 (map g [0..<bytes]))"
    and fg: "\<And>i. i < bytes \<Longrightarrow> m0 (ptrs ! (disks - 2)) ! i = f i XOR m0 (ptrs ! a) ! i"
    "\<And>i. i < bytes \<Longrightarrow> m (ptrs ! (disks - 1)) ! i XOR g i = gfmul (gexp a) (m0 (ptrs ! a) ! i)"
    using deadp [OF r l a w] by blast
  show "Some (raid6_datap_recov_intx1 (gen r) zp disks bytes a ptrs m) =
      Some (ptrs, restored bytes [ptrs ! (disks - 2), ptrs ! a] m0 m)"
    unfolding raid6_datap_recov_intx1_def Let_def gen restore_tablep [OF n a]
    by (rule arg_cong [where f = "\<lambda>m. Some (ptrs, m)"],
        rule finishp [where mm = "\<lambda>m. m" and I = "\<lambda>_. True", OF l a _ _ refl refl refl fg])
      (auto simp: put_one nth_update_here recov_a_def fun_eq_iff)
qed

section \<open>The dispatch on the pair of failed slots\<close>

context raid6_gen
begin

lemma intx1_recov: "raid6_recov
    (\<lambda>r disks bytes a b ptrs m. Some (raid6_2data_recov_intx1 (gen r) zp disks bytes a b ptrs m))
    (\<lambda>r disks bytes a ptrs m. Some (raid6_datap_recov_intx1 (gen r) zp disks bytes a ptrs m))
    entry width zp"
  by (rule intx1.raid6_recov_axioms)

lemma dual_recov_pq:
  assumes "entry r" "stripe_ok disks bytes ptrs m" "width dvd bytes"
  shows "raid6_dual_recov (gen r) data2 datap disks bytes (disks - 1) (disks - 2) ptrs m =
      Some (ptrs, gen_syndrome_spec disks bytes ptrs m)"
  using assms stripe_ok_disks [OF assms(2)] by (auto simp: raid6_dual_recov_def gen_syndrome)

lemma dual_recov_data2:
  assumes "raid6_recov data2 datap entry width zp"
    and "entry r" "lost disks bytes {a, b} zp ptrs m0 m" "a \<noteq> b" "a < disks - 2" "b < disks - 2"
    and "width dvd bytes"
  shows "raid6_dual_recov (gen r) (data2 r) (datap r) disks bytes a b ptrs m =
      Some (ptrs, restored bytes [ptrs ! a, ptrs ! b] m0 m)"
proof -
  have "a < b \<or> b < a" using assms(4) by auto
  then show ?thesis
    using assms raid6_recov.data2 [OF assms(1,2), of disks bytes a b ptrs m0 m]
      raid6_recov.data2 [OF assms(1,2), of disks bytes b a ptrs m0 m]
    by (auto simp: raid6_dual_recov_def insert_commute restored_def)
qed

end

end
