(* ===== verification/Simd_Recov.thy ===== *)
theory Simd_Recov
  imports Simd_Kernel Raid6_Recov
begin

text \<open>
  What the vectorised recovery routines of \<^verbatim>\<open>raid6/recov_ssse3.c\<close>, \<^verbatim>\<open>recov_avx2.c\<close> and
  \<^verbatim>\<open>recov_avx512.c\<close> share: multiplication of every byte by a constant with two byte
  shuffles, one for each half of the byte, in the tables of \<^verbatim>\<open>raid6_vgfmul\<close>; and the
  contract of the correction loop.
\<close>

section \<open>The room for the correction loop\<close>

definition shortest :: "mem \<Rightarrow> addr list \<Rightarrow> nat" where
  "shortest m as = min_list (map (\<lambda>a. length (m a)) as)"

lemma le_shortest: "as \<noteq> [] \<Longrightarrow> n \<le> shortest m as \<longleftrightarrow> (\<forall>a\<in>set as. n \<le> length (m a))"
  by (simp add: shortest_def min_list_Min)

lemma shortest_stripe:
  assumes "stripe_ok disks bytes ptrs m" "js \<noteq> []" "\<forall>j\<in>set js. j < disks"
  shows "bytes \<le> shortest m (map ((!) ptrs) js)"
  using assms stripe_ok_length [OF assms(1)] by (simp add: le_shortest)

section \<open>Multiplication by nibbles\<close>

lemma length_psraw [simp]: "length (psraw n v) = length v"
  by (induction n v rule: psraw.induct) (simp_all add: Let_def)

lemma length_pshufb [simp]: "length (pshufb t x) = length x"
  by (simp add: pshufb_def)

lemma psraw_bytes:
  fixes a b :: u8 and x :: u16
  defines "x \<equiv> signed_drop_bit 4 (ucast a OR push_bit 8 (ucast b))"
  shows "ucast x AND 0x0f = drop_bit 4 a" "ucast (drop_bit 8 x) AND 0x0f = drop_bit 4 b"
proof -
  have "bit (ucast x AND 0x0f :: u8) n = bit (drop_bit 4 a) n" if "n < 8" for n
    using that [unfolded less_8_cases] unfolding x_def
    by (elim insertE emptyE; hypsubst) (simp_all add: bit_simps bit_signed_drop_bit_iff u8_no_bit)
  moreover have "bit (ucast (drop_bit 8 x) AND 0x0f :: u8) n = bit (drop_bit 4 b) n" if "n < 8" for n
    using that [unfolded less_8_cases] unfolding x_def
    by (elim insertE emptyE; hypsubst) (simp_all add: bit_simps bit_signed_drop_bit_iff u8_no_bit)
  ultimately show "ucast x AND 0x0f = drop_bit 4 a" "ucast (drop_bit 8 x) AND 0x0f = drop_bit 4 b"
    by (auto intro!: bit_word_eqI)
qed

lemma vand_psraw:
  "even (length v) \<Longrightarrow> length v = w \<Longrightarrow> vand (psraw 4 v) (replicate w 0x0f) = map (drop_bit 4) v"
proof (induction v arbitrary: w rule: induct_list012)
  case (3 a b xs)
  then obtain k where "w = Suc (Suc k)" "length xs = k" "even k" by auto
  with 3 show ?case by (simp add: vand_def Let_def psraw_bytes)
qed (simp_all add: vand_def)

text \<open>Both halves of a byte together give the byte, and the field product is linear.\<close>

lemma nibbles: "gfmul c (push_bit 4 (drop_bit 4 v)) XOR gfmul c (v AND 0x0f) = gfmul c v"
proof -
  have "push_bit 4 (drop_bit 4 v) XOR (v AND 0x0f) = v"
  proof (rule bit_word_eqI)
    fix n
    assume "n < LENGTH(8)"
    then have "n < 8" by simp
    then show "bit (push_bit 4 (drop_bit 4 v) XOR (v AND 0x0f)) n = bit v n"
      unfolding less_8_cases by (elim insertE emptyE; hypsubst; simp add: bit_simps)
  qed
  then show ?thesis by (simp flip: gfmul_xor_right)
qed

lemma nth_tile: "i < n * length t \<Longrightarrow> concat (replicate n t) ! i = t ! (i mod length t)"
proof (induction n arbitrary: i)
  case (Suc n)
  show ?case
  proof (cases "i < length t")
    case False
    then have "i mod length t = (i - length t) mod length t" by (simp add: le_mod_geq)
    with False Suc show ?thesis by (simp add: nth_append)
  qed (simp add: nth_append)
qed simp

lemma and_0f: "(v :: u8) AND 0x0f = take_bit 4 v"
  by (simp add: take_bit_eq_mask mask_eq_exp_minus_1)

lemma pshufb_tile:
  assumes w: "16 dvd w" "length x = w" and t: "length t = 16" and x: "\<And>i. i < w \<Longrightarrow> unat (x ! i) < 16"
  shows "pshufb (concat (replicate (w div 16) t)) x = map (\<lambda>v. t ! unat v) x"
proof (rule nth_equalityI)
  fix i
  assume "i < length (pshufb (concat (replicate (w div 16) t)) x)"
  then have i: "i < w" using w by simp
  obtain v where v: "x ! i = v" "unat v < 16" using x [OF i] by blast
  have "bit (unat v) 7 \<longleftrightarrow> bit v 7" by (simp add: bit_unsigned_iff)
  then have "\<not> bit v 7" using v(2) by (simp add: bit_iff_odd)
  moreover have "unat (v AND 0x0f) = unat v"
    using v(2) by (simp add: and_0f unsigned_take_bit_eq take_bit_nat_eq_self)
  moreover have "16 * (i div 16) + unat v < w div 16 * length t"
  proof -
    from w(1) obtain k where k: "w = 16 * k" by (auto elim: dvdE)
    with i have "i div 16 < k" by (simp add: less_mult_imp_div_less mult.commute)
    with k t v(2) show ?thesis by simp
  qed
  ultimately show "pshufb (concat (replicate (w div 16) t)) x ! i = map (\<lambda>v. t ! unat v) x ! i"
    using i v w t by (simp add: pshufb_def nth_tile)
qed (use w in simp)

lemma length_vgfmul [simp]: "length (raid6_vgfmul ! unat (c :: u8)) = 32"
  by (simp add: raid6_vgfmul_def)

lemma vgfmul_halves:
  "length (get (raid6_vgfmul ! unat c) 0 16) = 16" "length (get (raid6_vgfmul ! unat c) 16 16) = 16"
  "unat v < 16 \<Longrightarrow> get (raid6_vgfmul ! unat c) 0 16 ! unat v = gfmul c v"
  "unat v < 16 \<Longrightarrow> get (raid6_vgfmul ! unat c) 16 16 ! unat v = gfmul c (push_bit 4 v)"
proof -
  show "length (get (raid6_vgfmul ! unat c) 0 16) = 16" "length (get (raid6_vgfmul ! unat c) 16 16) = 16"
    by simp_all
  show "unat v < 16 \<Longrightarrow> get (raid6_vgfmul ! unat c) 0 16 ! unat v = gfmul c v"
    "unat v < 16 \<Longrightarrow> get (raid6_vgfmul ! unat c) 16 16 ! unat v = gfmul c (push_bit 4 v)"
    by (simp_all add: nth_raid6_vgfmul_low nth_raid6_vgfmul_high)
qed

lemma unat_and_15: "unat (v AND 0x0f :: u8) < 16"
  using take_bit_nat_less_exp [of 4 "unat v"] by (simp add: and_0f unsigned_take_bit_eq)

lemma unat_drop_4: "unat (drop_bit 4 v :: u8) < 16"
proof -
  have "unat (drop_bit 4 v) = unat v div 16"
    by (simp add: drop_bit_eq_div unat_div_distrib)
  then show ?thesis using unat_u8_less [of v] by (simp del: unat_u8_less)
qed

lemma nib_mul:
  assumes w: "16 dvd w" "length v = w"
  shows "vxor (pshufb (concat (replicate (w div 16) (get (raid6_vgfmul ! unat c) 16 16)))
        (vand (psraw 4 v) (replicate w 0x0f)))
      (pshufb (concat (replicate (w div 16) (get (raid6_vgfmul ! unat c) 0 16)))
        (vand v (replicate w 0x0f))) = map (gfmul c) v"
proof -
  have ev: "even (length v)" using w by auto
  have lo: "vand v (replicate w 0x0f) = map (\<lambda>b. b AND 0x0f) v"
    using w by (simp add: list_eq_iff_nth_eq)
  have "pshufb (concat (replicate (w div 16) (get (raid6_vgfmul ! unat c) 16 16))) (map (drop_bit 4) v) =
      map (\<lambda>b. get (raid6_vgfmul ! unat c) 16 16 ! unat b) (map (drop_bit 4) v)"
    using w by (intro pshufb_tile) (simp_all add: vgfmul_halves unat_drop_4)
  moreover have "pshufb (concat (replicate (w div 16) (get (raid6_vgfmul ! unat c) 0 16)))
        (map (\<lambda>b. b AND 0x0f) v) =
      map (\<lambda>b. get (raid6_vgfmul ! unat c) 0 16 ! unat b) (map (\<lambda>b. b AND 0x0f) v)"
    using w by (intro pshufb_tile) (simp_all add: vgfmul_halves unat_and_15)
  ultimately show ?thesis
    unfolding lo vand_psraw [OF ev w(2)]
    by (simp add: vgfmul_halves unat_and_15 unat_drop_4 list_eq_iff_nth_eq nibbles del: nth_get)
qed

lemmas nib_mul_16 = nib_mul [of 16, simplified]
lemmas nib_mul_32 = nib_mul [of 32, simplified]
lemmas nib_mul_64 = nib_mul [of 64, simplified]

section \<open>Correction kernels\<close>

text \<open>The registers in \<open>cs\<close> hold constants throughout the loop.\<close>

definition rstate :: "nat \<Rightarrow> (reg \<times> u8 list) list \<Rightarrow> mem \<Rightarrow> simd \<Rightarrow> bool" where
  "rstate w cs m s \<longleftrightarrow> wf_regs w s \<and> dram s = m \<and> (\<forall>(r, v)\<in>set cs. vreg s r = v)"

lemmas recov_simps = rstate_def wf_regs_def put_append offset_add

text \<open>
  \<open>n\<close> registers of \<open>w\<close> bytes are corrected in one turn. \<open>qm\<close> and \<open>pb\<close> are rows of
  \<^verbatim>\<open>raid6_vgfmul\<close>, for the multipliers \<open>c\<close> and \<open>e\<close>.
\<close>

locale recov2_kernel =
  fixes w :: nat and ls :: "(reg \<times> reg) list" and cs :: "u8 list \<Rightarrow> u8 list \<Rightarrow> (reg \<times> u8 list) list"
    and init :: "u8 list \<Rightarrow> u8 list \<Rightarrow> insn list"
    and step :: "u8 list \<Rightarrow> u8 list \<Rightarrow> addr \<Rightarrow> addr \<Rightarrow> addr \<Rightarrow> addr \<Rightarrow> nat \<Rightarrow> insn list"
  assumes width: "0 < w" "ls \<noteq> []"
    and init: "wf_regs w s \<Longrightarrow> qm = raid6_vgfmul ! unat c \<Longrightarrow> pb = raid6_vgfmul ! unat e \<Longrightarrow>
      rstate w (cs qm pb) (dram s) (asm w (init qm pb) s)"
    and step: "rstate w (cs qm pb) m s \<Longrightarrow> qm = raid6_vgfmul ! unat c \<Longrightarrow> pb = raid6_vgfmul ! unat e \<Longrightarrow>
      dp \<noteq> dq \<Longrightarrow> p \<noteq> dp \<Longrightarrow> p \<noteq> dq \<Longrightarrow> q \<noteq> dp \<Longrightarrow> q \<noteq> dq \<Longrightarrow>
      d + length ls * w \<le> length (m p) \<Longrightarrow> d + length ls * w \<le> length (m q) \<Longrightarrow>
      d + length ls * w \<le> length (m dp) \<Longrightarrow> d + length ls * w \<le> length (m dq) \<Longrightarrow>
      px = (\<lambda>x. vxor (get (m p) x w) (get (m dp) x w)) \<Longrightarrow>
      qx = (\<lambda>x. vxor (get (m q) x w) (get (m dq) x w)) \<Longrightarrow>
      db = (\<lambda>x. vxor (map (gfmul e) (px x)) (map (gfmul c) (qx x))) \<Longrightarrow>
      rstate w (cs qm pb) (m(dp := put (m dp) d (vcat w ls (\<lambda>x. vxor (px x) (db x)) d),
          dq := put (m dq) d (vcat w ls db d))) (asm w (step qm pb p q dp dq d) s)"
begin

abbreviation W where "W \<equiv> length ls * w"

lemma turn:
  fixes m dp dq p q c e
  defines "px \<equiv> \<lambda>i. m p ! i XOR m dp ! i" and "qx \<equiv> \<lambda>i. m q ! i XOR m dq ! i"
  assumes r: "rstate w (cs qm pb) m s" and tab: "qm = raid6_vgfmul ! unat c" "pb = raid6_vgfmul ! unat e"
    and ne: "dp \<noteq> dq" "p \<noteq> dp" "p \<noteq> dq" "q \<noteq> dp" "q \<noteq> dq"
    and len: "\<And>x. x \<in> {p, q, dp, dq} \<Longrightarrow> d + W \<le> length (m x)"
  shows "rstate w (cs qm pb)
     (m(dp := put (m dp) d (map (\<lambda>i. (gfmul e (px i) XOR gfmul c (qx i)) XOR px i) [d..<d + W]),
        dq := put (m dq) d (map (\<lambda>i. gfmul e (px i) XOR gfmul c (qx i)) [d..<d + W])))
     (asm w (step qm pb p q dp dq d) s)"
proof -
  let ?px = "\<lambda>x. vxor (get (m p) x w) (get (m dp) x w)"
  let ?qx = "\<lambda>x. vxor (get (m q) x w) (get (m dq) x w)"
  let ?db = "\<lambda>x. vxor (map (gfmul e) (?px x)) (map (gfmul c) (?qx x))"
  have lens: "d + W \<le> length (m p)" "d + W \<le> length (m q)" "d + W \<le> length (m dp)"
    "d + W \<le> length (m dq)" using len by auto
  have "vcat w ls (\<lambda>x. vxor (?px x) (?db x)) d =
      vcat w ls (\<lambda>x. map (\<lambda>i. (gfmul e (px i) XOR gfmul c (qx i)) XOR px i) [x..<x + w]) d"
    "vcat w ls ?db d = vcat w ls (\<lambda>x. map (\<lambda>i. gfmul e (px i) XOR gfmul c (qx i)) [x..<x + w]) d"
    by (rule vcat_cong, use lens in \<open>simp add: list_eq_iff_nth_eq px_def qx_def ac_simps\<close>)+
  with step [OF r tab ne lens refl refl refl] show ?thesis by (simp only: vcat_map)
qed

lemma recov2:
  assumes g: "raid6_gen gen entry width" and r: "entry r" and fpu: "wf_regs w fpu"
    and l: "lost disks bytes {a, b} zp ptrs m0 m" and ab: "a < b" "b < disks - 2"
    and wd: "width dvd bytes" "W dvd bytes"
    and tab: "qm = raid6_vgfmul ! unat (raid6_gfinv ! unat (raid6_gfexp ! a XOR raid6_gfexp ! b))"
      "pb = raid6_vgfmul ! unat (raid6_gfexi ! (b - a))"
  shows "map_option (\<lambda>s. (ptrs, dram s)) (while_bytes wrap
      (shortest m [ptrs ! (disks - 2), ptrs ! (disks - 1), ptrs ! a, ptrs ! b]) W 0 bytes
      (\<lambda>d s. asm w (step qm pb (ptrs ! (disks - 2)) (ptrs ! (disks - 1)) (ptrs ! a) (ptrs ! b) d) s)
      (asm w (init qm pb) (kernel_fpu_begin fpu (gen r disks bytes
        (ptrs[a := zp, disks - 2 := ptrs ! a, b := zp, disks - 1 := ptrs ! b]) m)))) =
    Some (ptrs, restored bytes [ptrs ! a, ptrs ! b] m0 m)"
proof -
  obtain f g where gen: "gen r disks bytes
      (ptrs[a := zp, disks - 2 := ptrs ! a, b := zp, disks - 1 := ptrs ! b]) m =
      m(ptrs ! a := put (m (ptrs ! a)) 0 (map f [0..<bytes]),
        ptrs ! b := put (m (ptrs ! b)) 0 (map g [0..<bytes]))"
    and fg: "\<And>i. i < bytes \<Longrightarrow> m (ptrs ! (disks - 2)) ! i XOR f i = m0 (ptrs ! a) ! i XOR m0 (ptrs ! b) ! i"
    "\<And>i. i < bytes \<Longrightarrow> m (ptrs ! (disks - 1)) ! i XOR g i =
       gfmul (gexp a) (m0 (ptrs ! a) ! i) XOR gfmul (gexp b) (m0 (ptrs ! b) ! i)"
    using raid6_gen.dead2 [OF g r l ab wd(1)] by blast
  let ?m1 = "m(ptrs ! a := put (m (ptrs ! a)) 0 (map f [0..<bytes]),
        ptrs ! b := put (m (ptrs ! b)) 0 (map g [0..<bytes]))"
  let ?s0 = "asm w (init qm pb) (kernel_fpu_begin fpu ?m1)"
  have W: "0 < W" using width by simp
  have room: "0 + bytes \<le> shortest m [ptrs ! (disks - 2), ptrs ! (disks - 1), ptrs ! a, ptrs ! b]"
  proof -
    have "a < disks" "b < disks" using ab by linarith+
    then show ?thesis using shortest_stripe [OF lostD(2) [OF l], of "[disks - 2, disks - 1, a, b]"] by simp
  qed
  have s0: "rstate w (cs qm pb) ?m1 ?s0"
    using init [of "kernel_fpu_begin fpu ?m1", OF _ tab] fpu by (simp add: wf_regs_def)
  have "dram (for_step 0 bytes W
      (\<lambda>d s. asm w (step qm pb (ptrs ! (disks - 2)) (ptrs ! (disks - 1)) (ptrs ! a) (ptrs ! b) d) s) ?s0) =
      restored bytes [ptrs ! a, ptrs ! b] m0 m"
  proof (rule finish2 [where mm = dram and I = "\<lambda>s. rstate w (cs qm pb) (dram s) s",
        OF l ab W wd(2) refl refl refl refl fg])
    show "rstate w (cs qm pb) (dram ?s0) ?s0" "dram ?s0 = ?m1" using s0 by (auto simp: rstate_def)
  next
    fix d s m'
    assume "rstate w (cs qm pb) (dram s) s" and m': "dram s = m'"
      and ne: "ptrs ! a \<noteq> ptrs ! b" "ptrs ! (disks - 2) \<noteq> ptrs ! a" "ptrs ! (disks - 2) \<noteq> ptrs ! b"
        "ptrs ! (disks - 1) \<noteq> ptrs ! a" "ptrs ! (disks - 1) \<noteq> ptrs ! b"
      and len: "\<And>x. x \<in> {ptrs ! (disks - 2), ptrs ! (disks - 1), ptrs ! a, ptrs ! b} \<Longrightarrow>
        d + W \<le> length (m' x)"
    then have "rstate w (cs qm pb) m' s" by simp
    from turn [OF this tab ne len]
    show "rstate w (cs qm pb)
        (dram (asm w (step qm pb (ptrs ! (disks - 2)) (ptrs ! (disks - 1)) (ptrs ! a) (ptrs ! b) d) s))
        (asm w (step qm pb (ptrs ! (disks - 2)) (ptrs ! (disks - 1)) (ptrs ! a) (ptrs ! b) d) s) \<and>
      dram (asm w (step qm pb (ptrs ! (disks - 2)) (ptrs ! (disks - 1)) (ptrs ! a) (ptrs ! b) d) s) =
        m'(ptrs ! a := put (m' (ptrs ! a)) d (map (\<lambda>i. recov_b a b
              (m' (ptrs ! (disks - 2)) ! i XOR m' (ptrs ! a) ! i) (m' (ptrs ! (disks - 1)) ! i XOR m' (ptrs ! b) ! i)
              XOR (m' (ptrs ! (disks - 2)) ! i XOR m' (ptrs ! a) ! i)) [d..<d + W]),
           ptrs ! b := put (m' (ptrs ! b)) d (map (\<lambda>i. recov_b a b
              (m' (ptrs ! (disks - 2)) ! i XOR m' (ptrs ! a) ! i)
              (m' (ptrs ! (disks - 1)) ! i XOR m' (ptrs ! b) ! i)) [d..<d + W]))"
      unfolding recov_b_def by (simp add: rstate_def)
  qed
  then show ?thesis
    unfolding gen while_bytes_eq [OF W wd(2) room] by simp
qed

end

locale recovp_kernel =
  fixes w :: nat and ls :: "(reg \<times> reg) list" and cs :: "(reg \<times> u8 list) list"
    and init :: "insn list" and step :: "u8 list \<Rightarrow> addr \<Rightarrow> addr \<Rightarrow> addr \<Rightarrow> nat \<Rightarrow> insn list"
  assumes width: "0 < w" "ls \<noteq> []"
    and init: "wf_regs w s \<Longrightarrow> rstate w cs (dram s) (asm w init s)"
    and step: "rstate w cs m s \<Longrightarrow> qm = raid6_vgfmul ! unat c \<Longrightarrow> p \<noteq> dq \<Longrightarrow> q \<noteq> p \<Longrightarrow> q \<noteq> dq \<Longrightarrow>
      d + length ls * w \<le> length (m p) \<Longrightarrow> d + length ls * w \<le> length (m q) \<Longrightarrow>
      d + length ls * w \<le> length (m dq) \<Longrightarrow>
      db = (\<lambda>x. map (gfmul c) (vxor (get (m dq) x w) (get (m q) x w))) \<Longrightarrow>
      rstate w cs (m(p := put (m p) d (vcat w ls (\<lambda>x. vxor (get (m p) x w) (db x)) d),
          dq := put (m dq) d (vcat w ls db d))) (asm w (step qm p q dq d) s)"
begin

abbreviation W where "W \<equiv> length ls * w"

lemma turn:
  fixes m dq q c
  defines "qx \<equiv> \<lambda>i. m q ! i XOR m dq ! i"
  assumes r: "rstate w cs m s" and tab: "qm = raid6_vgfmul ! unat c"
    and ne: "p \<noteq> dq" "q \<noteq> p" "q \<noteq> dq"
    and len: "\<And>x. x \<in> {p, q, dq} \<Longrightarrow> d + W \<le> length (m x)"
  shows "rstate w cs (m(p := put (m p) d (map (\<lambda>i. m p ! i XOR gfmul c (qx i)) [d..<d + W]),
        dq := put (m dq) d (map (\<lambda>i. gfmul c (qx i)) [d..<d + W])))
     (asm w (step qm p q dq d) s)"
proof -
  let ?db = "\<lambda>x. map (gfmul c) (vxor (get (m dq) x w) (get (m q) x w))"
  have lens: "d + W \<le> length (m p)" "d + W \<le> length (m q)" "d + W \<le> length (m dq)" using len by auto
  have "vcat w ls (\<lambda>x. vxor (get (m p) x w) (?db x)) d =
      vcat w ls (\<lambda>x. map (\<lambda>i. m p ! i XOR gfmul c (qx i)) [x..<x + w]) d"
    "vcat w ls ?db d = vcat w ls (\<lambda>x. map (\<lambda>i. gfmul c (qx i)) [x..<x + w]) d"
    by (rule vcat_cong, use lens in \<open>simp add: list_eq_iff_nth_eq qx_def ac_simps\<close>)+
  with step [OF r tab ne lens refl] show ?thesis by (simp only: vcat_map)
qed

lemma recovp:
  assumes g: "raid6_gen gen entry width" and r: "entry r" and fpu: "wf_regs w fpu"
    and l: "lost disks bytes {a, disks - 2} zp ptrs m0 m" and a: "a < disks - 2"
    and wd: "width dvd bytes" "W dvd bytes"
    and tab: "qm = raid6_vgfmul ! unat (raid6_gfinv ! unat (raid6_gfexp ! a))"
  shows "map_option (\<lambda>s. (ptrs, dram s)) (while_bytes wrap
      (shortest m [ptrs ! (disks - 2), ptrs ! (disks - 1), ptrs ! a]) W 0 bytes
      (\<lambda>d s. asm w (step qm (ptrs ! (disks - 2)) (ptrs ! (disks - 1)) (ptrs ! a) d) s)
      (asm w init (kernel_fpu_begin fpu
        (gen r disks bytes (ptrs[a := zp, disks - 1 := ptrs ! a]) m)))) =
    Some (ptrs, restored bytes [ptrs ! (disks - 2), ptrs ! a] m0 m)"
proof -
  obtain f g where gen: "gen r disks bytes (ptrs[a := zp, disks - 1 := ptrs ! a]) m =
      m(ptrs ! (disks - 2) := put (m (ptrs ! (disks - 2))) 0 (map f [0..<bytes]),
        ptrs ! a := put (m (ptrs ! a)) 0 (map g [0..<bytes]))"
    and fg: "\<And>i. i < bytes \<Longrightarrow> m0 (ptrs ! (disks - 2)) ! i = f i XOR m0 (ptrs ! a) ! i"
    "\<And>i. i < bytes \<Longrightarrow> m (ptrs ! (disks - 1)) ! i XOR g i = gfmul (gexp a) (m0 (ptrs ! a) ! i)"
    using raid6_gen.deadp [OF g r l a wd(1)] by blast
  let ?m1 = "m(ptrs ! (disks - 2) := put (m (ptrs ! (disks - 2))) 0 (map f [0..<bytes]),
        ptrs ! a := put (m (ptrs ! a)) 0 (map g [0..<bytes]))"
  let ?s0 = "asm w init (kernel_fpu_begin fpu ?m1)"
  have W: "0 < W" using width by simp
  have room: "0 + bytes \<le> shortest m [ptrs ! (disks - 2), ptrs ! (disks - 1), ptrs ! a]"
    using shortest_stripe [OF lostD(2) [OF l], of "[disks - 2, disks - 1, a]"] a by auto
  have s0: "rstate w cs ?m1 ?s0"
    using init [of "kernel_fpu_begin fpu ?m1"] fpu by (simp add: wf_regs_def)
  have "dram (for_step 0 bytes W
      (\<lambda>d s. asm w (step qm (ptrs ! (disks - 2)) (ptrs ! (disks - 1)) (ptrs ! a) d) s) ?s0) =
      restored bytes [ptrs ! (disks - 2), ptrs ! a] m0 m"
  proof (rule finishp [where mm = dram and I = "\<lambda>s. rstate w cs (dram s) s",
        OF l a W wd(2) refl refl refl fg])
    show "rstate w cs (dram ?s0) ?s0" "dram ?s0 = ?m1" using s0 by (auto simp: rstate_def)
  next
    fix d s m'
    assume "rstate w cs (dram s) s" and m': "dram s = m'"
      and ne: "ptrs ! (disks - 2) \<noteq> ptrs ! a" "ptrs ! (disks - 1) \<noteq> ptrs ! (disks - 2)"
        "ptrs ! (disks - 1) \<noteq> ptrs ! a"
      and len: "\<And>x. x \<in> {ptrs ! (disks - 2), ptrs ! (disks - 1), ptrs ! a} \<Longrightarrow> d + W \<le> length (m' x)"
    then have "rstate w cs m' s" by simp
    from turn [OF this tab ne len]
    show "rstate w cs (dram (asm w (step qm (ptrs ! (disks - 2)) (ptrs ! (disks - 1)) (ptrs ! a) d) s))
        (asm w (step qm (ptrs ! (disks - 2)) (ptrs ! (disks - 1)) (ptrs ! a) d) s) \<and>
      dram (asm w (step qm (ptrs ! (disks - 2)) (ptrs ! (disks - 1)) (ptrs ! a) d) s) =
        m'(ptrs ! (disks - 2) := put (m' (ptrs ! (disks - 2))) d (map (\<lambda>i. m' (ptrs ! (disks - 2)) ! i XOR
              recov_a a (m' (ptrs ! (disks - 1)) ! i XOR m' (ptrs ! a) ! i)) [d..<d + W]),
           ptrs ! a := put (m' (ptrs ! a)) d (map (\<lambda>i.
              recov_a a (m' (ptrs ! (disks - 1)) ! i XOR m' (ptrs ! a) ! i)) [d..<d + W]))"
      unfolding recov_a_def by (simp add: rstate_def)
  qed
  then show ?thesis
    unfolding gen while_bytes_eq [OF W wd(2) room] by simp
qed

end

end
