(* ===== verification/Raid6_Recov_SSSE3.thy ===== *)
theory Raid6_Recov_SSSE3
  imports Simd_Recov
begin

text \<open>
  The recovery routines of \<^verbatim>\<open>raid6/recov_ssse3.c\<close>, in the form for 64-bit kernels (two registers
  per turn) and in the form for 32-bit kernels (suffix \<open>_x1\<close>).
\<close>

section \<open>64-bit kernels\<close>

definition ssse3_2data_init :: "u8 list \<Rightarrow> u8 list \<Rightarrow> insn list" where
  "ssse3_2data_init qmul pbmul = [
     MOVDQA_imm (replicate 16 0x0f) 7, MOVDQA_imm (get qmul 0 16) 6,
     MOVDQA_imm (get pbmul 0 16) 14, MOVDQA_imm (get pbmul 16 16) 15]"

definition ssse3_2data_step :: "u8 list \<Rightarrow> u8 list \<Rightarrow> addr \<Rightarrow> addr \<Rightarrow> addr \<Rightarrow> addr \<Rightarrow> nat \<Rightarrow> insn list" where
  "ssse3_2data_step qmul pbmul p q dp dq d = [
     MOVDQA_load q d 1, MOVDQA_load q (d + 16) 9, MOVDQA_load p d 0,
     MOVDQA_load p (d + 16) 8, PXOR_load dq d 1, PXOR_load dq (d + 16) 9,
     PXOR_load dp d 0, PXOR_load dp (d + 16) 8, MOVDQA 6 4,
     MOVDQA_imm (get qmul 16 16) 5, MOVDQA 6 12, MOVDQA 5 13, MOVDQA 1 3, MOVDQA 9 11,
     MOVDQA 0 2, MOVDQA 8 10, PSRAW 4 1, PSRAW 4 9, PAND 7 3, PAND 7 11, PAND 7 1,
     PAND 7 9, PSHUFB 3 4, PSHUFB 11 12, PSHUFB 1 5, PSHUFB 9 13, PXOR 4 5, PXOR 12 13,
     MOVDQA 14 4, MOVDQA 15 1, MOVDQA 14 12, MOVDQA 15 9, MOVDQA 2 3, MOVDQA 10 11,
     PSRAW 4 2, PSRAW 4 10, PAND 7 3, PAND 7 11, PAND 7 2, PAND 7 10, PSHUFB 3 4,
     PSHUFB 11 12, PSHUFB 2 1, PSHUFB 10 9, PXOR 4 1, PXOR 12 9, PXOR 5 1, PXOR 13 9,
     MOVDQA_store 1 dq d, MOVDQA_store 9 dq (d + 16), PXOR 1 0, PXOR 9 8,
     MOVDQA_store 0 dp d, MOVDQA_store 8 dp (d + 16)]"

definition raid6_2data_recov_ssse3 ::
    "(nat \<Rightarrow> nat \<Rightarrow> addr list \<Rightarrow> mem \<Rightarrow> mem) \<Rightarrow> addr \<Rightarrow> simd \<Rightarrow>
     nat \<Rightarrow> nat \<Rightarrow> nat \<Rightarrow> nat \<Rightarrow> addr list \<Rightarrow> mem \<Rightarrow> (addr list \<times> mem) option" where
  "raid6_2data_recov_ssse3 gen zp fpu disks bytes faila failb ptrs m =
     (let p = ptrs ! (disks - 2); q = ptrs ! (disks - 1);
          dp = ptrs ! faila;
          ptrs = ptrs[faila := zp];
          ptrs = ptrs[disks - 2 := dp];
          dq = ptrs ! failb;
          ptrs = ptrs[failb := zp];
          ptrs = ptrs[disks - 1 := dq];
          room = shortest m [p, q, dp, dq];
          m = gen disks bytes ptrs m;
          ptrs = ptrs[faila := dp];
          ptrs = ptrs[failb := dq];
          ptrs = ptrs[disks - 2 := p];
          ptrs = ptrs[disks - 1 := q];
          pbmul = raid6_vgfmul ! unat (raid6_gfexi ! (failb - faila));
          qmul = raid6_vgfmul !
            unat (raid6_gfinv ! unat (raid6_gfexp ! faila XOR raid6_gfexp ! failb));
          s = asm 16 (ssse3_2data_init qmul pbmul) (kernel_fpu_begin fpu m)
      in map_option (\<lambda>s. (ptrs, dram s))
           (while_bytes (2 ^ 64) room 32 0 bytes (\<lambda>d s. asm 16 (ssse3_2data_step qmul pbmul p q dp dq d) s) s))"

definition ssse3_datap_init :: "insn list" where
  "ssse3_datap_init = [
     MOVDQA_imm (replicate 16 0x0f) 7]"

definition ssse3_datap_step :: "u8 list \<Rightarrow> addr \<Rightarrow> addr \<Rightarrow> addr \<Rightarrow> nat \<Rightarrow> insn list" where
  "ssse3_datap_step qmul p q dq d = [
     MOVDQA_load dq d 3, MOVDQA_load dq (d + 16) 4, PXOR_load q d 3,
     MOVDQA_imm (get qmul 0 16) 0, PXOR_load q (d + 16) 4, MOVDQA_imm (get qmul 16 16) 1,
     MOVDQA 3 6, MOVDQA 4 8, PSRAW 4 3, PAND 7 6, PAND 7 3, PSHUFB 6 0, PSHUFB 3 1,
     MOVDQA_imm (get qmul 0 16) 10, PXOR 0 1, MOVDQA_imm (get qmul 16 16) 11, PSRAW 4 4,
     PAND 7 8, PAND 7 4, PSHUFB 8 10, PSHUFB 4 11, MOVDQA_load p d 2, PXOR 10 11,
     MOVDQA_load p (d + 16) 12, PXOR 1 2, PXOR 11 12, MOVDQA_store 1 dq d,
     MOVDQA_store 11 dq (d + 16), MOVDQA_store 2 p d, MOVDQA_store 12 p (d + 16)]"

definition raid6_datap_recov_ssse3 ::
    "(nat \<Rightarrow> nat \<Rightarrow> addr list \<Rightarrow> mem \<Rightarrow> mem) \<Rightarrow> addr \<Rightarrow> simd \<Rightarrow>
     nat \<Rightarrow> nat \<Rightarrow> nat \<Rightarrow> addr list \<Rightarrow> mem \<Rightarrow> (addr list \<times> mem) option" where
  "raid6_datap_recov_ssse3 gen zp fpu disks bytes faila ptrs m =
     (let p = ptrs ! (disks - 2); q = ptrs ! (disks - 1);
          dq = ptrs ! faila;
          ptrs = ptrs[faila := zp];
          ptrs = ptrs[disks - 1 := dq];
          room = shortest m [p, q, dq];
          m = gen disks bytes ptrs m;
          ptrs = ptrs[faila := dq];
          ptrs = ptrs[disks - 1 := q];
          qmul = raid6_vgfmul ! unat (raid6_gfinv ! unat (raid6_gfexp ! faila));
          s = asm 16 ssse3_datap_init (kernel_fpu_begin fpu m)
      in map_option (\<lambda>s. (ptrs, dram s))
           (while_bytes (2 ^ 64) room 32 0 bytes (\<lambda>d s. asm 16 (ssse3_datap_step qmul p q dq d) s) s))"

interpretation ssse3_2data: recov2_kernel 16 "[(0, 0), (0, 0)]" "\<lambda>qm pb. [(7, replicate 16 0x0f), (6, get qm 0 16), (14, get pb 0 16), (15, get pb 16 16)]" ssse3_2data_init ssse3_2data_step
  by unfold_locales
    (auto simp: recov_simps ssse3_2data_init_def ssse3_2data_step_def nib_mul_16 vec_simps vgfmul_halves fun_eq_iff)

interpretation ssse3_datap: recovp_kernel 16 "[(0, 0), (0, 0)]" "[(7, replicate 16 0x0f)]" ssse3_datap_init ssse3_datap_step
  by unfold_locales
    (auto simp: recov_simps ssse3_datap_init_def ssse3_datap_step_def nib_mul_16 vec_simps vgfmul_halves fun_eq_iff)

sublocale raid6_gen \<subseteq> ssse3x2: raid6_recov "\<lambda>(r, fpu). raid6_2data_recov_ssse3 (gen r) zp fpu"
  "\<lambda>(r, fpu). raid6_datap_recov_ssse3 (gen r) zp fpu" "\<lambda>(r, fpu). entry r \<and> wf_regs 16 fpu" "lcm width 32" zp for zp
proof
  fix r :: "'r \<times> simd" and disks bytes a b ptrs m0 m
  obtain r0 fpu where r: "r = (r0, fpu)" by (cases r)
  assume "case r of (r, fpu) \<Rightarrow> entry r \<and> wf_regs 16 fpu"
    and l: "lost disks bytes {a, b} zp ptrs m0 m" and ab: "a < b" "b < disks - 2"
    and w: "lcm width 32 dvd bytes"
  then have e: "entry r0" "wf_regs 16 fpu" and d: "width dvd bytes" "32 dvd bytes"
    by (auto simp: r)
  have n: "length ptrs = disks" using stripe_ok_disks [OF lostD(2) [OF l]] by auto
  have nth: "ptrs[a := zp, disks - 2 := ptrs ! a] ! b = ptrs ! b" using ab n by simp
  show "(case r of (r, fpu) \<Rightarrow> raid6_2data_recov_ssse3 (gen r) zp fpu) disks bytes a b ptrs m =
      Some (ptrs, restored bytes [ptrs ! a, ptrs ! b] m0 m)"
    using ssse3_2data.recov2 [OF raid6_gen_axioms e l ab d(1) _ refl refl] d(2)
    unfolding r prod.case raid6_2data_recov_ssse3_def Let_def nth restore_table2 [OF n ab] by simp
next
  fix r :: "'r \<times> simd" and disks bytes a ptrs m0 m
  obtain r0 fpu where r: "r = (r0, fpu)" by (cases r)
  assume "case r of (r, fpu) \<Rightarrow> entry r \<and> wf_regs 16 fpu"
    and l: "lost disks bytes {a, disks - 2} zp ptrs m0 m" and a: "a < disks - 2"
    and w: "lcm width 32 dvd bytes"
  then have e: "entry r0" "wf_regs 16 fpu" and d: "width dvd bytes" "32 dvd bytes"
    by (auto simp: r)
  have n: "length ptrs = disks" using stripe_ok_disks [OF lostD(2) [OF l]] by auto
  show "(case r of (r, fpu) \<Rightarrow> raid6_datap_recov_ssse3 (gen r) zp fpu) disks bytes a ptrs m =
      Some (ptrs, restored bytes [ptrs ! (disks - 2), ptrs ! a] m0 m)"
    using ssse3_datap.recovp [OF raid6_gen_axioms e l a d(1) _ refl] d(2)
    unfolding r prod.case raid6_datap_recov_ssse3_def Let_def restore_tablep [OF n a] by simp
qed

context raid6_gen
begin

lemma ssse3x2_recov: "raid6_recov (\<lambda>(r, fpu). raid6_2data_recov_ssse3 (gen r) zp fpu)
    (\<lambda>(r, fpu). raid6_datap_recov_ssse3 (gen r) zp fpu) (\<lambda>(r, fpu). entry r \<and> wf_regs 16 fpu)
    (lcm width 32) zp"
  by (rule ssse3x2.raid6_recov_axioms)

end

section \<open>32-bit kernels\<close>

definition ssse3_2data_x1_init :: "u8 list \<Rightarrow> u8 list \<Rightarrow> insn list" where
  "ssse3_2data_x1_init qmul pbmul = [
     MOVDQA_imm (replicate 16 0x0f) 7]"

definition ssse3_2data_x1_step :: "u8 list \<Rightarrow> u8 list \<Rightarrow> addr \<Rightarrow> addr \<Rightarrow> addr \<Rightarrow> addr \<Rightarrow> nat \<Rightarrow> insn list" where
  "ssse3_2data_x1_step qmul pbmul p q dp dq d = [
     MOVDQA_load q d 1, MOVDQA_load p d 0, PXOR_load dq d 1, PXOR_load dp d 0,
     MOVDQA_imm (get qmul 0 16) 4, MOVDQA_imm (get qmul 16 16) 5, MOVDQA 1 3, PSRAW 4 1,
     PAND 7 3, PAND 7 1, PSHUFB 3 4, PSHUFB 1 5, PXOR 4 5, MOVDQA 0 2,
     MOVDQA_imm (get pbmul 0 16) 4, MOVDQA_imm (get pbmul 16 16) 1, MOVDQA 2 3,
     PSRAW 4 2, PAND 7 3, PAND 7 2, PSHUFB 3 4, PSHUFB 2 1, PXOR 4 1, PXOR 5 1,
     MOVDQA_store 1 dq d, PXOR 1 0, MOVDQA_store 0 dp d]"

definition raid6_2data_recov_ssse3_x1 ::
    "(nat \<Rightarrow> nat \<Rightarrow> addr list \<Rightarrow> mem \<Rightarrow> mem) \<Rightarrow> addr \<Rightarrow> simd \<Rightarrow>
     nat \<Rightarrow> nat \<Rightarrow> nat \<Rightarrow> nat \<Rightarrow> addr list \<Rightarrow> mem \<Rightarrow> (addr list \<times> mem) option" where
  "raid6_2data_recov_ssse3_x1 gen zp fpu disks bytes faila failb ptrs m =
     (let p = ptrs ! (disks - 2); q = ptrs ! (disks - 1);
          dp = ptrs ! faila;
          ptrs = ptrs[faila := zp];
          ptrs = ptrs[disks - 2 := dp];
          dq = ptrs ! failb;
          ptrs = ptrs[failb := zp];
          ptrs = ptrs[disks - 1 := dq];
          room = shortest m [p, q, dp, dq];
          m = gen disks bytes ptrs m;
          ptrs = ptrs[faila := dp];
          ptrs = ptrs[failb := dq];
          ptrs = ptrs[disks - 2 := p];
          ptrs = ptrs[disks - 1 := q];
          pbmul = raid6_vgfmul ! unat (raid6_gfexi ! (failb - faila));
          qmul = raid6_vgfmul !
            unat (raid6_gfinv ! unat (raid6_gfexp ! faila XOR raid6_gfexp ! failb));
          s = asm 16 (ssse3_2data_x1_init qmul pbmul) (kernel_fpu_begin fpu m)
      in map_option (\<lambda>s. (ptrs, dram s))
           (while_bytes (2 ^ 32) room 16 0 bytes (\<lambda>d s. asm 16 (ssse3_2data_x1_step qmul pbmul p q dp dq d) s) s))"

definition ssse3_datap_x1_init :: "insn list" where
  "ssse3_datap_x1_init = [
     MOVDQA_imm (replicate 16 0x0f) 7]"

definition ssse3_datap_x1_step :: "u8 list \<Rightarrow> addr \<Rightarrow> addr \<Rightarrow> addr \<Rightarrow> nat \<Rightarrow> insn list" where
  "ssse3_datap_x1_step qmul p q dq d = [
     MOVDQA_load dq d 3, MOVDQA_imm (get qmul 0 16) 0, PXOR_load q d 3,
     MOVDQA_imm (get qmul 16 16) 1, MOVDQA 3 6, MOVDQA_load p d 2, PSRAW 4 3, PAND 7 6,
     PAND 7 3, PSHUFB 6 0, PSHUFB 3 1, PXOR 0 1, PXOR 1 2, MOVDQA_store 1 dq d,
     MOVDQA_store 2 p d]"

definition raid6_datap_recov_ssse3_x1 ::
    "(nat \<Rightarrow> nat \<Rightarrow> addr list \<Rightarrow> mem \<Rightarrow> mem) \<Rightarrow> addr \<Rightarrow> simd \<Rightarrow>
     nat \<Rightarrow> nat \<Rightarrow> nat \<Rightarrow> addr list \<Rightarrow> mem \<Rightarrow> (addr list \<times> mem) option" where
  "raid6_datap_recov_ssse3_x1 gen zp fpu disks bytes faila ptrs m =
     (let p = ptrs ! (disks - 2); q = ptrs ! (disks - 1);
          dq = ptrs ! faila;
          ptrs = ptrs[faila := zp];
          ptrs = ptrs[disks - 1 := dq];
          room = shortest m [p, q, dq];
          m = gen disks bytes ptrs m;
          ptrs = ptrs[faila := dq];
          ptrs = ptrs[disks - 1 := q];
          qmul = raid6_vgfmul ! unat (raid6_gfinv ! unat (raid6_gfexp ! faila));
          s = asm 16 ssse3_datap_x1_init (kernel_fpu_begin fpu m)
      in map_option (\<lambda>s. (ptrs, dram s))
           (while_bytes (2 ^ 32) room 16 0 bytes (\<lambda>d s. asm 16 (ssse3_datap_x1_step qmul p q dq d) s) s))"

interpretation ssse3_2data_x1: recov2_kernel 16 "[(0, 0)]" "\<lambda>qm pb. [(7, replicate 16 0x0f)]" ssse3_2data_x1_init ssse3_2data_x1_step
  by unfold_locales
    (auto simp: recov_simps ssse3_2data_x1_init_def ssse3_2data_x1_step_def nib_mul_16 vec_simps vgfmul_halves fun_eq_iff)

interpretation ssse3_datap_x1: recovp_kernel 16 "[(0, 0)]" "[(7, replicate 16 0x0f)]" ssse3_datap_x1_init ssse3_datap_x1_step
  by unfold_locales
    (auto simp: recov_simps ssse3_datap_x1_init_def ssse3_datap_x1_step_def nib_mul_16 vec_simps vgfmul_halves fun_eq_iff)

sublocale raid6_gen \<subseteq> ssse3x1: raid6_recov "\<lambda>(r, fpu). raid6_2data_recov_ssse3_x1 (gen r) zp fpu"
  "\<lambda>(r, fpu). raid6_datap_recov_ssse3_x1 (gen r) zp fpu" "\<lambda>(r, fpu). entry r \<and> wf_regs 16 fpu" "lcm width 16" zp for zp
proof
  fix r :: "'r \<times> simd" and disks bytes a b ptrs m0 m
  obtain r0 fpu where r: "r = (r0, fpu)" by (cases r)
  assume "case r of (r, fpu) \<Rightarrow> entry r \<and> wf_regs 16 fpu"
    and l: "lost disks bytes {a, b} zp ptrs m0 m" and ab: "a < b" "b < disks - 2"
    and w: "lcm width 16 dvd bytes"
  then have e: "entry r0" "wf_regs 16 fpu" and d: "width dvd bytes" "16 dvd bytes"
    by (auto simp: r)
  have n: "length ptrs = disks" using stripe_ok_disks [OF lostD(2) [OF l]] by auto
  have nth: "ptrs[a := zp, disks - 2 := ptrs ! a] ! b = ptrs ! b" using ab n by simp
  show "(case r of (r, fpu) \<Rightarrow> raid6_2data_recov_ssse3_x1 (gen r) zp fpu) disks bytes a b ptrs m =
      Some (ptrs, restored bytes [ptrs ! a, ptrs ! b] m0 m)"
    using ssse3_2data_x1.recov2 [OF raid6_gen_axioms e l ab d(1) _ refl refl] d(2)
    unfolding r prod.case raid6_2data_recov_ssse3_x1_def Let_def nth restore_table2 [OF n ab] by simp
next
  fix r :: "'r \<times> simd" and disks bytes a ptrs m0 m
  obtain r0 fpu where r: "r = (r0, fpu)" by (cases r)
  assume "case r of (r, fpu) \<Rightarrow> entry r \<and> wf_regs 16 fpu"
    and l: "lost disks bytes {a, disks - 2} zp ptrs m0 m" and a: "a < disks - 2"
    and w: "lcm width 16 dvd bytes"
  then have e: "entry r0" "wf_regs 16 fpu" and d: "width dvd bytes" "16 dvd bytes"
    by (auto simp: r)
  have n: "length ptrs = disks" using stripe_ok_disks [OF lostD(2) [OF l]] by auto
  show "(case r of (r, fpu) \<Rightarrow> raid6_datap_recov_ssse3_x1 (gen r) zp fpu) disks bytes a ptrs m =
      Some (ptrs, restored bytes [ptrs ! (disks - 2), ptrs ! a] m0 m)"
    using ssse3_datap_x1.recovp [OF raid6_gen_axioms e l a d(1) _ refl] d(2)
    unfolding r prod.case raid6_datap_recov_ssse3_x1_def Let_def restore_tablep [OF n a] by simp
qed

context raid6_gen
begin

lemma ssse3x1_recov: "raid6_recov (\<lambda>(r, fpu). raid6_2data_recov_ssse3_x1 (gen r) zp fpu)
    (\<lambda>(r, fpu). raid6_datap_recov_ssse3_x1 (gen r) zp fpu) (\<lambda>(r, fpu). entry r \<and> wf_regs 16 fpu)
    (lcm width 16) zp"
  by (rule ssse3x1.raid6_recov_axioms)

end

end
