(* ===== verification/Raid6_Recov_AVX512.thy ===== *)
theory Raid6_Recov_AVX512
  imports Simd_Recov
begin

text \<open>
  The recovery routines of \<^verbatim>\<open>raid6/recov_avx512.c\<close>, in the form for 64-bit kernels (two registers
  per turn) and in the form for 32-bit kernels (suffix \<open>_x1\<close>).
\<close>

section \<open>64-bit kernels\<close>

definition avx512_2data_init :: "u8 list \<Rightarrow> u8 list \<Rightarrow> insn list" where
  "avx512_2data_init qmul pbmul = [
     VPBROADCASTB_imm 0x0f 7]"

definition avx512_2data_step :: "u8 list \<Rightarrow> u8 list \<Rightarrow> addr \<Rightarrow> addr \<Rightarrow> addr \<Rightarrow> addr \<Rightarrow> nat \<Rightarrow> insn list" where
  "avx512_2data_step qmul pbmul p q dp dq d = [
     MOVDQA_load q d 1, MOVDQA_load q (d + 64) 9, MOVDQA_load p d 0,
     MOVDQA_load p (d + 64) 8, VPXOR_load dq d 1 1, VPXOR_load dq (d + 64) 9 9,
     VPXOR_load dp d 0 0, VPXOR_load dp (d + 64) 8 8,
     VBROADCASTI128_imm (get qmul 0 16) 4, VBROADCASTI128_imm (get qmul 16 16) 5,
     VPSRAW 4 1 3, VPSRAW 4 9 12, VPAND 7 1 1, VPAND 7 9 9, VPAND 7 3 3, VPAND 7 12 12,
     VPSHUFB 9 4 14, VPSHUFB 1 4 4, VPSHUFB 12 5 15, VPSHUFB 3 5 5, VPXOR 14 15 15,
     VPXOR 4 5 5, VBROADCASTI128_imm (get pbmul 0 16) 4,
     VBROADCASTI128_imm (get pbmul 16 16) 1, VPSRAW 4 0 2, VPSRAW 4 8 6, VPAND 7 0 3,
     VPAND 7 8 14, VPAND 7 2 2, VPAND 7 6 6, VPSHUFB 14 4 12, VPSHUFB 3 4 4,
     VPSHUFB 6 1 13, VPSHUFB 2 1 1, VPXOR 4 1 1, VPXOR 12 13 13, VPXOR 5 1 1,
     VPXOR 15 13 13, MOVDQA_store 1 dq d, MOVDQA_store 13 dq (d + 64), VPXOR 1 0 0,
     VPXOR 13 8 8, MOVDQA_store 0 dp d, MOVDQA_store 8 dp (d + 64)]"

definition raid6_2data_recov_avx512 ::
    "(nat \<Rightarrow> nat \<Rightarrow> addr list \<Rightarrow> mem \<Rightarrow> mem) \<Rightarrow> addr \<Rightarrow> simd \<Rightarrow>
     nat \<Rightarrow> nat \<Rightarrow> nat \<Rightarrow> nat \<Rightarrow> addr list \<Rightarrow> mem \<Rightarrow> (addr list \<times> mem) option" where
  "raid6_2data_recov_avx512 gen zp fpu disks bytes faila failb ptrs m =
     (let p = ptrs ! (disks - 2); q = ptrs ! (disks - 1);
          dp = ptrs ! faila;
          ptrs = ptrs[faila := zp];
          ptrs = ptrs[disks - 2 := dp];
          dq = ptrs ! failb;
          ptrs = ptrs[failb := zp];
          ptrs = ptrs[disks - 1 := dq];
          room = shortest m [p, q, dp, dq];
          m = gen disks bytes ptrs m;
          ptrs = ptrs[faila := dp];
          ptrs = ptrs[failb := dq];
          ptrs = ptrs[disks - 2 := p];
          ptrs = ptrs[disks - 1 := q];
          pbmul = raid6_vgfmul ! unat (raid6_gfexi ! (failb - faila));
          qmul = raid6_vgfmul !
            unat (raid6_gfinv ! unat (raid6_gfexp ! faila XOR raid6_gfexp ! failb));
          s = asm 64 (avx512_2data_init qmul pbmul) (kernel_fpu_begin fpu m)
      in map_option (\<lambda>s. (ptrs, dram s))
           (while_bytes (2 ^ 64) room 128 0 bytes (\<lambda>d s. asm 64 (avx512_2data_step qmul pbmul p q dp dq d) s) s))"

definition avx512_datap_init :: "insn list" where
  "avx512_datap_init = [
     VPBROADCASTB_imm 0x0f 7]"

definition avx512_datap_step :: "u8 list \<Rightarrow> addr \<Rightarrow> addr \<Rightarrow> addr \<Rightarrow> nat \<Rightarrow> insn list" where
  "avx512_datap_step qmul p q dq d = [
     MOVDQA_load dq d 3, MOVDQA_load dq (d + 64) 8, VPXOR_load q d 3 3,
     VPXOR_load q (d + 64) 8 8, VBROADCASTI128_imm (get qmul 0 16) 0, MOVDQA 0 13,
     VBROADCASTI128_imm (get qmul 16 16) 1, MOVDQA 1 14, VPSRAW 4 3 6, VPSRAW 4 8 12,
     VPAND 7 3 3, VPAND 7 8 8, VPAND 7 6 6, VPAND 7 12 12, VPSHUFB 3 0 0,
     VPSHUFB 8 13 13, VPSHUFB 6 1 1, VPSHUFB 12 14 14, VPXOR 0 1 1, VPXOR 13 14 14,
     MOVDQA_load p d 2, MOVDQA_load p (d + 64) 12, VPXOR 1 2 2, VPXOR 14 12 12,
     MOVDQA_store 1 dq d, MOVDQA_store 14 dq (d + 64), MOVDQA_store 2 p d,
     MOVDQA_store 12 p (d + 64)]"

definition raid6_datap_recov_avx512 ::
    "(nat \<Rightarrow> nat \<Rightarrow> addr list \<Rightarrow> mem \<Rightarrow> mem) \<Rightarrow> addr \<Rightarrow> simd \<Rightarrow>
     nat \<Rightarrow> nat \<Rightarrow> nat \<Rightarrow> addr list \<Rightarrow> mem \<Rightarrow> (addr list \<times> mem) option" where
  "raid6_datap_recov_avx512 gen zp fpu disks bytes faila ptrs m =
     (let p = ptrs ! (disks - 2); q = ptrs ! (disks - 1);
          dq = ptrs ! faila;
          ptrs = ptrs[faila := zp];
          ptrs = ptrs[disks - 1 := dq];
          room = shortest m [p, q, dq];
          m = gen disks bytes ptrs m;
          ptrs = ptrs[faila := dq];
          ptrs = ptrs[disks - 1 := q];
          qmul = raid6_vgfmul ! unat (raid6_gfinv ! unat (raid6_gfexp ! faila));
          s = asm 64 avx512_datap_init (kernel_fpu_begin fpu m)
      in map_option (\<lambda>s. (ptrs, dram s))
           (while_bytes (2 ^ 64) room 128 0 bytes (\<lambda>d s. asm 64 (avx512_datap_step qmul p q dq d) s) s))"

interpretation avx512_2data: recov2_kernel 64 "[(0, 0), (0, 0)]" "\<lambda>qm pb. [(7, replicate 64 0x0f)]" avx512_2data_init avx512_2data_step
  by unfold_locales
    (auto simp: recov_simps avx512_2data_init_def avx512_2data_step_def nib_mul_64 vec_simps vgfmul_halves fun_eq_iff)

interpretation avx512_datap: recovp_kernel 64 "[(0, 0), (0, 0)]" "[(7, replicate 64 0x0f)]" avx512_datap_init avx512_datap_step
  by unfold_locales
    (auto simp: recov_simps avx512_datap_init_def avx512_datap_step_def nib_mul_64 vec_simps vgfmul_halves fun_eq_iff)

sublocale raid6_gen \<subseteq> avx512x2: raid6_recov "\<lambda>(r, fpu). raid6_2data_recov_avx512 (gen r) zp fpu"
  "\<lambda>(r, fpu). raid6_datap_recov_avx512 (gen r) zp fpu" "\<lambda>(r, fpu). entry r \<and> wf_regs 64 fpu" "lcm width 128" zp for zp
proof
  fix r :: "'r \<times> simd" and disks bytes a b ptrs m0 m
  obtain r0 fpu where r: "r = (r0, fpu)" by (cases r)
  assume "case r of (r, fpu) \<Rightarrow> entry r \<and> wf_regs 64 fpu"
    and l: "lost disks bytes {a, b} zp ptrs m0 m" and ab: "a < b" "b < disks - 2"
    and w: "lcm width 128 dvd bytes"
  then have e: "entry r0" "wf_regs 64 fpu" and d: "width dvd bytes" "128 dvd bytes"
    by (auto simp: r)
  have n: "length ptrs = disks" using stripe_ok_disks [OF lostD(2) [OF l]] by auto
  have nth: "ptrs[a := zp, disks - 2 := ptrs ! a] ! b = ptrs ! b" using ab n by simp
  show "(case r of (r, fpu) \<Rightarrow> raid6_2data_recov_avx512 (gen r) zp fpu) disks bytes a b ptrs m =
      Some (ptrs, restored bytes [ptrs ! a, ptrs ! b] m0 m)"
    using avx512_2data.recov2 [OF raid6_gen_axioms e l ab d(1) _ refl refl] d(2)
    unfolding r prod.case raid6_2data_recov_avx512_def Let_def nth restore_table2 [OF n ab] by simp
next
  fix r :: "'r \<times> simd" and disks bytes a ptrs m0 m
  obtain r0 fpu where r: "r = (r0, fpu)" by (cases r)
  assume "case r of (r, fpu) \<Rightarrow> entry r \<and> wf_regs 64 fpu"
    and l: "lost disks bytes {a, disks - 2} zp ptrs m0 m" and a: "a < disks - 2"
    and w: "lcm width 128 dvd bytes"
  then have e: "entry r0" "wf_regs 64 fpu" and d: "width dvd bytes" "128 dvd bytes"
    by (auto simp: r)
  have n: "length ptrs = disks" using stripe_ok_disks [OF lostD(2) [OF l]] by auto
  show "(case r of (r, fpu) \<Rightarrow> raid6_datap_recov_avx512 (gen r) zp fpu) disks bytes a ptrs m =
      Some (ptrs, restored bytes [ptrs ! (disks - 2), ptrs ! a] m0 m)"
    using avx512_datap.recovp [OF raid6_gen_axioms e l a d(1) _ refl] d(2)
    unfolding r prod.case raid6_datap_recov_avx512_def Let_def restore_tablep [OF n a] by simp
qed

context raid6_gen
begin

lemma avx512x2_recov: "raid6_recov (\<lambda>(r, fpu). raid6_2data_recov_avx512 (gen r) zp fpu)
    (\<lambda>(r, fpu). raid6_datap_recov_avx512 (gen r) zp fpu) (\<lambda>(r, fpu). entry r \<and> wf_regs 64 fpu)
    (lcm width 128) zp"
  by (rule avx512x2.raid6_recov_axioms)

end

section \<open>32-bit kernels\<close>

definition avx512_2data_x1_init :: "u8 list \<Rightarrow> u8 list \<Rightarrow> insn list" where
  "avx512_2data_x1_init qmul pbmul = [
     VPBROADCASTB_imm 0x0f 7]"

definition avx512_2data_x1_step :: "u8 list \<Rightarrow> u8 list \<Rightarrow> addr \<Rightarrow> addr \<Rightarrow> addr \<Rightarrow> addr \<Rightarrow> nat \<Rightarrow> insn list" where
  "avx512_2data_x1_step qmul pbmul p q dp dq d = [
     MOVDQA_load q d 1, MOVDQA_load p d 0, VPXOR_load dq d 1 1, VPXOR_load dp d 0 0,
     VBROADCASTI128_imm (get qmul 0 16) 4, VBROADCASTI128_imm (get qmul 16 16) 5,
     VPSRAW 4 1 3, VPAND 7 1 1, VPAND 7 3 3, VPSHUFB 1 4 4, VPSHUFB 3 5 5, VPXOR 4 5 5,
     VBROADCASTI128_imm (get pbmul 0 16) 4, VBROADCASTI128_imm (get pbmul 16 16) 1,
     VPSRAW 4 0 2, VPAND 7 0 3, VPAND 7 2 2, VPSHUFB 3 4 4, VPSHUFB 2 1 1, VPXOR 4 1 1,
     VPXOR 5 1 1, MOVDQA_store 1 dq d, VPXOR 1 0 0, MOVDQA_store 0 dp d]"

definition raid6_2data_recov_avx512_x1 ::
    "(nat \<Rightarrow> nat \<Rightarrow> addr list \<Rightarrow> mem \<Rightarrow> mem) \<Rightarrow> addr \<Rightarrow> simd \<Rightarrow>
     nat \<Rightarrow> nat \<Rightarrow> nat \<Rightarrow> nat \<Rightarrow> addr list \<Rightarrow> mem \<Rightarrow> (addr list \<times> mem) option" where
  "raid6_2data_recov_avx512_x1 gen zp fpu disks bytes faila failb ptrs m =
     (let p = ptrs ! (disks - 2); q = ptrs ! (disks - 1);
          dp = ptrs ! faila;
          ptrs = ptrs[faila := zp];
          ptrs = ptrs[disks - 2 := dp];
          dq = ptrs ! failb;
          ptrs = ptrs[failb := zp];
          ptrs = ptrs[disks - 1 := dq];
          room = shortest m [p, q, dp, dq];
          m = gen disks bytes ptrs m;
          ptrs = ptrs[faila := dp];
          ptrs = ptrs[failb := dq];
          ptrs = ptrs[disks - 2 := p];
          ptrs = ptrs[disks - 1 := q];
          pbmul = raid6_vgfmul ! unat (raid6_gfexi ! (failb - faila));
          qmul = raid6_vgfmul !
            unat (raid6_gfinv ! unat (raid6_gfexp ! faila XOR raid6_gfexp ! failb));
          s = asm 64 (avx512_2data_x1_init qmul pbmul) (kernel_fpu_begin fpu m)
      in map_option (\<lambda>s. (ptrs, dram s))
           (while_bytes (2 ^ 32) room 64 0 bytes (\<lambda>d s. asm 64 (avx512_2data_x1_step qmul pbmul p q dp dq d) s) s))"

definition avx512_datap_x1_init :: "insn list" where
  "avx512_datap_x1_init = [
     VPBROADCASTB_imm 0x0f 7]"

definition avx512_datap_x1_step :: "u8 list \<Rightarrow> addr \<Rightarrow> addr \<Rightarrow> addr \<Rightarrow> nat \<Rightarrow> insn list" where
  "avx512_datap_x1_step qmul p q dq d = [
     MOVDQA_load dq d 3, VPXOR_load q d 3 3, VBROADCASTI128_imm (get qmul 0 16) 0,
     VBROADCASTI128_imm (get qmul 16 16) 1, VPSRAW 4 3 6, VPAND 7 3 3, VPAND 7 6 6,
     VPSHUFB 3 0 0, VPSHUFB 6 1 1, VPXOR 0 1 1, MOVDQA_load p d 2, VPXOR 1 2 2,
     MOVDQA_store 1 dq d, MOVDQA_store 2 p d]"

definition raid6_datap_recov_avx512_x1 ::
    "(nat \<Rightarrow> nat \<Rightarrow> addr list \<Rightarrow> mem \<Rightarrow> mem) \<Rightarrow> addr \<Rightarrow> simd \<Rightarrow>
     nat \<Rightarrow> nat \<Rightarrow> nat \<Rightarrow> addr list \<Rightarrow> mem \<Rightarrow> (addr list \<times> mem) option" where
  "raid6_datap_recov_avx512_x1 gen zp fpu disks bytes faila ptrs m =
     (let p = ptrs ! (disks - 2); q = ptrs ! (disks - 1);
          dq = ptrs ! faila;
          ptrs = ptrs[faila := zp];
          ptrs = ptrs[disks - 1 := dq];
          room = shortest m [p, q, dq];
          m = gen disks bytes ptrs m;
          ptrs = ptrs[faila := dq];
          ptrs = ptrs[disks - 1 := q];
          qmul = raid6_vgfmul ! unat (raid6_gfinv ! unat (raid6_gfexp ! faila));
          s = asm 64 avx512_datap_x1_init (kernel_fpu_begin fpu m)
      in map_option (\<lambda>s. (ptrs, dram s))
           (while_bytes (2 ^ 32) room 64 0 bytes (\<lambda>d s. asm 64 (avx512_datap_x1_step qmul p q dq d) s) s))"

interpretation avx512_2data_x1: recov2_kernel 64 "[(0, 0)]" "\<lambda>qm pb. [(7, replicate 64 0x0f)]" avx512_2data_x1_init avx512_2data_x1_step
  by unfold_locales
    (auto simp: recov_simps avx512_2data_x1_init_def avx512_2data_x1_step_def nib_mul_64 vec_simps vgfmul_halves fun_eq_iff)

interpretation avx512_datap_x1: recovp_kernel 64 "[(0, 0)]" "[(7, replicate 64 0x0f)]" avx512_datap_x1_init avx512_datap_x1_step
  by unfold_locales
    (auto simp: recov_simps avx512_datap_x1_init_def avx512_datap_x1_step_def nib_mul_64 vec_simps vgfmul_halves fun_eq_iff)

sublocale raid6_gen \<subseteq> avx512x1: raid6_recov "\<lambda>(r, fpu). raid6_2data_recov_avx512_x1 (gen r) zp fpu"
  "\<lambda>(r, fpu). raid6_datap_recov_avx512_x1 (gen r) zp fpu" "\<lambda>(r, fpu). entry r \<and> wf_regs 64 fpu" "lcm width 64" zp for zp
proof
  fix r :: "'r \<times> simd" and disks bytes a b ptrs m0 m
  obtain r0 fpu where r: "r = (r0, fpu)" by (cases r)
  assume "case r of (r, fpu) \<Rightarrow> entry r \<and> wf_regs 64 fpu"
    and l: "lost disks bytes {a, b} zp ptrs m0 m" and ab: "a < b" "b < disks - 2"
    and w: "lcm width 64 dvd bytes"
  then have e: "entry r0" "wf_regs 64 fpu" and d: "width dvd bytes" "64 dvd bytes"
    by (auto simp: r)
  have n: "length ptrs = disks" using stripe_ok_disks [OF lostD(2) [OF l]] by auto
  have nth: "ptrs[a := zp, disks - 2 := ptrs ! a] ! b = ptrs ! b" using ab n by simp
  show "(case r of (r, fpu) \<Rightarrow> raid6_2data_recov_avx512_x1 (gen r) zp fpu) disks bytes a b ptrs m =
      Some (ptrs, restored bytes [ptrs ! a, ptrs ! b] m0 m)"
    using avx512_2data_x1.recov2 [OF raid6_gen_axioms e l ab d(1) _ refl refl] d(2)
    unfolding r prod.case raid6_2data_recov_avx512_x1_def Let_def nth restore_table2 [OF n ab] by simp
next
  fix r :: "'r \<times> simd" and disks bytes a ptrs m0 m
  obtain r0 fpu where r: "r = (r0, fpu)" by (cases r)
  assume "case r of (r, fpu) \<Rightarrow> entry r \<and> wf_regs 64 fpu"
    and l: "lost disks bytes {a, disks - 2} zp ptrs m0 m" and a: "a < disks - 2"
    and w: "lcm width 64 dvd bytes"
  then have e: "entry r0" "wf_regs 64 fpu" and d: "width dvd bytes" "64 dvd bytes"
    by (auto simp: r)
  have n: "length ptrs = disks" using stripe_ok_disks [OF lostD(2) [OF l]] by auto
  show "(case r of (r, fpu) \<Rightarrow> raid6_datap_recov_avx512_x1 (gen r) zp fpu) disks bytes a ptrs m =
      Some (ptrs, restored bytes [ptrs ! (disks - 2), ptrs ! a] m0 m)"
    using avx512_datap_x1.recovp [OF raid6_gen_axioms e l a d(1) _ refl] d(2)
    unfolding r prod.case raid6_datap_recov_avx512_x1_def Let_def restore_tablep [OF n a] by simp
qed

context raid6_gen
begin

lemma avx512x1_recov: "raid6_recov (\<lambda>(r, fpu). raid6_2data_recov_avx512_x1 (gen r) zp fpu)
    (\<lambda>(r, fpu). raid6_datap_recov_avx512_x1 (gen r) zp fpu) (\<lambda>(r, fpu). entry r \<and> wf_regs 64 fpu)
    (lcm width 64) zp"
  by (rule avx512x1.raid6_recov_axioms)

end

end
