(* ===== verification/Raid6_Algos.thy ===== *)
theory Raid6_Algos
  imports Raid6_SSE2 Raid6_AVX2 Raid6_AVX512 Raid6_SSE1 Raid6_Int
    Raid6_Recov_SSSE3 Raid6_Recov_AVX2 Raid6_Recov_AVX512
begin

text \<open>
  The tables of implementations and the choice among them: \<^verbatim>\<open>raid6/algos.c\<close> in a 64-bit x86
  kernel, and the descriptors of every x86 routine (the MMX and SSE-1 ones belong to the 32-bit
  table only). What the processor offers is the argument \<open>has\<close> (\<^verbatim>\<open>boot_cpu_has\<close>); how often a
  routine runs within the measuring interval is the argument \<open>perf\<close>; the register contents
  that a routine finds, one view for each vector width, are \<open>fpu\<close>.
\<close>

section \<open>Implementations and their descriptors\<close>

datatype x86_feature = MMX | FXSR | XMM | XMM2 | SSSE3 | AVX | AVX2
  | AVX512F | AVX512BW | AVX512VL | AVX512DQ | MMXEXT | GFNI

type_synonym cpu = "x86_feature \<Rightarrow> bool"
type_synonym fpu = "nat \<Rightarrow> simd"

record raid6_calls =
  gen_syndrome :: "fpu \<Rightarrow> nat \<Rightarrow> nat \<Rightarrow> addr list \<Rightarrow> mem \<Rightarrow> mem"
  xor_syndrome :: "(fpu \<Rightarrow> nat \<Rightarrow> nat \<Rightarrow> nat \<Rightarrow> nat \<Rightarrow> addr list \<Rightarrow> mem \<Rightarrow> mem) option"
  valid :: "(cpu \<Rightarrow> bool) option"
  algo_name :: string
  priority :: nat

type_synonym gen_fn = "nat \<Rightarrow> nat \<Rightarrow> addr list \<Rightarrow> mem \<Rightarrow> mem"

record raid6_recov_calls =
  data2 :: "gen_fn \<Rightarrow> addr \<Rightarrow> fpu \<Rightarrow> nat \<Rightarrow> nat \<Rightarrow> nat \<Rightarrow> nat \<Rightarrow> addr list \<Rightarrow> mem \<Rightarrow>
    (addr list \<times> mem) option"
  datap :: "gen_fn \<Rightarrow> addr \<Rightarrow> fpu \<Rightarrow> nat \<Rightarrow> nat \<Rightarrow> nat \<Rightarrow> addr list \<Rightarrow> mem \<Rightarrow>
    (addr list \<times> mem) option"
  rvalid :: "(cpu \<Rightarrow> bool) option"
  recov_name :: string
  rpriority :: nat

definition raid6_have_mmx :: "cpu \<Rightarrow> bool" where
  "raid6_have_mmx has \<longleftrightarrow> has MMX"

definition raid6_have_sse1_or_mmxext :: "cpu \<Rightarrow> bool" where
  "raid6_have_sse1_or_mmxext has \<longleftrightarrow> has MMX \<and> (has XMM \<or> has MMXEXT)"

definition raid6_have_sse2 :: "cpu \<Rightarrow> bool" where
  "raid6_have_sse2 has \<longleftrightarrow> has MMX \<and> has FXSR \<and> has XMM \<and> has XMM2"

definition raid6_have_avx2 :: "cpu \<Rightarrow> bool" where
  "raid6_have_avx2 has \<longleftrightarrow> has AVX2 \<and> has AVX"

definition raid6_have_avx512 :: "cpu \<Rightarrow> bool" where
  "raid6_have_avx512 has \<longleftrightarrow>
     has AVX2 \<and> has AVX \<and> has AVX512F \<and> has AVX512BW \<and> has AVX512VL \<and> has AVX512DQ"

definition raid6_has_ssse3 :: "cpu \<Rightarrow> bool" where
  "raid6_has_ssse3 has \<longleftrightarrow> has XMM \<and> has XMM2 \<and> has SSSE3"

definition raid6_has_avx2 :: "cpu \<Rightarrow> bool" where
  "raid6_has_avx2 has \<longleftrightarrow> has AVX2 \<and> has AVX"

definition raid6_has_avx512 :: "cpu \<Rightarrow> bool" where
  "raid6_has_avx512 has \<longleftrightarrow>
     has AVX2 \<and> has AVX \<and> has AVX512F \<and> has AVX512BW \<and> has AVX512VL \<and> has AVX512DQ"

definition raid6_mmxx1 :: raid6_calls where
  "raid6_mmxx1 = \<lparr>
     gen_syndrome = (\<lambda>fpu. raid6_mmx1_gen_syndrome (fpu 8)), xor_syndrome = None,
     valid = Some raid6_have_mmx, algo_name = ''mmxx1'', priority = 0\<rparr>"

definition raid6_mmxx2 :: raid6_calls where
  "raid6_mmxx2 = \<lparr>
     gen_syndrome = (\<lambda>fpu. raid6_mmx2_gen_syndrome (fpu 8)), xor_syndrome = None,
     valid = Some raid6_have_mmx, algo_name = ''mmxx2'', priority = 0\<rparr>"

definition raid6_sse1x1 :: raid6_calls where
  "raid6_sse1x1 = \<lparr>
     gen_syndrome = (\<lambda>fpu. raid6_sse11_gen_syndrome (fpu 8)), xor_syndrome = None,
     valid = Some raid6_have_sse1_or_mmxext, algo_name = ''sse1x1'', priority = 1\<rparr>"

definition raid6_sse1x2 :: raid6_calls where
  "raid6_sse1x2 = \<lparr>
     gen_syndrome = (\<lambda>fpu. raid6_sse12_gen_syndrome (fpu 8)), xor_syndrome = None,
     valid = Some raid6_have_sse1_or_mmxext, algo_name = ''sse1x2'', priority = 1\<rparr>"

definition raid6_sse2x1 :: raid6_calls where
  "raid6_sse2x1 = \<lparr>
     gen_syndrome = (\<lambda>fpu. raid6_sse21_gen_syndrome (fpu 16)),
     xor_syndrome = Some (\<lambda>fpu. raid6_sse21_xor_syndrome (fpu 16)),
     valid = Some raid6_have_sse2, algo_name = ''sse2x1'', priority = 1\<rparr>"

definition raid6_sse2x2 :: raid6_calls where
  "raid6_sse2x2 = \<lparr>
     gen_syndrome = (\<lambda>fpu. raid6_sse22_gen_syndrome (fpu 16)),
     xor_syndrome = Some (\<lambda>fpu. raid6_sse22_xor_syndrome (fpu 16)),
     valid = Some raid6_have_sse2, algo_name = ''sse2x2'', priority = 1\<rparr>"

definition raid6_sse2x4 :: raid6_calls where
  "raid6_sse2x4 = \<lparr>
     gen_syndrome = (\<lambda>fpu. raid6_sse24_gen_syndrome (fpu 16)),
     xor_syndrome = Some (\<lambda>fpu. raid6_sse24_xor_syndrome (fpu 16)),
     valid = Some raid6_have_sse2, algo_name = ''sse2x4'', priority = 1\<rparr>"

definition raid6_avx2x1 :: raid6_calls where
  "raid6_avx2x1 = \<lparr>
     gen_syndrome = (\<lambda>fpu. raid6_avx21_gen_syndrome (fpu 32)),
     xor_syndrome = Some (\<lambda>fpu. raid6_avx21_xor_syndrome (fpu 32)),
     valid = Some raid6_have_avx2, algo_name = ''avx2x1'', priority = 2\<rparr>"

definition raid6_avx2x2 :: raid6_calls where
  "raid6_avx2x2 = \<lparr>
     gen_syndrome = (\<lambda>fpu. raid6_avx22_gen_syndrome (fpu 32)),
     xor_syndrome = Some (\<lambda>fpu. raid6_avx22_xor_syndrome (fpu 32)),
     valid = Some raid6_have_avx2, algo_name = ''avx2x2'', priority = 2\<rparr>"

definition raid6_avx2x4 :: raid6_calls where
  "raid6_avx2x4 = \<lparr>
     gen_syndrome = (\<lambda>fpu. raid6_avx24_gen_syndrome (fpu 32)),
     xor_syndrome = Some (\<lambda>fpu. raid6_avx24_xor_syndrome (fpu 32)),
     valid = Some raid6_have_avx2, algo_name = ''avx2x4'', priority = 2\<rparr>"

definition raid6_avx512x1 :: raid6_calls where
  "raid6_avx512x1 = \<lparr>
     gen_syndrome = (\<lambda>fpu. raid6_avx5121_gen_syndrome (fpu 64)),
     xor_syndrome = Some (\<lambda>fpu. raid6_avx5121_xor_syndrome (fpu 64)),
     valid = Some raid6_have_avx512, algo_name = ''avx512x1'', priority = 2\<rparr>"

definition raid6_avx512x2 :: raid6_calls where
  "raid6_avx512x2 = \<lparr>
     gen_syndrome = (\<lambda>fpu. raid6_avx5122_gen_syndrome (fpu 64)),
     xor_syndrome = Some (\<lambda>fpu. raid6_avx5122_xor_syndrome (fpu 64)),
     valid = Some raid6_have_avx512, algo_name = ''avx512x2'', priority = 2\<rparr>"

definition raid6_avx512x4 :: raid6_calls where
  "raid6_avx512x4 = \<lparr>
     gen_syndrome = (\<lambda>fpu. raid6_avx5124_gen_syndrome (fpu 64)),
     xor_syndrome = Some (\<lambda>fpu. raid6_avx5124_xor_syndrome (fpu 64)),
     valid = Some raid6_have_avx512, algo_name = ''avx512x4'', priority = 2\<rparr>"

definition raid6_intx1 :: raid6_calls where
  "raid6_intx1 = \<lparr>
     gen_syndrome = (\<lambda>fpu. raid6_int_gen_syndrome 1),
     xor_syndrome = Some (\<lambda>fpu. raid6_int_xor_syndrome 1),
     valid = None, algo_name = ''int64x1'', priority = 0\<rparr>"

definition raid6_intx2 :: raid6_calls where
  "raid6_intx2 = \<lparr>
     gen_syndrome = (\<lambda>fpu. raid6_int_gen_syndrome 2),
     xor_syndrome = Some (\<lambda>fpu. raid6_int_xor_syndrome 2),
     valid = None, algo_name = ''int64x2'', priority = 0\<rparr>"

definition raid6_intx4 :: raid6_calls where
  "raid6_intx4 = \<lparr>
     gen_syndrome = (\<lambda>fpu. raid6_int_gen_syndrome 4),
     xor_syndrome = Some (\<lambda>fpu. raid6_int_xor_syndrome 4),
     valid = None, algo_name = ''int64x4'', priority = 0\<rparr>"

definition raid6_intx8 :: raid6_calls where
  "raid6_intx8 = \<lparr>
     gen_syndrome = (\<lambda>fpu. raid6_int_gen_syndrome 8),
     xor_syndrome = Some (\<lambda>fpu. raid6_int_xor_syndrome 8),
     valid = None, algo_name = ''int64x8'', priority = 0\<rparr>"

definition raid6_recov_ssse3 :: raid6_recov_calls where
  "raid6_recov_ssse3 = \<lparr>
     data2 = (\<lambda>gen zp fpu. raid6_2data_recov_ssse3 gen zp (fpu 16)),
     datap = (\<lambda>gen zp fpu. raid6_datap_recov_ssse3 gen zp (fpu 16)),
     rvalid = Some raid6_has_ssse3, recov_name = ''ssse3x2'', rpriority = 1\<rparr>"

definition raid6_recov_avx2 :: raid6_recov_calls where
  "raid6_recov_avx2 = \<lparr>
     data2 = (\<lambda>gen zp fpu. raid6_2data_recov_avx2 gen zp (fpu 32)),
     datap = (\<lambda>gen zp fpu. raid6_datap_recov_avx2 gen zp (fpu 32)),
     rvalid = Some raid6_has_avx2, recov_name = ''avx2x2'', rpriority = 2\<rparr>"

definition raid6_recov_avx512 :: raid6_recov_calls where
  "raid6_recov_avx512 = \<lparr>
     data2 = (\<lambda>gen zp fpu. raid6_2data_recov_avx512 gen zp (fpu 64)),
     datap = (\<lambda>gen zp fpu. raid6_datap_recov_avx512 gen zp (fpu 64)),
     rvalid = Some raid6_has_avx512, recov_name = ''avx512x2'', rpriority = 3\<rparr>"

definition raid6_recov_intx1 :: raid6_recov_calls where
  "raid6_recov_intx1 = \<lparr>
     data2 = (\<lambda>gen zp fpu disks bytes faila failb ptrs m.
       Some (raid6_2data_recov_intx1 gen zp disks bytes faila failb ptrs m)),
     datap = (\<lambda>gen zp fpu disks bytes faila ptrs m.
       Some (raid6_datap_recov_intx1 gen zp disks bytes faila ptrs m)),
     rvalid = None, recov_name = ''intx1'', rpriority = 0\<rparr>"

text \<open>
  The table of a 64-bit x86 kernel: its vector entries, then the integer entries. The argument is
  \<^verbatim>\<open>CONFIG_AS_AVX512\<close>. Of the table of a 32-bit kernel, the vector entries.
\<close>

definition raid6_algos_x86_64 :: "bool \<Rightarrow> raid6_calls list" where
  "raid6_algos_x86_64 as_avx512 =
     (if as_avx512 then [raid6_avx512x4, raid6_avx512x2, raid6_avx512x1] else []) @
     [raid6_avx2x4, raid6_avx2x2, raid6_avx2x1, raid6_sse2x4, raid6_sse2x2, raid6_sse2x1]"

definition raid6_int_algos :: "raid6_calls list" where
  "raid6_int_algos = [raid6_intx8, raid6_intx4, raid6_intx2, raid6_intx1]"

definition raid6_algos :: "bool \<Rightarrow> raid6_calls list" where
  "raid6_algos as_avx512 = raid6_algos_x86_64 as_avx512 @ raid6_int_algos"

definition raid6_algos_i386 :: "bool \<Rightarrow> raid6_calls list" where
  "raid6_algos_i386 as_avx512 =
     (if as_avx512 then [raid6_avx512x2, raid6_avx512x1] else []) @
     [raid6_avx2x2, raid6_avx2x1, raid6_sse2x2, raid6_sse2x1, raid6_sse1x2, raid6_sse1x1, raid6_mmxx2, raid6_mmxx1]"

definition raid6_recov_algos :: "bool \<Rightarrow> raid6_recov_calls list" where
  "raid6_recov_algos as_avx512 =
     (if as_avx512 then [raid6_recov_avx512] else []) @
     [raid6_recov_avx2, raid6_recov_ssse3, raid6_recov_intx1]"

section \<open>Selection\<close>

definition usable :: "(cpu \<Rightarrow> bool) option \<Rightarrow> cpu \<Rightarrow> bool" where
  "usable v has = (case v of None \<Rightarrow> True | Some f \<Rightarrow> f has)"

fun choose_recov_loop ::
    "cpu \<Rightarrow> raid6_recov_calls list \<Rightarrow> raid6_recov_calls option \<Rightarrow> raid6_recov_calls option" where
  "choose_recov_loop has [] best = best"
| "choose_recov_loop has (algo # algos) best =
     choose_recov_loop has algos
       (if best = None \<or> rpriority algo > rpriority (the best) then
          (if usable (rvalid algo) has then Some algo else best)
        else best)"

definition raid6_choose_recov :: "bool \<Rightarrow> cpu \<Rightarrow> raid6_recov_calls option" where
  "raid6_choose_recov as_avx512 has = choose_recov_loop has (raid6_recov_algos as_avx512) None"

text \<open>
  The measuring loop runs \<^verbatim>\<open>gen_syndrome\<close> on the scratch pages \<open>perf\<close> times. Without
  \<^verbatim>\<open>CONFIG_RAID6_PQ_BENCHMARK\<close> the first usable entry is taken.
\<close>

definition PAGE_SIZE :: nat where
  "PAGE_SIZE = 4096"

fun choose_gen_loop ::
    "bool \<Rightarrow> cpu \<Rightarrow> (raid6_calls \<Rightarrow> nat) \<Rightarrow> fpu \<Rightarrow> addr list \<Rightarrow> nat \<Rightarrow> raid6_calls list \<Rightarrow>
     raid6_calls option \<Rightarrow> nat \<Rightarrow> mem \<Rightarrow> raid6_calls option \<times> mem" where
  "choose_gen_loop bench has perf fpu dptrs disks [] best bestgenperf m = (best, m)"
| "choose_gen_loop bench has perf fpu dptrs disks (algo # algos) best bestgenperf m =
     (if best = None \<or> priority algo \<ge> priority (the best) then
        if \<not> usable (valid algo) has then
          choose_gen_loop bench has perf fpu dptrs disks algos best bestgenperf m
        else if \<not> bench then (Some algo, m)
        else
          let m = (gen_syndrome algo fpu disks PAGE_SIZE dptrs ^^ perf algo) m
          in if perf algo > bestgenperf
             then choose_gen_loop bench has perf fpu dptrs disks algos (Some algo) (perf algo) m
             else choose_gen_loop bench has perf fpu dptrs disks algos best bestgenperf m
      else choose_gen_loop bench has perf fpu dptrs disks algos best bestgenperf m)"

text \<open>
  \<open>xperf\<close> is the run count of the second measurement, of \<^verbatim>\<open>xor_syndrome\<close>. The result is the
  chosen entry, which is also copied to \<^verbatim>\<open>raid6_call\<close>.
\<close>

definition raid6_choose_gen ::
    "bool \<Rightarrow> bool \<Rightarrow> cpu \<Rightarrow> (raid6_calls \<Rightarrow> nat) \<Rightarrow> nat \<Rightarrow> fpu \<Rightarrow> addr list \<Rightarrow> nat \<Rightarrow> mem \<Rightarrow>
     raid6_calls option \<times> mem" where
  "raid6_choose_gen as_avx512 bench has perf xperf fpu dptrs disks m =
     (let start = disks div 2 - 1; stop = disks - 3;
          (best, m) = choose_gen_loop bench has perf fpu dptrs disks (raid6_algos as_avx512) None 0 m
      in case best of
           None \<Rightarrow> (None, m)
         | Some algo \<Rightarrow>
             if \<not> bench then (Some algo, m)
             else case xor_syndrome algo of
                    None \<Rightarrow> (Some algo, m)
                  | Some xor_syn \<Rightarrow>
                      (Some algo, (xor_syn fpu disks start stop PAGE_SIZE dptrs ^^ xperf) m))"

section \<open>Start-up\<close>

text \<open>
  The global state that \<^verbatim>\<open>raid6_select_algo\<close> sets: \<^verbatim>\<open>raid6_call\<close> and the recovery pointers.
  The scratch pages are \<open>dptrs\<close>, absent when the allocation fails; data pages are filled from
  the multiplication table, read cyclically.
\<close>

definition RAID6_TEST_DISKS :: nat where
  "RAID6_TEST_DISKS = 8"

datatype errno = ENOMEM | EINVAL

record raid6_globals =
  raid6_call :: "raid6_calls option"
  raid6_2data_recov ::
    "(gen_fn \<Rightarrow> addr \<Rightarrow> fpu \<Rightarrow> nat \<Rightarrow> nat \<Rightarrow> nat \<Rightarrow> nat \<Rightarrow> addr list \<Rightarrow> mem \<Rightarrow> (addr list \<times> mem) option) option"
  raid6_datap_recov ::
    "(gen_fn \<Rightarrow> addr \<Rightarrow> fpu \<Rightarrow> nat \<Rightarrow> nat \<Rightarrow> nat \<Rightarrow> addr list \<Rightarrow> mem \<Rightarrow> (addr list \<times> mem) option) option"

definition fill_page :: "nat \<Rightarrow> u8 list" where
  "fill_page i = map (\<lambda>j. concat raid6_gfmul ! ((PAGE_SIZE * i + j) mod 65536)) [0..<PAGE_SIZE]"

fun fill_pages :: "addr list \<Rightarrow> nat \<Rightarrow> mem \<Rightarrow> mem" where
  "fill_pages (a # as) i m = fill_pages as (Suc i) (m(a := put (m a) 0 (fill_page i)))"
| "fill_pages [] i m = m"

definition raid6_select_algo ::
    "bool \<Rightarrow> bool \<Rightarrow> cpu \<Rightarrow> (raid6_calls \<Rightarrow> nat) \<Rightarrow> nat \<Rightarrow> fpu \<Rightarrow> addr list option \<Rightarrow>
     raid6_globals \<Rightarrow> mem \<Rightarrow> (errno + unit) \<times> raid6_globals \<times> mem" where
  "raid6_select_algo as_avx512 bench has perf xperf fpu disk_ptr g m =
     (let disks = RAID6_TEST_DISKS
      in case disk_ptr of
           None \<Rightarrow> (Inl ENOMEM, g, m)
         | Some dptrs \<Rightarrow>
             let m = fill_pages (take (disks - 2) dptrs) 0 m;
                 (gen_best, m) = raid6_choose_gen as_avx512 bench has perf xperf fpu dptrs disks m;
                 g = (if gen_best = None then g else g\<lparr>raid6_call := gen_best\<rparr>);
                 rec_best = raid6_choose_recov as_avx512 has;
                 g = (case rec_best of None \<Rightarrow> g
                      | Some best \<Rightarrow> g\<lparr>raid6_2data_recov := Some (data2 best),
                                      raid6_datap_recov := Some (datap best)\<rparr>)
             in (if gen_best \<noteq> None \<and> rec_best \<noteq> None then Inr () else Inl EINVAL, g, m))"

section \<open>Every entry of the tables meets its contract\<close>

definition any_fpu :: "fpu \<Rightarrow> bool" where
  "any_fpu fpu \<longleftrightarrow> (\<forall>w. wf_regs w (fpu w))"

lemma raid6_xor_mono:
  assumes "raid6_xor gen e w xor_syn" "w dvd W" "\<And>r. e' r \<Longrightarrow> e (h r)"
  shows "raid6_xor (\<lambda>r. gen (h r)) e' W (\<lambda>r. xor_syn (h r))"
proof
  show "gen (h r) disks bytes ptrs m = gen_syndrome_spec disks bytes ptrs m"
    if "e' r" "stripe_ok disks bytes ptrs m" "W dvd bytes" for r disks bytes ptrs m
    using that assms dvd_trans [OF assms(2)]
    by (intro raid6_gen.gen_syndrome [OF raid6_xor.axioms(1) [OF assms(1)]]) auto
  show "xor_syn (h r) disks start stop bytes ptrs m =
      xor_syndrome_spec disks start stop bytes ptrs m"
    if "e' r" "stripe_ok disks bytes ptrs m" "W dvd bytes" "start \<le> stop" "stop < disks - 2"
    for r disks start stop bytes ptrs m
    using that assms dvd_trans [OF assms(2)]
    by (intro raid6_xor.xor_syndrome [OF assms(1)]) auto
qed

lemma raid6_recov_mono:
  assumes "raid6_recov f g e w zp" "w dvd W" "\<And>r. e' r \<Longrightarrow> e (h r)"
    and "\<And>r. f' r = f (h r)" "\<And>r. g' r = g (h r)"
  shows "raid6_recov f' g' e' W zp"
  using assms raid6_recov.data2 [OF assms(1)] raid6_recov.datap [OF assms(1)] dvd_trans [OF assms(2)]
  by unfold_locales auto

definition calls_ok :: "raid6_calls \<Rightarrow> bool" where
  "calls_ok c \<longleftrightarrow> (\<exists>x. xor_syndrome c = Some x \<and> raid6_xor (gen_syndrome c) any_fpu 256 x)"

definition recov_ok :: "raid6_recov_calls \<Rightarrow> bool" where
  "recov_ok rc \<longleftrightarrow> (\<forall>gen zp. raid6_gen gen any_fpu 256 \<longrightarrow>
     raid6_recov (\<lambda>(g, f). data2 rc (gen g) zp f) (\<lambda>(g, f). datap rc (gen g) zp f)
       (\<lambda>(g, f). any_fpu g \<and> any_fpu f) 256 zp)"

lemmas calls_defs =
  raid6_mmxx1_def raid6_mmxx2_def raid6_sse1x1_def raid6_sse1x2_def
  raid6_sse2x1_def raid6_sse2x2_def raid6_sse2x4_def raid6_avx2x1_def raid6_avx2x2_def
  raid6_avx2x4_def raid6_avx512x1_def raid6_avx512x2_def raid6_avx512x4_def
  raid6_intx1_def raid6_intx2_def raid6_intx4_def raid6_intx8_def

lemmas raid6_algos_defs = raid6_algos_def raid6_algos_x86_64_def raid6_int_algos_def

lemmas recov_defs =
  raid6_recov_ssse3_def raid6_recov_avx2_def raid6_recov_avx512_def raid6_recov_intx1_def

lemma vector_calls_ok:
  assumes "raid6_xor gen (wf_regs w) W xor_syn" "W dvd 256"
    and "gen_syndrome c = (\<lambda>fpu. gen (fpu w))" "xor_syndrome c = Some (\<lambda>fpu. xor_syn (fpu w))"
  shows "calls_ok c"
  using raid6_xor_mono [OF assms(1,2), of any_fpu "\<lambda>fpu. fpu w"] assms(3,4)
  by (simp add: calls_ok_def any_fpu_def)

lemma int_calls_ok:
  assumes "raid6_xor (\<lambda>_ :: unit. gen) (\<lambda>_. True) W (\<lambda>_. xor_syn)" "W dvd 256"
    and "gen_syndrome c = (\<lambda>fpu. gen)" "xor_syndrome c = Some (\<lambda>fpu. xor_syn)"
  shows "calls_ok c"
  using raid6_xor_mono [OF assms(1,2), of any_fpu] assms(3,4)
  by (simp add: calls_ok_def)

lemma raid6_algos_ok: "c \<in> set (raid6_algos b) \<Longrightarrow> calls_ok c"
proof -
  have "calls_ok raid6_sse2x1" "calls_ok raid6_sse2x2" "calls_ok raid6_sse2x4"
    by (rule vector_calls_ok [OF sse2x1.raid6_xor_axioms] vector_calls_ok [OF sse2x2.raid6_xor_axioms]
          vector_calls_ok [OF sse2x4.raid6_xor_axioms]; simp add: calls_defs)+
  moreover have "calls_ok raid6_avx2x1" "calls_ok raid6_avx2x2" "calls_ok raid6_avx2x4"
    by (rule vector_calls_ok [OF avx2x1.raid6_xor_axioms] vector_calls_ok [OF avx2x2.raid6_xor_axioms]
          vector_calls_ok [OF avx2x4.raid6_xor_axioms]; simp add: calls_defs)+
  moreover have "calls_ok raid6_avx512x1" "calls_ok raid6_avx512x2" "calls_ok raid6_avx512x4"
    by (rule vector_calls_ok [OF avx512x1.raid6_xor_axioms] vector_calls_ok [OF avx512x2.raid6_xor_axioms]
          vector_calls_ok [OF avx512x4.raid6_xor_axioms]; simp add: calls_defs)+
  moreover have "calls_ok raid6_intx1" "calls_ok raid6_intx2" "calls_ok raid6_intx4" "calls_ok raid6_intx8"
    by (rule int_calls_ok [OF intx1.raid6_xor_axioms] int_calls_ok [OF intx2.raid6_xor_axioms]
          int_calls_ok [OF intx4.raid6_xor_axioms] int_calls_ok [OF intx8.raid6_xor_axioms];
          simp add: calls_defs)+
  ultimately show "c \<in> set (raid6_algos b) \<Longrightarrow> calls_ok c"
    by (auto simp: raid6_algos_defs split: if_splits)
qed

text \<open>The 32-bit routines have no \<^verbatim>\<open>xor_syndrome\<close>; their \<^verbatim>\<open>gen_syndrome\<close> meets the contract.\<close>

lemma raid6_gen_mono:
  assumes "raid6_gen gen e w" "w dvd W" "\<And>r. e' r \<Longrightarrow> e (h r)"
  shows "raid6_gen (\<lambda>r. gen (h r)) e' W"
  using assms raid6_gen.gen_syndrome [OF assms(1)] dvd_trans [OF assms(2)]
  by unfold_locales auto

lemma mmx_calls_gen:
  "c \<in> {raid6_mmxx1, raid6_mmxx2, raid6_sse1x1, raid6_sse1x2} \<Longrightarrow> raid6_gen (gen_syndrome c) any_fpu 256"
  using raid6_gen_mono [OF mmxx1.raid6_gen_axioms, of 256 any_fpu "\<lambda>fpu. fpu 8"]
    raid6_gen_mono [OF mmxx2.raid6_gen_axioms, of 256 any_fpu "\<lambda>fpu. fpu 8"]
    raid6_gen_mono [OF sse1x1.raid6_gen_axioms, of 256 any_fpu "\<lambda>fpu. fpu 8"]
    raid6_gen_mono [OF sse1x2.raid6_gen_axioms, of 256 any_fpu "\<lambda>fpu. fpu 8"]
  by (auto simp: calls_defs any_fpu_def)

lemma raid6_algos_i386_gen:
  assumes "c \<in> set (raid6_algos_i386 b)"
  shows "raid6_gen (gen_syndrome c) any_fpu 256"
proof (cases "c \<in> {raid6_mmxx1, raid6_mmxx2, raid6_sse1x1, raid6_sse1x2}")
  case False
  with assms have "c \<in> set (raid6_algos b)" by (auto simp: raid6_algos_i386_def raid6_algos_defs split: if_splits)
  from raid6_algos_ok [OF this] show ?thesis by (auto simp: calls_ok_def dest: raid6_xor.axioms(1))
qed (rule mmx_calls_gen)

lemma raid6_recov_algos_ok: "rc \<in> set (raid6_recov_algos b) \<Longrightarrow> recov_ok rc"
proof -
  have "recov_ok raid6_recov_ssse3"
    unfolding recov_ok_def
  proof (intro allI impI)
    fix gen zp
    assume "raid6_gen gen any_fpu 256"
    from raid6_gen.ssse3x2_recov [OF this]
    show "raid6_recov (\<lambda>(g, f). data2 raid6_recov_ssse3 (gen g) zp f)
        (\<lambda>(g, f). datap raid6_recov_ssse3 (gen g) zp f) (\<lambda>(g, f). any_fpu g \<and> any_fpu f) 256 zp"
      by (rule raid6_recov_mono [where h = "\<lambda>(g, f). (g, f 16)"])
        (auto simp: recov_defs any_fpu_def)
  qed
  moreover have "recov_ok raid6_recov_avx2"
    unfolding recov_ok_def
  proof (intro allI impI)
    fix gen zp
    assume "raid6_gen gen any_fpu 256"
    from raid6_gen.avx2x2_recov [OF this]
    show "raid6_recov (\<lambda>(g, f). data2 raid6_recov_avx2 (gen g) zp f)
        (\<lambda>(g, f). datap raid6_recov_avx2 (gen g) zp f) (\<lambda>(g, f). any_fpu g \<and> any_fpu f) 256 zp"
      by (rule raid6_recov_mono [where h = "\<lambda>(g, f). (g, f 32)"])
        (auto simp: recov_defs any_fpu_def)
  qed
  moreover have "recov_ok raid6_recov_avx512"
    unfolding recov_ok_def
  proof (intro allI impI)
    fix gen zp
    assume "raid6_gen gen any_fpu 256"
    from raid6_gen.avx512x2_recov [OF this]
    show "raid6_recov (\<lambda>(g, f). data2 raid6_recov_avx512 (gen g) zp f)
        (\<lambda>(g, f). datap raid6_recov_avx512 (gen g) zp f) (\<lambda>(g, f). any_fpu g \<and> any_fpu f) 256 zp"
      by (rule raid6_recov_mono [where h = "\<lambda>(g, f). (g, f 64)"])
        (auto simp: recov_defs any_fpu_def)
  qed
  moreover have "recov_ok raid6_recov_intx1"
    unfolding recov_ok_def
  proof (intro allI impI)
    fix gen zp
    assume "raid6_gen gen any_fpu 256"
    from raid6_gen.intx1_recov [OF this]
    show "raid6_recov (\<lambda>(g, f). data2 raid6_recov_intx1 (gen g) zp f)
        (\<lambda>(g, f). datap raid6_recov_intx1 (gen g) zp f) (\<lambda>(g, f). any_fpu g \<and> any_fpu f) 256 zp"
      by (rule raid6_recov_mono [where h = fst]) (auto simp: recov_defs)
  qed
  ultimately show "rc \<in> set (raid6_recov_algos b) \<Longrightarrow> recov_ok rc"
    by (auto simp: raid6_recov_algos_def split: if_splits)
qed

section \<open>What the selection returns\<close>

lemma choose_recov_loop_mem:
  "choose_recov_loop has algos best = Some rc \<Longrightarrow>
   (rc \<in> set algos \<and> usable (rvalid rc) has) \<or> best = Some rc"
  by (induction algos arbitrary: best) (auto split: if_splits)

lemma choose_recov_loop_max:
  "choose_recov_loop has algos best = Some rc \<Longrightarrow>
   (\<forall>a\<in>set algos. usable (rvalid a) has \<longrightarrow> rpriority a \<le> rpriority rc) \<and>
   (\<forall>b. best = Some b \<longrightarrow> rpriority b \<le> rpriority rc)"
proof (induction algos arbitrary: best)
  case (Cons a algos)
  from Cons.IH [OF Cons.prems [simplified]] show ?case
    by (auto split: if_splits intro: le_trans)
qed simp

lemma choose_recov_loop_some: "best \<noteq> None \<Longrightarrow> choose_recov_loop has algos best \<noteq> None"
  by (induction algos arbitrary: best) auto

lemma choose_recov_loop_last:
  "rvalid a = None \<Longrightarrow> choose_recov_loop has (algos @ [a]) best \<noteq> None"
  by (induction algos arbitrary: best) (auto simp: usable_def choose_recov_loop_some)

lemma raid6_choose_recov_some: "raid6_choose_recov b has \<noteq> None"
proof -
  obtain algos where "raid6_recov_algos b = algos @ [raid6_recov_intx1]"
    by (simp add: raid6_recov_algos_def)
  then show ?thesis
    by (simp add: raid6_choose_recov_def choose_recov_loop_last recov_defs)
qed

lemma raid6_choose_recov_best:
  assumes "raid6_choose_recov b has = Some rc"
  shows "rc \<in> set (raid6_recov_algos b)" "usable (rvalid rc) has"
    "a \<in> set (raid6_recov_algos b) \<Longrightarrow> usable (rvalid a) has \<Longrightarrow> rpriority a \<le> rpriority rc"
  using choose_recov_loop_mem [OF assms [unfolded raid6_choose_recov_def]]
    choose_recov_loop_max [OF assms [unfolded raid6_choose_recov_def]]
  by auto

lemma choose_gen_loop_mem:
  "choose_gen_loop bench has perf fpu dptrs disks algos best bp m = (Some c, m') \<Longrightarrow>
   (c \<in> set algos \<and> usable (valid c) has) \<or> best = Some c"
proof (induction algos arbitrary: best bp m)
  case (Cons a algos)
  then show ?case by (auto simp: Let_def split: if_splits dest!: Cons.IH)
qed simp

lemma choose_gen_loop_some:
  "best \<noteq> None \<Longrightarrow> fst (choose_gen_loop bench has perf fpu dptrs disks algos best bp m) \<noteq> None"
  by (induction algos arbitrary: best bp m) (auto simp: Let_def)

lemma choose_gen_loop_exists:
  assumes "a \<in> set algos" "usable (valid a) has" "bench \<Longrightarrow> 0 < perf a"
  shows "fst (choose_gen_loop bench has perf fpu dptrs disks algos None 0 m) \<noteq> None"
  using assms(1)
proof (induction algos arbitrary: m)
  case (Cons b algos)
  then show ?case
    using assms(2,3) choose_gen_loop_some
    by (cases "b = a") (auto simp: Let_def)
qed simp

lemma raid6_algos_int: "raid6_intx1 \<in> set (raid6_algos b)" "usable (valid raid6_intx1) has"
  by (simp_all add: raid6_algos_defs usable_def raid6_intx1_def)

lemma raid6_choose_gen_mem:
  assumes "raid6_choose_gen b bench has perf xperf fpu dptrs disks m = (Some c, m')"
  shows "c \<in> set (raid6_algos b)" "usable (valid c) has"
proof -
  have "c \<in> set (raid6_algos b) \<and> usable (valid c) has"
    using assms
    by (auto simp: raid6_choose_gen_def Let_def split: prod.splits option.splits if_splits
        dest!: choose_gen_loop_mem)
  then show "c \<in> set (raid6_algos b)" "usable (valid c) has" by auto
qed

lemma raid6_choose_gen_some:
  assumes "a \<in> set (raid6_algos b)" "usable (valid a) has" "bench \<Longrightarrow> 0 < perf a"
  obtains c m' where "raid6_choose_gen b bench has perf xperf fpu dptrs disks m = (Some c, m')"
proof -
  have "fst (raid6_choose_gen b bench has perf xperf fpu dptrs disks m) \<noteq> None"
    using choose_gen_loop_exists [where bench = bench and perf = perf and fpu = fpu and dptrs = dptrs and disks = disks and m = m, OF assms]
    by (auto simp: raid6_choose_gen_def Let_def split: prod.splits option.splits if_splits)
  then show thesis
    by (cases "raid6_choose_gen b bench has perf xperf fpu dptrs disks m") (auto intro: that)
qed

text \<open>
  Start-up leaves a working pair of routines behind, provided that the scratch pages could be
  allocated and, when the routines are measured, that one usable routine ran at least once.
\<close>

lemma raid6_select_algo_installs:
  assumes "a \<in> set (raid6_algos b)" "usable (valid a) has" "bench \<Longrightarrow> 0 < perf a"
  obtains c rc m' where
    "raid6_select_algo b bench has perf xperf fpu (Some dptrs) g m =
       (Inr (), g\<lparr>raid6_call := Some c, raid6_2data_recov := Some (data2 rc),
                  raid6_datap_recov := Some (datap rc)\<rparr>, m')"
    "c \<in> set (raid6_algos b)" "usable (valid c) has"
    "rc \<in> set (raid6_recov_algos b)" "usable (rvalid rc) has"
proof -
  let ?m = "fill_pages (take (RAID6_TEST_DISKS - 2) dptrs) 0 m"
  obtain c m' where c: "raid6_choose_gen b bench has perf xperf fpu dptrs RAID6_TEST_DISKS ?m =
      (Some c, m')"
    using raid6_choose_gen_some [where bench = bench and perf = perf, OF assms] by blast
  obtain rc where rc: "raid6_choose_recov b has = Some rc"
    using raid6_choose_recov_some by blast
  show thesis
    by (rule that [OF _ raid6_choose_gen_mem [OF c] raid6_choose_recov_best(1,2) [OF rc]])
      (simp add: raid6_select_algo_def Let_def c rc)
qed

text \<open>Generating, losing two data pages and recovering, with the routines of any two entries.\<close>

lemma calls_ok_gen: "calls_ok c \<Longrightarrow> raid6_gen (gen_syndrome c) any_fpu 256"
  by (auto simp: calls_ok_def dest: raid6_xor.axioms(1))

lemma recov_ok_data2:
  assumes "recov_ok rc" "raid6_gen gen any_fpu 256" "any_fpu g" "any_fpu f"
    and "lost disks bytes {a, b} zp ptrs m0 m" "a < b" "b < disks - 2" "256 dvd bytes"
  shows "data2 rc (gen g) zp f disks bytes a b ptrs m =
    Some (ptrs, restored bytes [ptrs ! a, ptrs ! b] m0 m)"
proof -
  have "raid6_recov (\<lambda>(g, f). data2 rc (gen g) zp f) (\<lambda>(g, f). datap rc (gen g) zp f)
      (\<lambda>(g, f). any_fpu g \<and> any_fpu f) 256 zp"
    using assms by (simp add: recov_ok_def)
  from raid6_recov.data2 [OF this, where r = "(g, f)", OF _ assms(5-8)] show ?thesis
    using assms by simp
qed

lemma recov_ok_datap:
  assumes "recov_ok rc" "raid6_gen gen any_fpu 256" "any_fpu g" "any_fpu f"
    and "lost disks bytes {a, disks - 2} zp ptrs m0 m" "a < disks - 2" "256 dvd bytes"
  shows "datap rc (gen g) zp f disks bytes a ptrs m =
    Some (ptrs, restored bytes [ptrs ! (disks - 2), ptrs ! a] m0 m)"
proof -
  have "raid6_recov (\<lambda>(g, f). data2 rc (gen g) zp f) (\<lambda>(g, f). datap rc (gen g) zp f)
      (\<lambda>(g, f). any_fpu g \<and> any_fpu f) 256 zp"
    using assms by (simp add: recov_ok_def)
  from raid6_recov.datap [OF this, where r = "(g, f)", OF _ assms(5-7)] show ?thesis
    using assms by simp
qed

end
