(* ===== verification/Raid6_System.thy ===== *)
theory Raid6_System
  imports Raid6_Algos
begin

text \<open>
  The RAID-6 library as a whole: what a stripe driver obtains by calling the routines that
  \<^verbatim>\<open>raid6_select_algo\<close> installed, one after the other. A generated stripe is in sync, the two
  \<^verbatim>\<open>xor_syndrome\<close> calls of a read-modify-write keep it in sync, and the recovery calls bring
  lost pages back.
\<close>

section \<open>Generated stripes are in sync\<close>

lemma gen_syndrome_spec_same:
  assumes "a \<noteq> ptrs ! (disks - 2)" "a \<noteq> ptrs ! (disks - 1)"
  shows "gen_syndrome_spec disks bytes ptrs m a = m a"
  using assms by (simp add: gen_syndrome_spec_def Let_def)

lemma gen_syndrome_spec_length:
  assumes "stripe_ok disks bytes ptrs m"
  shows "length (gen_syndrome_spec disks bytes ptrs m a) = length (m a)"
  using stripe_ok_length [OF assms] stripe_ok_disks [OF assms]
  by (auto simp: gen_syndrome_spec_def Let_def)

lemma gen_syndrome_spec_synced:
  assumes "stripe_ok disks bytes ptrs m"
  shows "synced disks bytes ptrs (gen_syndrome_spec disks bytes ptrs m)"
proof -
  let ?m = "gen_syndrome_spec disks bytes ptrs m"
  have same: "?m (ptrs ! z) = m (ptrs ! z)" if "z < disks - 2" for z
    using stripe_ok_pq(2,3) [OF assms that] by (rule gen_syndrome_spec_same)
  have "pbyte 0 (disks - 2) ptrs ?m i = pbyte 0 (disks - 2) ptrs m i"
    "qbyte 0 (disks - 2) ptrs ?m i = qbyte 0 (disks - 2) ptrs m i" for i
    by (rule pbyte_cong qbyte_cong; simp add: same)+
  moreover have "bytes \<le> length (m (ptrs ! (disks - 2)))" "bytes \<le> length (m (ptrs ! (disks - 1)))"
    using stripe_ok_length [OF assms] stripe_ok_disks [OF assms] by auto
  ultimately show ?thesis
    using stripe_ok_pq(1) [OF assms]
    by (auto simp: synced_def gen_syndrome_spec_def Let_def nth_put)
qed

section \<open>Read-modify-write\<close>

definition outside :: "nat \<Rightarrow> nat \<Rightarrow> nat \<Rightarrow> (nat \<Rightarrow> u8) \<Rightarrow> u8" where
  "outside lo hi n f = xsum n (\<lambda>i. if lo \<le> i \<and> i < hi then 0 else f i)"

lemma xsum_beyond: "hi \<le> n \<Longrightarrow> xsum n (\<lambda>i. if i < hi then f i else 0) = xsum hi f"
proof (induction n)
  case (Suc n)
  have "xsum n (\<lambda>i. if i < Suc n then f i else 0) = xsum n f"
    by (rule xsum_cong) auto
  with Suc show ?case by (cases "hi = Suc n") auto
qed simp

lemma xsum_split:
  assumes "hi \<le> n"
  shows "xsum n f = xsum_range lo hi f XOR outside lo hi n f"
proof -
  have "xsum n (\<lambda>i. if i < hi then if lo \<le> i then f i else 0 else 0) = xsum_range lo hi f"
    unfolding xsum_range_def by (rule xsum_beyond [OF assms])
  moreover have "xsum n f = xsum n (\<lambda>i. (if i < hi then if lo \<le> i then f i else 0 else 0) XOR
      (if lo \<le> i \<and> i < hi then 0 else f i))"
    by (rule xsum_cong) auto
  ultimately show ?thesis
    by (simp add: xsum_xor outside_def)
qed

lemma outside_cong:
  "(\<And>i. i < n \<Longrightarrow> \<not> (lo \<le> i \<and> i < hi) \<Longrightarrow> f i = g i) \<Longrightarrow> outside lo hi n f = outside lo hi n g"
  unfolding outside_def by (rule xsum_cong) auto

text \<open>
  Memory \<open>m'\<close> is \<open>m\<close> with new contents in the data pages of the slots \<open>start\<close> to \<open>stop\<close>; no other
  slot of the stripe shares one of these pages.
\<close>

definition rewritten :: "nat \<Rightarrow> nat \<Rightarrow> nat \<Rightarrow> addr list \<Rightarrow> mem \<Rightarrow> mem \<Rightarrow> bool" where
  "rewritten disks start stop ptrs m m' \<longleftrightarrow>
     (\<forall>a. length (m' a) = length (m a)) \<and>
     (\<forall>z<disks. \<not> (start \<le> z \<and> z \<le> stop) \<longrightarrow> m' (ptrs ! z) = m (ptrs ! z))"

lemma rewritten_stripe:
  "stripe_ok disks bytes ptrs m \<Longrightarrow> rewritten disks start stop ptrs m m' \<Longrightarrow> stripe_ok disks bytes ptrs m'"
  by (erule stripe_ok_upd) (simp add: rewritten_def)

lemma xor_syndrome_spec_same:
  assumes "a \<noteq> ptrs ! (disks - 2)" "a \<noteq> ptrs ! (disks - 1)"
  shows "xor_syndrome_spec disks start stop bytes ptrs m a = m a"
  using assms by (simp add: xor_syndrome_spec_def Let_def)

lemma xor_syndrome_spec_length:
  assumes "stripe_ok disks bytes ptrs m"
  shows "length (xor_syndrome_spec disks start stop bytes ptrs m a) = length (m a)"
  using stripe_ok_length [OF assms] stripe_ok_disks [OF assms]
  by (auto simp: xor_syndrome_spec_def Let_def)

lemma xor_syndrome_spec_pq:
  assumes "stripe_ok disks bytes ptrs m" "i < bytes"
  shows "xor_syndrome_spec disks start stop bytes ptrs m (ptrs ! (disks - 2)) ! i =
      m (ptrs ! (disks - 2)) ! i XOR pbyte start (Suc stop) ptrs m i"
    and "xor_syndrome_spec disks start stop bytes ptrs m (ptrs ! (disks - 1)) ! i =
      m (ptrs ! (disks - 1)) ! i XOR qbyte start (Suc stop) ptrs m i"
  using stripe_ok_pq(1) [OF assms(1)] stripe_ok_disks [OF assms(1)] assms(2)
    stripe_ok_length [OF assms(1), of "disks - 2"] stripe_ok_length [OF assms(1), of "disks - 1"]
  by (simp_all add: xor_syndrome_spec_def Let_def nth_put)

lemma read_modify_write:
  assumes ok: "stripe_ok disks bytes ptrs m" and sync: "synced disks bytes ptrs m"
    and "stop < disks - 2"
    and rw: "rewritten disks start stop ptrs (xor_syndrome_spec disks start stop bytes ptrs m) m'"
  shows "synced disks bytes ptrs (xor_syndrome_spec disks start stop bytes ptrs m')"
proof -
  let ?m1 = "xor_syndrome_spec disks start stop bytes ptrs m"
  let ?m3 = "xor_syndrome_spec disks start stop bytes ptrs m'"
  have ok1: "stripe_ok disks bytes ptrs ?m1"
    by (rule stripe_ok_upd [OF ok]) (rule xor_syndrome_spec_length [OF ok])
  then have ok': "stripe_ok disks bytes ptrs m'" using rw by (rule rewritten_stripe)
  have 4: "4 \<le> disks" using stripe_ok_disks [OF ok] by simp
  have keep: "m' (ptrs ! z) = ?m1 (ptrs ! z)" if "z < disks" "\<not> (start \<le> z \<and> z \<le> stop)" for z
    using rw that by (auto simp: rewritten_def)
  have data1: "?m1 (ptrs ! z) = m (ptrs ! z)" and data3: "?m3 (ptrs ! z) = m' (ptrs ! z)"
    if "z < disks - 2" for z
    using stripe_ok_pq(2,3) [OF ok that] by (simp_all add: xor_syndrome_spec_same)
  have out: "outside start (Suc stop) (disks - 2) (\<lambda>z. h z (m (ptrs ! z) ! i)) =
      outside start (Suc stop) (disks - 2) (\<lambda>z. h z (m' (ptrs ! z) ! i))" for i and h :: "nat \<Rightarrow> u8 \<Rightarrow> u8"
    by (rule outside_cong) (use keep data1 in auto)
  have "?m3 (ptrs ! (disks - 2)) ! i = pbyte 0 (disks - 2) ptrs ?m3 i \<and>
      ?m3 (ptrs ! (disks - 1)) ! i = qbyte 0 (disks - 2) ptrs ?m3 i" if "i < bytes" for i
  proof -
    have pq: "m' (ptrs ! (disks - 2)) = ?m1 (ptrs ! (disks - 2))"
      "m' (ptrs ! (disks - 1)) = ?m1 (ptrs ! (disks - 1))"
      using assms(3) 4 by (auto intro!: keep)
    have m3: "pbyte 0 (disks - 2) ptrs ?m3 i = pbyte 0 (disks - 2) ptrs m' i"
      "qbyte 0 (disks - 2) ptrs ?m3 i = qbyte 0 (disks - 2) ptrs m' i"
      by (rule pbyte_cong qbyte_cong; simp add: data3)+
    have split: "xsum (disks - 2) f = xsum_range start (Suc stop) f XOR outside start (Suc stop) (disks - 2) f"
      for f using assms(3) by (intro xsum_split) simp
    have "?m1 (ptrs ! (disks - 2)) ! i = outside start (Suc stop) (disks - 2) (\<lambda>z. m' (ptrs ! z) ! i)"
      "?m1 (ptrs ! (disks - 1)) ! i =
        outside start (Suc stop) (disks - 2) (\<lambda>z. gfmul (gexp z) (m' (ptrs ! z) ! i))"
      using xor_syndrome_spec_pq [OF ok that] sync that out [of "\<lambda>z b. b" i]
        out [of "\<lambda>z. gfmul (gexp z)" i]
      unfolding synced_def by (simp_all add: pbyte_def qbyte_def split xor.commute)
    then show ?thesis
      unfolding m3 xor_syndrome_spec_pq [OF ok' that] pq
      by (simp only: pbyte_def qbyte_def xsum_range_0 split xor.commute)
  qed
  then show ?thesis by (simp add: synced_def)
qed

section \<open>Loss and recovery through the installed routines\<close>

text \<open>
  Memory \<open>m'\<close> after the pages of the slots \<open>js\<close> were overwritten; the zero page and the other
  pages are as before, and no other slot shares a lost page.
\<close>

definition overwritten :: "nat \<Rightarrow> nat set \<Rightarrow> addr \<Rightarrow> addr list \<Rightarrow> mem \<Rightarrow> mem \<Rightarrow> bool" where
  "overwritten disks js zp ptrs m m' \<longleftrightarrow>
     (\<forall>a. length (m' a) = length (m a)) \<and>
     (\<forall>j\<in>js. ptrs ! j \<noteq> zp \<and> (\<forall>z<disks. z \<noteq> j \<longrightarrow> ptrs ! z \<noteq> ptrs ! j)) \<and>
     (\<forall>a. a \<notin> (!) ptrs ` js \<longrightarrow> m' a = m a)"

definition zero_page :: "nat \<Rightarrow> addr \<Rightarrow> addr list \<Rightarrow> mem \<Rightarrow> bool" where
  "zero_page bytes zp ptrs m \<longleftrightarrow> zp \<notin> set ptrs \<and> bytes \<le> length (m zp) \<and> (\<forall>i<bytes. m zp ! i = 0)"

lemma lost_generated:
  assumes "stripe_ok disks bytes ptrs m" "disks \<le> 257" "zero_page bytes zp ptrs m"
    and "js \<subseteq> {..<disks}" "overwritten disks js zp ptrs (gen_syndrome_spec disks bytes ptrs m) m'"
  shows "lost disks bytes js zp ptrs (gen_syndrome_spec disks bytes ptrs m) m'"
proof -
  let ?g = "gen_syndrome_spec disks bytes ptrs m"
  have pq: "ptrs ! (disks - 2) \<in> set ptrs" "ptrs ! (disks - 1) \<in> set ptrs"
    using stripe_ok_disks [OF assms(1)] by auto
  with assms(3) have zp: "?g zp = m zp"
    by (intro gen_syndrome_spec_same) (auto simp: zero_page_def)
  have "zp \<notin> (!) ptrs ` js"
    using assms(3,4) stripe_ok_disks [OF assms(1)] by (auto simp: zero_page_def)
  then have "m' zp = m zp" using assms(5) zp by (simp add: overwritten_def)
  moreover have g: "stripe_ok disks bytes ptrs ?g"
    by (rule stripe_ok_upd [OF assms(1)]) (rule gen_syndrome_spec_length [OF assms(1)])
  moreover have "stripe_ok disks bytes ptrs m'"
    by (rule stripe_ok_upd [OF g]) (use assms(5) in \<open>auto simp: overwritten_def\<close>)
  ultimately show ?thesis
    using assms gen_syndrome_spec_synced [OF assms(1)]
    by (auto simp: lost_def zero_page_def overwritten_def)
qed

text \<open>A successful start-up installed entries of the two tables.\<close>

lemma raid6_select_algo_inv:
  assumes "raid6_select_algo b bench has perf xperf fpu d g0 m0 = (Inr (), g, m1)"
  obtains c rc where "raid6_call g = Some c" "c \<in> set (raid6_algos b)" "usable (valid c) has"
    "raid6_2data_recov g = Some (data2 rc)" "raid6_datap_recov g = Some (datap rc)"
    "rc \<in> set (raid6_recov_algos b)" "usable (rvalid rc) has"
proof -
  obtain dptrs where d: "d = Some dptrs"
    using assms by (cases d) (auto simp: raid6_select_algo_def)
  let ?m = "fill_pages (take (RAID6_TEST_DISKS - 2) dptrs) 0 m0"
  obtain best m' where best: "raid6_choose_gen b bench has perf xperf fpu dptrs RAID6_TEST_DISKS ?m =
      (best, m')" by fastforce
  with assms d obtain c where c: "best = Some c"
    by (cases best) (auto simp: raid6_select_algo_def Let_def)
  obtain rc where rc: "raid6_choose_recov b has = Some rc"
    using raid6_choose_recov_some by blast
  have "g = g0\<lparr>raid6_call := Some c, raid6_2data_recov := Some (data2 rc),
      raid6_datap_recov := Some (datap rc)\<rparr>"
    using assms by (simp add: raid6_select_algo_def Let_def d best c rc)
  with raid6_choose_gen_mem [OF best [unfolded c]] raid6_choose_recov_best(1,2) [OF rc]
  show thesis by (intro that [of c rc]) simp_all
qed

lemma recovered_stripe:
  assumes "lost disks bytes js zp ptrs m0 m" "(!) ptrs ` js \<subseteq> set as" "z < disks"
  shows "take bytes (restored bytes as m0 m (ptrs ! z)) = take bytes (m0 (ptrs ! z))"
  using lostD(9) [OF assms(1), of "ptrs ! z"] stripe_ok_length [OF lostD(2) [OF assms(1)] assms(3)]
    stripe_ok_length [OF lostD(1) [OF assms(1)] assms(3)] assms(2)
  by (intro restored_take) auto

lemma protected_data2:
  assumes "calls_ok c" "recov_ok rc" "any_fpu f1" "any_fpu f2" "any_fpu f3"
    and "stripe_ok disks bytes ptrs m" "disks \<le> 257" "256 dvd bytes" "zero_page bytes zp ptrs m"
    and "a < b" "b < disks - 2"
    and "overwritten disks {a, b} zp ptrs (gen_syndrome c f1 disks bytes ptrs m) m'"
  obtains r where "data2 rc (gen_syndrome c f2) zp f3 disks bytes a b ptrs m' = Some (ptrs, r)"
    "\<And>z. z < disks \<Longrightarrow> take bytes (r (ptrs ! z)) = take bytes (gen_syndrome c f1 disks bytes ptrs m (ptrs ! z))"
proof -
  have gen: "gen_syndrome c f1 disks bytes ptrs m = gen_syndrome_spec disks bytes ptrs m"
    using raid6_gen.gen_syndrome [OF calls_ok_gen [OF assms(1)]] assms(3,6,8) by blast
  have l: "lost disks bytes {a, b} zp ptrs (gen_syndrome c f1 disks bytes ptrs m) m'"
    using assms(6,7,9-12) unfolding gen by (intro lost_generated) auto
  show thesis
    by (rule that [OF recov_ok_data2 [OF assms(2) calls_ok_gen [OF assms(1)] assms(4,5) l assms(10,11,8)]
          recovered_stripe [OF l]]) auto
qed

lemma protected_datap:
  assumes "calls_ok c" "recov_ok rc" "any_fpu f1" "any_fpu f2" "any_fpu f3"
    and "stripe_ok disks bytes ptrs m" "disks \<le> 257" "256 dvd bytes" "zero_page bytes zp ptrs m"
    and "a < disks - 2"
    and "overwritten disks {a, disks - 2} zp ptrs (gen_syndrome c f1 disks bytes ptrs m) m'"
  obtains r where "datap rc (gen_syndrome c f2) zp f3 disks bytes a ptrs m' = Some (ptrs, r)"
    "\<And>z. z < disks \<Longrightarrow> take bytes (r (ptrs ! z)) = take bytes (gen_syndrome c f1 disks bytes ptrs m (ptrs ! z))"
proof -
  have gen: "gen_syndrome c f1 disks bytes ptrs m = gen_syndrome_spec disks bytes ptrs m"
    using raid6_gen.gen_syndrome [OF calls_ok_gen [OF assms(1)]] assms(3,6,8) by blast
  have l: "lost disks bytes {a, disks - 2} zp ptrs (gen_syndrome c f1 disks bytes ptrs m) m'"
    using assms(6,7,9-11) unfolding gen by (intro lost_generated) auto
  show thesis
    by (rule that [OF recov_ok_datap [OF assms(2) calls_ok_gen [OF assms(1)] assms(4,5) l assms(10,8)]
          recovered_stripe [OF l]]) auto
qed

section \<open>The nibble tables\<close>

lemma vgfmul_nibbles:
  "raid6_vgfmul ! unat a ! unat (b AND 15) XOR raid6_vgfmul ! unat a ! (16 + unat (drop_bit 4 b)) = gfmul a b"
  using nth_raid6_vgfmul_low [OF unat_and_15, of a b] nth_raid6_vgfmul_high [OF unat_drop_4, of a b]
    nibbles [of a b]
  by (simp add: xor.commute)

end
