(* ===== verification/ISAL_Matrix.thy ===== *)
theory ISAL_Matrix
  imports ISAL_Tables
begin

text \<open>
  The matrix routines of \<^verbatim>\<open>isa-l/ec_base.c\<close>: the two generator matrices and the inversion by
  Gauss-Jordan elimination. A C matrix is a flat array, here the list of its bytes with entry
  (row, column) at \<open>row * n + column\<close>; \<open>mat n xs\<close> reads it as a function. The elimination is shown
  to multiply both arrays by the same invertible matrices, so that a returned 0 comes with a
  two-sided inverse and a returned -1 with a vector that the input maps to zero.
\<close>

section \<open>The code\<close>

definition gf_gen_rs_matrix :: "nat \<Rightarrow> nat \<Rightarrow> u8 list" where
  "gf_gen_rs_matrix m k =
     (let a = replicate (k * m) 0;
          a = for_up 0 k (\<lambda>i a. a[k * i + i := 1]) a;
          (a, gen) = for_up k m (\<lambda>i (a, gen).
            let (a, p) = for_up 0 k (\<lambda>j (a, p). (a[k * i + j := p], gf_mul p gen)) (a, 1)
            in (a, gf_mul gen 2)) (a, 1)
      in a)"

definition gf_gen_cauchy1_matrix :: "nat \<Rightarrow> nat \<Rightarrow> u8 list" where
  "gf_gen_cauchy1_matrix m k =
     (let a = replicate (k * m) 0;
          a = for_up 0 k (\<lambda>i a. a[k * i + i := 1]) a;
          p = k * k;
          (a, p) = for_up k m (\<lambda>i. for_up 0 k (\<lambda>j (a, p).
            (a[p := gf_inv (word_of_nat (i XOR j))], Suc p))) (a, p)
      in a)"

text \<open>The row found by the pivot search of \<^verbatim>\<open>gf_invert_matrix\<close>; \<open>n\<close> when there is none.\<close>

definition pivot_row :: "nat \<Rightarrow> nat \<Rightarrow> u8 list \<Rightarrow> nat" where
  "pivot_row n i in_mat =
     (case find (\<lambda>j. in_mat ! (j * n + i) \<noteq> 0) [i + 1..<n] of None \<Rightarrow> n | Some j \<Rightarrow> j)"

definition swap_rows :: "nat \<Rightarrow> nat \<Rightarrow> nat \<Rightarrow> u8 list \<times> u8 list \<Rightarrow> u8 list \<times> u8 list" where
  "swap_rows n i j = for_up 0 n (\<lambda>k (in_mat, out_mat).
     let temp = in_mat ! (i * n + k);
         in_mat = in_mat[i * n + k := in_mat ! (j * n + k)];
         in_mat = in_mat[j * n + k := temp];
         temp = out_mat ! (i * n + k);
         out_mat = out_mat[i * n + k := out_mat ! (j * n + k)];
         out_mat = out_mat[j * n + k := temp]
     in (in_mat, out_mat))"

definition scale_row :: "nat \<Rightarrow> nat \<Rightarrow> u8 list \<times> u8 list \<Rightarrow> u8 list \<times> u8 list" where
  "scale_row n i = (\<lambda>(in_mat, out_mat).
     let temp = gf_inv (in_mat ! (i * n + i))
     in for_up 0 n (\<lambda>j (in_mat, out_mat).
          (in_mat[i * n + j := gf_mul (in_mat ! (i * n + j)) temp],
           out_mat[i * n + j := gf_mul (out_mat ! (i * n + j)) temp])) (in_mat, out_mat))"

definition clear_row :: "nat \<Rightarrow> nat \<Rightarrow> nat \<Rightarrow> u8 list \<times> u8 list \<Rightarrow> u8 list \<times> u8 list" where
  "clear_row n i j = (\<lambda>(in_mat, out_mat).
     let temp = in_mat ! (j * n + i)
     in for_up 0 n (\<lambda>k (in_mat, out_mat).
          let out_mat = out_mat[j * n + k := out_mat ! (j * n + k) XOR gf_mul temp (out_mat ! (i * n + k))];
              in_mat = in_mat[j * n + k := in_mat ! (j * n + k) XOR gf_mul temp (in_mat ! (i * n + k))]
          in (in_mat, out_mat)) (in_mat, out_mat))"

definition clear_column :: "nat \<Rightarrow> nat \<Rightarrow> u8 list \<times> u8 list \<Rightarrow> u8 list \<times> u8 list" where
  "clear_column n i = for_up 0 n (\<lambda>j s. if j = i then s else clear_row n i j s)"

fun invert_loop :: "nat \<Rightarrow> nat list \<Rightarrow> u8 list \<times> u8 list \<Rightarrow> int \<times> u8 list \<times> u8 list" where
  "invert_loop n [] s = (0, s)"
| "invert_loop n (i # is) s =
     (if fst s ! (i * n + i) = 0 then
        let j = pivot_row n i (fst s)
        in if j = n then (-1, s)
           else invert_loop n is (clear_column n i (scale_row n i (swap_rows n i j s)))
      else invert_loop n is (clear_column n i (scale_row n i s)))"

definition gf_invert_matrix :: "u8 list \<Rightarrow> u8 list \<Rightarrow> nat \<Rightarrow> int \<times> u8 list \<times> u8 list" where
  "gf_invert_matrix in_mat out_mat n =
     (let out_mat = for_up 0 (n * n) (\<lambda>i out_mat. out_mat[i := 0]) out_mat;
          out_mat = for_up 0 n (\<lambda>i out_mat. out_mat[i * n + i := 1]) out_mat
      in invert_loop n [0..<n] (in_mat, out_mat))"

section \<open>Flat matrices\<close>

definition mat :: "nat \<Rightarrow> u8 list \<Rightarrow> nat \<Rightarrow> nat \<Rightarrow> u8" where
  "mat n xs i j = xs ! (i * n + j)"

lemma flat_less [simp]: "i < m \<Longrightarrow> j < n \<Longrightarrow> i * n + j < m * (n :: nat)"
  by (metis add.commute mult_Suc mult_le_mono1 Suc_leI nat_add_left_cancel_less order_less_le_trans)

lemma flat_eq_iff: "j < n \<Longrightarrow> j' < n \<Longrightarrow> i * n + j = i' * n + j' \<longleftrightarrow> i = i' \<and> j = (j' :: nat)"
  by (metis add.commute add_left_imp_eq div_mult_self3 mod_mult_self3 mod_less div_less add_0
      less_nat_zero_code)

lemma mat_update:
  assumes "length xs = m * n" "r < m" "c < n" "i < m" "j < n"
  shows "mat n (xs[i * n + j := v]) r c = (if r = i \<and> c = j then v else mat n xs r c)"
  using assms by (auto simp: mat_def nth_list_update flat_eq_iff)

section \<open>Matrix algebra\<close>

definition mmul :: "nat \<Rightarrow> (nat \<Rightarrow> nat \<Rightarrow> u8) \<Rightarrow> (nat \<Rightarrow> nat \<Rightarrow> u8) \<Rightarrow> nat \<Rightarrow> nat \<Rightarrow> u8" where
  "mmul n A B i j = xsum n (\<lambda>k. gfmul (A i k) (B k j))"

definition idm :: "nat \<Rightarrow> nat \<Rightarrow> u8" where
  "idm i j = (if i = j then 1 else 0)"

definition meq :: "nat \<Rightarrow> (nat \<Rightarrow> nat \<Rightarrow> u8) \<Rightarrow> (nat \<Rightarrow> nat \<Rightarrow> u8) \<Rightarrow> bool" where
  "meq n A B \<longleftrightarrow> (\<forall>i<n. \<forall>j<n. A i j = B i j)"

lemma meqI: "(\<And>i j. i < n \<Longrightarrow> j < n \<Longrightarrow> A i j = B i j) \<Longrightarrow> meq n A B"
  by (simp add: meq_def)

lemma meqD: "meq n A B \<Longrightarrow> i < n \<Longrightarrow> j < n \<Longrightarrow> A i j = B i j"
  by (simp add: meq_def)

lemma meq_refl [simp]: "meq n A A"
  by (simp add: meq_def)

lemma meq_sym: "meq n A B \<Longrightarrow> meq n B A"
  by (simp add: meq_def)

lemma meq_trans [trans]: "meq n A B \<Longrightarrow> meq n B C \<Longrightarrow> meq n A C"
  by (simp add: meq_def)

lemma mmul_cong: "meq n A A' \<Longrightarrow> meq n B B' \<Longrightarrow> meq n (mmul n A B) (mmul n A' B')"
  by (auto simp: meq_def mmul_def intro!: xsum_cong)

lemma gfmul_xsum_left: "gfmul (xsum n f) c = xsum n (\<lambda>k. gfmul (f k) c)"
  by (simp only: gfmul_commute [of _ c] gf.mul_xsum)

lemma mmul_assoc: "mmul n (mmul n A B) C = mmul n A (mmul n B C)"
proof (intro ext)
  fix i j
  have "mmul n (mmul n A B) C i j = xsum n (\<lambda>l. xsum n (\<lambda>k. gfmul (gfmul (A i k) (B k l)) (C l j)))"
    by (simp only: mmul_def gfmul_xsum_left)
  also have "\<dots> = xsum n (\<lambda>k. xsum n (\<lambda>l. gfmul (gfmul (A i k) (B k l)) (C l j)))"
    by (rule xsum_swap)
  finally show "mmul n (mmul n A B) C i j = mmul n A (mmul n B C) i j"
    by (simp only: mmul_def gf.mul_xsum gfmul_assoc)
qed

lemma mmul_delta:
  assumes "j < n"
  shows "xsum n (\<lambda>k. gfmul (if k = j then c else 0) (f k)) = gfmul c (f j)"
    and "xsum n (\<lambda>k. gfmul (f k) (if k = j then c else 0)) = gfmul (f j) c"
proof -
  have "xsum n (\<lambda>k. gfmul (if k = j then c else 0) (f k)) = xsum n (\<lambda>k. if k = j then gfmul c (f k) else 0)"
    by (rule xsum_cong) auto
  then show "xsum n (\<lambda>k. gfmul (if k = j then c else 0) (f k)) = gfmul c (f j)"
    using assms by simp
  have "xsum n (\<lambda>k. gfmul (f k) (if k = j then c else 0)) = xsum n (\<lambda>k. if k = j then gfmul (f k) c else 0)"
    by (rule xsum_cong) auto
  then show "xsum n (\<lambda>k. gfmul (f k) (if k = j then c else 0)) = gfmul (f j) c"
    using assms by simp
qed

lemma mmul_idm: "meq n (mmul n idm A) A" "meq n (mmul n A idm) A"
proof -
  have "xsum n (\<lambda>k. gfmul (idm i k) (A k j)) = A i j" if "i < n" for i j
    using mmul_delta(1) [OF that, of 1 "\<lambda>k. A k j"] by (simp add: idm_def eq_commute [of i])
  moreover have "xsum n (\<lambda>k. gfmul (A i k) (idm k j)) = A i j" if "j < n" for i j
    using mmul_delta(2) [OF that, of "\<lambda>k. A i k" 1] by (simp add: idm_def)
  ultimately show "meq n (mmul n idm A) A" "meq n (mmul n A idm) A"
    by (simp_all add: meq_def mmul_def)
qed

text \<open>
  The elimination keeps this invariant of its two arrays \<open>A\<close> and \<open>B\<close>, read as matrices: \<open>B\<close> times
  the input \<open>A0\<close> is \<open>A\<close>, and some matrix \<open>E\<close> undoes the row operations performed so far.
\<close>

definition reduced :: "nat \<Rightarrow> (nat \<Rightarrow> nat \<Rightarrow> u8) \<Rightarrow> (nat \<Rightarrow> nat \<Rightarrow> u8) \<Rightarrow> (nat \<Rightarrow> nat \<Rightarrow> u8) \<Rightarrow> bool" where
  "reduced n A0 A B \<longleftrightarrow> meq n (mmul n B A0) A \<and>
     (\<exists>E. meq n (mmul n E B) idm \<and> meq n (mmul n E A) A0)"

lemma reduced_init: "reduced n A0 A0 idm"
  unfolding reduced_def using mmul_idm by (intro conjI exI [of _ idm]) auto

lemma reduced_step:
  assumes red: "reduced n A0 A B" and inv: "meq n (mmul n R' R) idm"
    and A': "meq n A' (mmul n R A)" and B': "meq n B' (mmul n R B)"
  shows "reduced n A0 A' B'"
proof -
  obtain E where BA: "meq n (mmul n B A0) A" and EB: "meq n (mmul n E B) idm" and EA: "meq n (mmul n E A) A0"
    using red by (auto simp: reduced_def)
  have cancel: "meq n (mmul n (mmul n E R') (mmul n R X)) (mmul n E X)" for X
  proof -
    have "meq n (mmul n (mmul n E R') (mmul n R X)) (mmul n E (mmul n (mmul n R' R) X))"
      by (simp only: mmul_assoc meq_refl)
    also have "meq n \<dots> (mmul n E (mmul n idm X))"
      using inv by (intro mmul_cong meq_refl)
    also have "meq n \<dots> (mmul n E X)"
      using mmul_idm by (intro mmul_cong meq_refl)
    finally show ?thesis .
  qed
  have "meq n (mmul n B' A0) (mmul n (mmul n R B) A0)"
    using B' by (intro mmul_cong meq_refl)
  also have "meq n \<dots> (mmul n R (mmul n B A0))" by (simp only: mmul_assoc meq_refl)
  also have "meq n \<dots> (mmul n R A)" using BA by (intro mmul_cong meq_refl)
  also have "meq n \<dots> A'" using A' by (rule meq_sym)
  finally have "meq n (mmul n B' A0) A'" .
  moreover have "meq n (mmul n (mmul n E R') B') idm"
    using meq_trans [OF mmul_cong [OF meq_refl B'] meq_trans [OF cancel EB]] .
  moreover have "meq n (mmul n (mmul n E R') A') A0"
    using meq_trans [OF mmul_cong [OF meq_refl A'] meq_trans [OF cancel EA]] .
  ultimately show ?thesis unfolding reduced_def by blast
qed

text \<open>When \<open>A\<close> has become the identity, \<open>B\<close> is a two-sided inverse of the input.\<close>

lemma reduced_inverse:
  assumes "reduced n A0 A B" "meq n A idm"
  shows "meq n (mmul n B A0) idm" "meq n (mmul n A0 B) idm"
proof -
  obtain E where BA: "meq n (mmul n B A0) A" and EB: "meq n (mmul n E B) idm" and EA: "meq n (mmul n E A) A0"
    using assms(1) by (auto simp: reduced_def)
  show "meq n (mmul n B A0) idm" using BA assms(2) by (rule meq_trans)
  have "meq n A0 (mmul n E idm)"
    using meq_trans [OF meq_sym [OF EA] mmul_cong [OF meq_refl assms(2)]] .
  then have "meq n A0 E" using mmul_idm(2) by (rule meq_trans)
  then have "meq n (mmul n A0 B) (mmul n E B)" by (intro mmul_cong meq_refl)
  then show "meq n (mmul n A0 B) idm" using EB by (rule meq_trans)
qed

text \<open>A vector that \<open>A\<close> maps to zero is mapped to zero by the input as well.\<close>

lemma reduced_kernel:
  assumes "reduced n A0 A B" and v: "\<And>r. r < n \<Longrightarrow> xsum n (\<lambda>c. gfmul (A r c) (v c)) = 0" and "r < n"
  shows "xsum n (\<lambda>c. gfmul (A0 r c) (v c)) = 0"
proof -
  obtain E where EA: "meq n (mmul n E A) A0" using assms(1) by (auto simp: reduced_def)
  have "xsum n (\<lambda>c. gfmul (A0 r c) (v c)) = mmul n (mmul n E A) (\<lambda>c _. v c) r 0"
    unfolding mmul_def [of n "mmul n E A"] using meqD [OF EA assms(3)] by (intro xsum_cong) auto
  also have "\<dots> = mmul n E (mmul n A (\<lambda>c _. v c)) r 0" by (simp only: mmul_assoc)
  also have "\<dots> = 0"
    unfolding mmul_def [of n E] using v by (intro xsum_zero_all) (simp add: mmul_def [of n A])
  finally show ?thesis .
qed

section \<open>The loops as row operations\<close>

text \<open>Both arrays go through the same loop, independently of each other.\<close>

lemma for_up_pair:
  "for_up lo hi (\<lambda>k (a, b). (f k a, g k b)) (a, b) = (for_up lo hi f a, for_up lo hi g b)"
proof (induction hi)
  case (Suc hi)
  then show ?case by (cases "lo \<le> hi") (simp_all add: for_up_Suc)
qed simp

definition swap1 :: "nat \<Rightarrow> nat \<Rightarrow> nat \<Rightarrow> u8 list \<Rightarrow> u8 list" where
  "swap1 n i j = for_up 0 n (\<lambda>k a. a[i * n + k := a ! (j * n + k), j * n + k := a ! (i * n + k)])"

definition scale1 :: "nat \<Rightarrow> nat \<Rightarrow> u8 \<Rightarrow> u8 list \<Rightarrow> u8 list" where
  "scale1 n i t = for_up 0 n (\<lambda>j a. a[i * n + j := gf_mul (a ! (i * n + j)) t])"

definition clear1 :: "nat \<Rightarrow> nat \<Rightarrow> nat \<Rightarrow> u8 \<Rightarrow> u8 list \<Rightarrow> u8 list" where
  "clear1 n i j t = for_up 0 n (\<lambda>k a. a[j * n + k := a ! (j * n + k) XOR gf_mul t (a ! (i * n + k))])"

lemma swap_rows_eq: "swap_rows n i j (A, B) = (swap1 n i j A, swap1 n i j B)"
  by (simp add: swap_rows_def swap1_def Let_def for_up_pair)

lemma scale_row_eq: "scale_row n i (A, B) =
    (scale1 n i (gf_inv (A ! (i * n + i))) A, scale1 n i (gf_inv (A ! (i * n + i))) B)"
  by (simp add: scale_row_def scale1_def Let_def for_up_pair)

lemma clear_row_eq: "clear_row n i j (A, B) =
    (clear1 n i j (A ! (j * n + i)) A, clear1 n i j (A ! (j * n + i)) B)"
  by (simp add: clear_row_def clear1_def Let_def for_up_pair)

text \<open>A loop over the columns that rewrites one place or two per column.\<close>

lemma column_loop:
  assumes "length xs = n * n"
    and h: "\<And>r g g'. r < n \<Longrightarrow> (\<And>r. r < n \<Longrightarrow> g r = g' r) \<Longrightarrow> h r g = h r g'"
    and f: "\<And>k a. k < n \<Longrightarrow> length a = n * n \<Longrightarrow> length (f k a) = n * n \<and>
      (\<forall>r<n. \<forall>c<n. mat n (f k a) r c = (if c = k then h r (\<lambda>r. mat n a r k) else mat n a r c))"
  shows "length (for_up 0 n f xs) = n * n"
    and "r < n \<Longrightarrow> c < n \<Longrightarrow> mat n (for_up 0 n f xs) r c = h r (\<lambda>r. mat n xs r c)"
proof -
  let ?I = "\<lambda>k a. length a = n * n \<and>
    (\<forall>r<n. \<forall>c<n. mat n a r c = (if c < k then h r (\<lambda>r. mat n xs r c) else mat n xs r c))"
  have "?I n (for_up 0 n f xs)"
  proof (rule for_up_invariant [where I = ?I])
    fix k a
    assume k: "0 \<le> k" "k < n" and I: "?I k a"
    have "h r (\<lambda>r. mat n a r k) = h r (\<lambda>r. mat n xs r k)" if "r < n" for r
      using that I k by (intro h) auto
    then show "?I (Suc k) (f k a)" using f [OF k(2)] I by (auto simp: less_Suc_eq)
  qed (use assms(1) in auto)
  then show "length (for_up 0 n f xs) = n * n"
    and "r < n \<Longrightarrow> c < n \<Longrightarrow> mat n (for_up 0 n f xs) r c = h r (\<lambda>r. mat n xs r c)" by auto
qed

lemma swap1:
  assumes "length xs = n * n" "i < n" "j < n"
  shows "length (swap1 n i j xs) = n * n"
    and "r < n \<Longrightarrow> c < n \<Longrightarrow> mat n (swap1 n i j xs) r c = mat n xs (if r = i then j else if r = j then i else r) c"
proof -
  let ?h = "\<lambda>r g. g (if r = i then j else if r = j then i else r) :: u8"
  let ?f = "\<lambda>k a. a[i * n + k := a ! (j * n + k), j * n + k := a ! (i * n + k)]"
  have h: "?h r g = ?h r g'" if "r < n" "\<And>r. r < n \<Longrightarrow> g r = g' r" for r and g g' :: "nat \<Rightarrow> u8"
    using that assms by simp
  have f: "length (?f k a) = n * n \<and> (\<forall>r<n. \<forall>c<n. mat n (?f k a) r c =
      (if c = k then ?h r (\<lambda>r. mat n a r k) else mat n a r c))"
    if "k < n" "length a = n * n" for k a
    using that assms by (simp add: mat_update [where m = n]) (simp add: mat_def)
  show "length (swap1 n i j xs) = n * n"
    unfolding swap1_def using assms(1) h f by (rule column_loop(1) [where h = ?h and f = ?f])
  show "mat n (swap1 n i j xs) r c = mat n xs (if r = i then j else if r = j then i else r) c" if "r < n" "c < n"
    unfolding swap1_def using assms(1) h f that by (rule column_loop(2) [where h = ?h and f = ?f])
qed

lemma scale1:
  assumes "length xs = n * n" "i < n"
  shows "length (scale1 n i t xs) = n * n"
    and "r < n \<Longrightarrow> c < n \<Longrightarrow> mat n (scale1 n i t xs) r c = (if r = i then gfmul (mat n xs i c) t else mat n xs r c)"
proof -
  let ?h = "\<lambda>r g. if r = i then gfmul (g i) t else g r"
  let ?f = "\<lambda>k a. a[i * n + k := gf_mul (a ! (i * n + k)) t]"
  have h: "?h r g = ?h r g'" if "r < n" "\<And>r. r < n \<Longrightarrow> g r = g' r" for r and g g' :: "nat \<Rightarrow> u8"
    using that assms by simp
  have f: "length (?f k a) = n * n \<and> (\<forall>r<n. \<forall>c<n. mat n (?f k a) r c =
      (if c = k then ?h r (\<lambda>r. mat n a r k) else mat n a r c))"
    if "k < n" "length a = n * n" for k a
    using that assms by (simp add: mat_update [where m = n]) (simp add: mat_def)
  show "length (scale1 n i t xs) = n * n"
    unfolding scale1_def using assms(1) h f by (rule column_loop(1) [where h = ?h and f = ?f])
  show "mat n (scale1 n i t xs) r c = (if r = i then gfmul (mat n xs i c) t else mat n xs r c)" if "r < n" "c < n"
    unfolding scale1_def using assms(1) h f that by (rule column_loop(2) [where h = ?h and f = ?f])
qed

lemma clear1:
  assumes "length xs = n * n" "i < n" "j < n"
  shows "length (clear1 n i j t xs) = n * n"
    and "r < n \<Longrightarrow> c < n \<Longrightarrow> mat n (clear1 n i j t xs) r c = (if r = j then mat n xs j c XOR gfmul t (mat n xs i c) else mat n xs r c)"
proof -
  let ?h = "\<lambda>r g. if r = j then g j XOR gfmul t (g i) else g r"
  let ?f = "\<lambda>k a. a[j * n + k := a ! (j * n + k) XOR gf_mul t (a ! (i * n + k))]"
  have h: "?h r g = ?h r g'" if "r < n" "\<And>r. r < n \<Longrightarrow> g r = g' r" for r and g g' :: "nat \<Rightarrow> u8"
    using that assms by simp
  have f: "length (?f k a) = n * n \<and> (\<forall>r<n. \<forall>c<n. mat n (?f k a) r c =
      (if c = k then ?h r (\<lambda>r. mat n a r k) else mat n a r c))"
    if "k < n" "length a = n * n" for k a
    using that assms by (simp add: mat_update [where m = n]) (simp add: mat_def)
  show "length (clear1 n i j t xs) = n * n"
    unfolding clear1_def using assms(1) h f by (rule column_loop(1) [where h = ?h and f = ?f])
  show "mat n (clear1 n i j t xs) r c = (if r = j then mat n xs j c XOR gfmul t (mat n xs i c) else mat n xs r c)" if "r < n" "c < n"
    unfolding clear1_def using assms(1) h f that by (rule column_loop(2) [where h = ?h and f = ?f])
qed

lemma clear_column:
  assumes "length A = n * n" "length B = n * n" "i < n"
  obtains A' B' where "clear_column n i (A, B) = (A', B')" "length A' = n * n" "length B' = n * n"
    "\<And>r c. r < n \<Longrightarrow> c < n \<Longrightarrow> mat n A' r c =
       (if r = i then mat n A i c else mat n A r c XOR gfmul (mat n A r i) (mat n A i c))"
    "\<And>r c. r < n \<Longrightarrow> c < n \<Longrightarrow> mat n B' r c =
       (if r = i then mat n B i c else mat n B r c XOR gfmul (mat n A r i) (mat n B i c))"
proof -
  let ?I = "\<lambda>k (A', B'). length A' = n * n \<and> length B' = n * n \<and>
    (\<forall>r<n. \<forall>c<n. mat n A' r c =
       (if r \<noteq> i \<and> r < k then mat n A r c XOR gfmul (mat n A r i) (mat n A i c) else mat n A r c) \<and>
     mat n B' r c =
       (if r \<noteq> i \<and> r < k then mat n B r c XOR gfmul (mat n A r i) (mat n B i c) else mat n B r c))"
  have "?I n (clear_column n i (A, B))"
    unfolding clear_column_def
  proof (rule for_up_invariant [where I = ?I])
    fix k and s :: "u8 list \<times> u8 list"
    assume k: "0 \<le> k" "k < n" and I: "?I k s"
    obtain A' B' where s: "s = (A', B')" by (cases s)
    have "A' ! (k * n + i) = mat n A k i"
      using I k assms(3) unfolding s by (simp add: mat_def)
    then show "?I (Suc k) (if k = i then s else clear_row n i k s)"
      using I k assms(3) unfolding s by (auto simp: clear_row_eq clear1 less_Suc_eq)
  qed (use assms in auto)
  then show thesis by (auto intro!: that split: prod.splits)
qed

section \<open>Row operations as matrices\<close>

definition swapm :: "nat \<Rightarrow> nat \<Rightarrow> nat \<Rightarrow> nat \<Rightarrow> u8" where
  "swapm i j r = idm (if r = i then j else if r = j then i else r)"

definition scalem :: "nat \<Rightarrow> u8 \<Rightarrow> nat \<Rightarrow> nat \<Rightarrow> u8" where
  "scalem i t r k = (if k = r then if r = i then t else 1 else 0)"

definition elimm :: "nat \<Rightarrow> (nat \<Rightarrow> u8) \<Rightarrow> nat \<Rightarrow> nat \<Rightarrow> u8" where
  "elimm i u r k = idm r k XOR (if k = i then if r = i then 0 else u r else 0)"

lemma mmul_swapm: "i < n \<Longrightarrow> j < n \<Longrightarrow> r < n \<Longrightarrow> c < n \<Longrightarrow>
    mmul n (swapm i j) A r c = A (if r = i then j else if r = j then i else r) c"
  using mmul_idm(1) [of n A] by (simp add: meq_def mmul_def swapm_def)

lemma mmul_scalem: "r < n \<Longrightarrow> mmul n (scalem i t) A r c = (if r = i then gfmul t (A r c) else A r c)"
  unfolding mmul_def scalem_def using mmul_delta(1) [of r n _ "\<lambda>k. A k c"] by simp

lemma mmul_elimm:
  assumes "i < n" "r < n" "c < n"
  shows "mmul n (elimm i u) A r c = A r c XOR (if r = i then 0 else gfmul (u r) (A i c))"
proof -
  have "mmul n (elimm i u) A r c = mmul n idm A r c XOR
      xsum n (\<lambda>k. gfmul (if k = i then if r = i then 0 else u r else 0) (A k c))"
    by (simp add: mmul_def elimm_def gfmul_xor_left xsum_xor)
  then show ?thesis
    using meqD [OF mmul_idm(1) assms(2,3)] mmul_delta(1) [OF assms(1), of _ "\<lambda>k. A k c"] by simp
qed

lemma swapm_inverse: "i < n \<Longrightarrow> j < n \<Longrightarrow> meq n (mmul n (swapm i j) (swapm i j)) idm"
  by (auto simp: meq_def mmul_swapm) (auto simp: swapm_def)

lemma scalem_inverse: "t \<noteq> 0 \<Longrightarrow> meq n (mmul n (scalem i t) (scalem i (gf_inv t))) idm"
  by (auto simp: meq_def mmul_scalem) (auto simp: scalem_def idm_def gf_mul_inv)

lemma elimm_inverse: "i < n \<Longrightarrow> meq n (mmul n (elimm i u) (elimm i u)) idm"
  by (auto simp: meq_def mmul_elimm) (auto simp: elimm_def idm_def)

lemma reduced_swap:
  assumes "reduced n A0 (mat n A) (mat n B)" "length A = n * n" "length B = n * n" "i < n" "j < n"
  shows "reduced n A0 (mat n (swap1 n i j A)) (mat n (swap1 n i j B))"
  by (rule reduced_step [OF assms(1) swapm_inverse [OF assms(4,5)]])
    (use assms in \<open>auto simp: meq_def mmul_swapm swap1\<close>)

lemma reduced_scale:
  assumes "reduced n A0 (mat n A) (mat n B)" "length A = n * n" "length B = n * n" "i < n" "t \<noteq> 0"
  shows "reduced n A0 (mat n (scale1 n i (gf_inv t) A)) (mat n (scale1 n i (gf_inv t) B))"
  by (rule reduced_step [OF assms(1) scalem_inverse [OF assms(5), of n i]])
    (use assms in \<open>auto simp: meq_def mmul_scalem scale1 gfmul_commute [of _ "gf_inv t"]\<close>)

section \<open>Gauss-Jordan elimination\<close>

text \<open>Before column \<open>i\<close> is treated, the columns to its left are unit vectors.\<close>

definition gauss :: "nat \<Rightarrow> (nat \<Rightarrow> nat \<Rightarrow> u8) \<Rightarrow> nat \<Rightarrow> u8 list \<times> u8 list \<Rightarrow> bool" where
  "gauss n A0 i s \<longleftrightarrow> length (fst s) = n * n \<and> length (snd s) = n * n \<and>
     reduced n A0 (mat n (fst s)) (mat n (snd s)) \<and>
     (\<forall>c<i. \<forall>r<n. mat n (fst s) r c = idm r c)"

lemma gauss_swap:
  assumes "gauss n A0 i (A, B)" "i < n" "i < j" "j < n"
  shows "gauss n A0 i (swap1 n i j A, swap1 n i j B)"
  using assms by (auto simp: gauss_def reduced_swap swap1 idm_def)

lemma gauss_column:
  assumes g: "gauss n A0 i (A, B)" and i: "i < n" and pivot: "mat n A i i \<noteq> 0"
  shows "gauss n A0 (Suc i) (clear_column n i (scale_row n i (A, B)))"
proof -
  let ?t = "mat n A i i"
  let ?A = "scale1 n i (gf_inv ?t) A" and ?B = "scale1 n i (gf_inv ?t) B"
  have len: "length A = n * n" "length B = n * n" using g by (simp_all add: gauss_def)
  have red: "reduced n A0 (mat n ?A) (mat n ?B)"
    using g i pivot by (intro reduced_scale) (auto simp: gauss_def)
  obtain A' B' where c: "clear_column n i (?A, ?B) = (A', B')" "length A' = n * n" "length B' = n * n"
    and A': "\<And>r c. r < n \<Longrightarrow> c < n \<Longrightarrow> mat n A' r c =
       (if r = i then mat n ?A i c else mat n ?A r c XOR gfmul (mat n ?A r i) (mat n ?A i c))"
    and B': "\<And>r c. r < n \<Longrightarrow> c < n \<Longrightarrow> mat n B' r c =
       (if r = i then mat n ?B i c else mat n ?B r c XOR gfmul (mat n ?A r i) (mat n ?B i c))"
    by (rule clear_column [of ?A n ?B i]) (use len i in \<open>auto simp: scale1\<close>)
  have "reduced n A0 (mat n A') (mat n B')"
    by (rule reduced_step [OF red elimm_inverse [OF i, of "\<lambda>r. mat n ?A r i"]])
      (use i in \<open>auto simp: meq_def mmul_elimm A' B'\<close>)
  moreover have unit: "mat n A r k = idm r k" if "k < i" "r < n" for r k
    using g that by (simp add: gauss_def)
  have "mat n A' r k = idm r k" if "k < Suc i" "r < n" for r k
  proof (cases "k = i")
    case True
    then show ?thesis using that i len pivot by (simp add: A' scale1 gf_mul_inv idm_def)
  next
    case False
    then show ?thesis using that i len unit [of k r] unit [of k i] by (auto simp: A' scale1 idm_def)
  qed
  ultimately show ?thesis
    using c by (simp add: gauss_def scale_row_eq flip: mat_def)
qed

text \<open>The search for a pivot.\<close>

lemma pivot_row_cases:
  obtains (found) "pivot_row n i A \<noteq> n" "i < pivot_row n i A" "pivot_row n i A < n"
      "mat n A (pivot_row n i A) i \<noteq> 0"
    | (none) "pivot_row n i A = n" "\<And>r. i < r \<Longrightarrow> r < n \<Longrightarrow> mat n A r i = 0"
proof (cases "find (\<lambda>j. A ! (j * n + i) \<noteq> 0) [i + 1..<n]")
  case None
  then have "pivot_row n i A = n" by (simp add: pivot_row_def)
  with None show thesis by (intro none) (auto simp: mat_def find_None_iff)
next
  case (Some j)
  then obtain k where "k < length [i + 1..<n]" "A ! ([i + 1..<n] ! k * n + i) \<noteq> 0" "j = [i + 1..<n] ! k"
    unfolding find_Some_iff by auto
  then have "i < j" "j < n" "A ! (j * n + i) \<noteq> 0" by auto
  with Some show thesis by (intro found) (auto simp: pivot_row_def mat_def)
qed

text \<open>No pivot: the input has a non-trivial kernel.\<close>

definition singular :: "nat \<Rightarrow> (nat \<Rightarrow> nat \<Rightarrow> u8) \<Rightarrow> bool" where
  "singular n A \<longleftrightarrow> (\<exists>v. (\<exists>c<n. v c \<noteq> 0) \<and> (\<forall>r<n. xsum n (\<lambda>c. gfmul (A r c) (v c)) = 0))"

lemma gauss_singular:
  assumes g: "gauss n A0 i (A, B)" and i: "i < n" and z: "\<And>r. i \<le> r \<Longrightarrow> r < n \<Longrightarrow> mat n A r i = 0"
  shows "singular n A0"
proof -
  let ?v = "\<lambda>c. if c < i then mat n A c i else idm c i"
  have kernel: "xsum n (\<lambda>c. gfmul (mat n A r c) (?v c)) = 0" if r: "r < n" for r
  proof -
    have "xsum n (\<lambda>c. gfmul (mat n A r c) (?v c)) =
        xsum n (\<lambda>c. (if c = r then if r < i then mat n A r i else 0 else 0) XOR
          (if c = i then mat n A r i else 0))"
      using g r by (intro xsum_cong) (auto simp: gauss_def idm_def)
    also have "\<dots> = (if r < i then mat n A r i else 0) XOR mat n A r i"
      using r i by (simp add: xsum_xor)
    also have "\<dots> = 0" using z [of r] r by simp
    finally show ?thesis .
  qed
  have red: "reduced n A0 (mat n A) (mat n B)" using g by (simp add: gauss_def)
  have "xsum n (\<lambda>c. gfmul (A0 r c) (?v c)) = 0" if "r < n" for r
    by (rule reduced_kernel [OF red, where v = ?v]) (use kernel that in blast)+
  then show ?thesis
    unfolding singular_def using i by (intro exI [of _ ?v] conjI exI [of _ i]) (auto simp: idm_def)
qed

lemma invert_loop_correct:
  assumes "gauss n A0 i s" "i \<le> n"
  shows "(\<exists>s'. invert_loop n [i..<n] s = (0, s') \<and> gauss n A0 n s') \<or>
    (\<exists>s'. invert_loop n [i..<n] s = (-1, s') \<and> singular n A0)"
  using assms
proof (induction "n - i" arbitrary: i s)
  case 0
  then show ?case by simp
next
  case (Suc d)
  obtain A B where s: "s = (A, B)" by (cases s)
  have i: "i < n" using Suc.hyps(2) by simp
  then have upt: "[i..<n] = i # [Suc i..<n]" by (rule upt_conv_Cons)
  have step: ?case if "gauss n A0 i (A', B')" "mat n A' i i \<noteq> 0"
    "invert_loop n [i..<n] s = invert_loop n [Suc i..<n] (clear_column n i (scale_row n i (A', B')))" for A' B'
    unfolding that(3)
    by (rule Suc.hyps(1)) (use Suc.hyps(2) i gauss_column [OF that(1) i that(2)] in auto)
  show ?case
  proof (cases "mat n A i i = 0")
    case False
    then show ?thesis using Suc.prems by (intro step [of A B]) (auto simp: s upt mat_def)
  next
    case zero: True
    show ?thesis
    proof (cases rule: pivot_row_cases [of n i A])
      case found
      let ?j = "pivot_row n i A"
      have "length A = n * n" using Suc.prems by (simp add: s gauss_def)
      then show ?thesis
        using Suc.prems i zero found
        by (intro step [of "swap1 n i ?j A" "swap1 n i ?j B"])
          (auto simp: s upt mat_def [of n A i i] Let_def swap_rows_eq gauss_swap swap1)
    next
      case none
      have "mat n A r i = 0" if "i \<le> r" "r < n" for r
        using none(2) [of r] zero that by (cases "r = i") auto
      with Suc.prems i have "singular n A0" unfolding s by (intro gauss_singular)
      with zero none i show ?thesis by (auto simp: s upt mat_def Let_def)
    qed
  qed
qed

section \<open>The result of gf_invert_matrix\<close>

lemma for_up_fill: "n \<le> length xs \<Longrightarrow> for_up 0 n (\<lambda>i xs. xs[i := v]) xs = replicate n v @ drop n xs"
proof (induction n)
  case (Suc n)
  then have "drop n xs = xs ! n # drop (Suc n) xs" by (simp add: Cons_nth_drop_Suc)
  with Suc show ?case by (simp add: for_up_Suc list_update_append replicate_app_Cons_same)
qed simp

definition identity_array :: "nat \<Rightarrow> u8 list" where
  "identity_array n = for_up 0 n (\<lambda>i xs. xs[i * n + i := 1]) (replicate (n * n) 0)"

lemma identity_array: "length (identity_array n) = n * n" "meq n (mat n (identity_array n)) idm"
proof -
  let ?I = "\<lambda>k a. length a = n * n \<and>
    (\<forall>r<n. \<forall>c<n. mat n a r c = (if r < k then idm r c else 0))"
  have "?I n (identity_array n)"
    unfolding identity_array_def
  proof (rule for_up_invariant [where I = ?I])
    show "?I 0 (replicate (n * n) 0)" by (simp add: mat_def)
    show "?I (Suc i) (a[i * n + i := 1])" if "0 \<le> i" "i < n" "?I i a" for i a
      using that by (auto simp: mat_update [where m = n] idm_def less_Suc_eq)
  qed simp
  then show "length (identity_array n) = n * n" "meq n (mat n (identity_array n)) idm"
    by (simp_all add: meq_def)
qed

text \<open>The arrays keep their lengths.\<close>

lemma for_up_lengths:
  assumes "\<And>i s. length (fst (body i s)) = length (fst s) \<and> length (snd (body i s)) = length (snd s)"
  shows "length (fst (for_up lo hi body s)) = length (fst s) \<and> length (snd (for_up lo hi body s)) = length (snd s)"
proof (cases "lo \<le> hi")
  case True
  show ?thesis
    by (rule for_up_invariant [OF True, where I = "\<lambda>_ s'. length (fst s') = length (fst s) \<and> length (snd s') = length (snd s)"])
      (simp_all add: assms)
qed simp

lemma step_lengths:
  "length (fst (swap_rows n i j s)) = length (fst s) \<and> length (snd (swap_rows n i j s)) = length (snd s)"
  "length (fst (scale_row n i s)) = length (fst s) \<and> length (snd (scale_row n i s)) = length (snd s)"
  "length (fst (clear_row n i j s)) = length (fst s) \<and> length (snd (clear_row n i j s)) = length (snd s)"
  "length (fst (clear_column n i s)) = length (fst s) \<and> length (snd (clear_column n i s)) = length (snd s)"
proof -
  show "length (fst (swap_rows n i j s)) = length (fst s) \<and> length (snd (swap_rows n i j s)) = length (snd s)"
    unfolding swap_rows_def by (rule for_up_lengths) (simp add: Let_def case_prod_unfold)
  show "length (fst (scale_row n i s)) = length (fst s) \<and> length (snd (scale_row n i s)) = length (snd s)"
    unfolding scale_row_def Let_def case_prod_unfold prod.collapse by (rule for_up_lengths) simp
  show row: "length (fst (clear_row n i j s)) = length (fst s) \<and> length (snd (clear_row n i j s)) = length (snd s)" for j s
    unfolding clear_row_def Let_def case_prod_unfold prod.collapse by (rule for_up_lengths) simp
  show "length (fst (clear_column n i s)) = length (fst s) \<and> length (snd (clear_column n i s)) = length (snd s)"
    unfolding clear_column_def by (rule for_up_lengths) (simp add: row)
qed

lemma invert_loop_length:
  "length (fst (snd (invert_loop n is s))) = length (fst s) \<and> length (snd (snd (invert_loop n is s))) = length (snd s)"
  by (induction n "is" s rule: invert_loop.induct) (simp_all add: Let_def step_lengths)

lemma gf_invert_matrix_length: "length (fst (snd (gf_invert_matrix A out n))) = length A"
  using invert_loop_length by (simp add: gf_invert_matrix_def Let_def)

lemma gf_invert_matrix_cases:
  assumes "length A = n * n" "length out = n * n"
  obtains (inverse) A' B where "gf_invert_matrix A out n = (0, A', B)" "length B = n * n"
      "meq n (mmul n (mat n B) (mat n A)) idm" "meq n (mmul n (mat n A) (mat n B)) idm"
    | (singular) A' B where "gf_invert_matrix A out n = (-1, A', B)" "singular n (mat n A)"
proof -
  let ?I = "identity_array n"
  have run: "gf_invert_matrix A out n = invert_loop n [0..<n] (A, ?I)"
    using assms(2) by (simp add: gf_invert_matrix_def for_up_fill identity_array_def)
  have "reduced n (mat n A) (mat n A) (mat n ?I)"
    using meq_trans [OF identity_array(2) meq_sym [OF mmul_idm(1)]]
    by (intro reduced_step [OF reduced_init mmul_idm(1)] meq_sym [OF mmul_idm(1)])
  then have "gauss n (mat n A) 0 (A, ?I)"
    using assms(1) identity_array(1) by (simp add: gauss_def)
  from invert_loop_correct [OF this le0] show thesis
  proof (elim disjE exE conjE)
    fix s
    assume s: "invert_loop n [0..<n] (A, ?I) = (0, s)" and g: "gauss n (mat n A) n s"
    then have "reduced n (mat n A) (mat n (fst s)) (mat n (snd s))" "meq n (mat n (fst s)) idm"
      by (auto simp: gauss_def meq_def)
    from reduced_inverse [OF this] g s show thesis
      by (intro inverse [of "fst s" "snd s"]) (simp_all add: run gauss_def)
  next
    fix s
    assume "invert_loop n [0..<n] (A, ?I) = (-1, s)" "singular n (mat n A)"
    then show thesis by (intro singular [of "fst s" "snd s"]) (simp_all add: run)
  qed
qed

text \<open>A matrix with an inverse has no kernel, so the two outcomes exclude each other.\<close>

lemma inverse_not_singular:
  assumes "meq n (mmul n B A) idm"
  shows "\<not> singular n A"
proof
  assume "singular n A"
  then obtain v c where v: "\<And>r. r < n \<Longrightarrow> xsum n (\<lambda>c. gfmul (A r c) (v c)) = 0" and c: "c < n" "v c \<noteq> 0"
    by (auto simp: singular_def)
  have "v c = mmul n idm (\<lambda>c _. v c) c 0"
    using mmul_idm(1) [of n "\<lambda>c _. v c"] c(1) by (auto simp: meq_def mmul_def)
  also have "\<dots> = mmul n (mmul n B A) (\<lambda>c _. v c) c 0"
    unfolding mmul_def [of n idm] mmul_def [of n "mmul n B A"]
    using meqD [OF assms c(1)] by (intro xsum_cong) auto
  also have "\<dots> = mmul n B (mmul n A (\<lambda>c _. v c)) c 0" by (simp only: mmul_assoc)
  also have "\<dots> = 0"
    unfolding mmul_def [of n B] using v by (intro xsum_zero_all) (simp add: mmul_def [of n A])
  finally show False using c by simp
qed

section \<open>The generator matrices\<close>

text \<open>The top \<open>k\<close> rows of both generator matrices are the identity.\<close>

lemma identity_top:
  assumes "k \<le> m"
  defines "a \<equiv> for_up 0 k (\<lambda>i a. a[k * i + i := 1]) (replicate (k * m) 0) :: u8 list"
  shows "length a = m * k" "r < m \<Longrightarrow> c < k \<Longrightarrow> mat k a r c = (if r < k then idm r c else 0)"
proof -
  let ?I = "\<lambda>n a. length a = m * k \<and>
    (\<forall>r<m. \<forall>c<k. mat k a r c = (if r < n then idm r c else 0))"
  have "?I k a"
    unfolding a_def
  proof (rule for_up_invariant [where I = ?I])
    show "?I 0 (replicate (k * m) 0)"
      using flat_less [of _ m _ k] by (simp add: mat_def mult.commute [of k m])
    show "?I (Suc i) (a[k * i + i := 1])" if "0 \<le> i" "i < k" "?I i a" for i a
      using that assms(1)
      by (auto simp: mat_update [where m = m] idm_def less_Suc_eq mult.commute [of k])
  qed simp
  then show "length a = m * k" "r < m \<Longrightarrow> c < k \<Longrightarrow> mat k a r c = (if r < k then idm r c else 0)" by auto
qed

lemma rs_row:
  assumes "length a = m * k" "i < m"
  obtains a' where "for_up 0 k (\<lambda>j (a, p). (a[k * i + j := p], gf_mul p (gexp e))) (a, 1) = (a', gexp (e * k))"
    "length a' = m * k"
    "\<And>r c. r < m \<Longrightarrow> c < k \<Longrightarrow> mat k a' r c = (if r = i then gexp (e * c) else mat k a r c)"
proof -
  let ?I = "\<lambda>n (a', p). p = gexp (e * n) \<and> length a' = m * k \<and>
    (\<forall>r<m. \<forall>c<k. mat k a' r c = (if r = i \<and> c < n then gexp (e * c) else mat k a r c))"
  have "?I k (for_up 0 k (\<lambda>j (a, p). (a[k * i + j := p], gf_mul p (gexp e))) (a, 1))"
  proof (rule for_up_invariant [where I = ?I])
    fix j and s :: "u8 list \<times> u8"
    assume "0 \<le> j" "j < k" "?I j s"
    moreover have "gfmul (gexp (e * j)) (gexp e) = gexp (e + e * j)"
      by (simp add: gfmul_gexp add.commute)
    ultimately show "?I (Suc j) ((\<lambda>(a, p). (a[k * i + j := p], gf_mul p (gexp e))) s)"
      using assms
      by (auto simp: mat_update [where m = m] less_Suc_eq mult.commute [of k])
  qed (use assms in auto)
  then show thesis by (auto intro!: that split: prod.splits)
qed

lemma gf_gen_rs_matrix_entry:
  assumes "k \<le> m"
  shows "length (gf_gen_rs_matrix m k) = m * k"
    and "r < m \<Longrightarrow> c < k \<Longrightarrow>
      mat k (gf_gen_rs_matrix m k) r c = (if r < k then idm r c else gexp ((r - k) * c))"
proof -
  let ?a = "for_up 0 k (\<lambda>i a. a[k * i + i := 1]) (replicate (k * m) 0) :: u8 list"
  let ?body = "\<lambda>i (a, gen). let (a, p) = for_up 0 k (\<lambda>j (a, p). (a[k * i + j := p], gf_mul p gen)) (a, 1)
      in (a, gf_mul gen 2)"
  let ?I = "\<lambda>n (a, gen). gen = gexp (n - k) \<and> length a = m * k \<and>
    (\<forall>r<m. \<forall>c<k. mat k a r c =
      (if r < k then idm r c else if r < n then gexp ((r - k) * c) else 0))"
  have "?I m (for_up k m ?body (?a, 1))"
  proof (rule for_up_invariant [where I = ?I])
    fix i and s :: "u8 list \<times> u8"
    assume i: "k \<le> i" "i < m" and I: "?I i s"
    obtain a where s: "s = (a, gexp (i - k))" and len: "length a = m * k" using I by (cases s) auto
    obtain a' where row: "for_up 0 k (\<lambda>j (a, p). (a[k * i + j := p], gf_mul p (gexp (i - k)))) (a, 1) =
        (a', gexp ((i - k) * k))" "length a' = m * k"
      "\<And>r c. r < m \<Longrightarrow> c < k \<Longrightarrow> mat k a' r c = (if r = i then gexp ((i - k) * c) else mat k a r c)"
      using rs_row [OF len i(2), of "i - k"] by blast
    have "gf_mul (gexp (i - k)) 2 = gexp (Suc i - k)"
      using i by (simp add: gfmul_2_right Suc_diff_le)
    then show "?I (Suc i) (?body i s)"
      using I row i unfolding s by (auto simp: less_Suc_eq)
  qed (use assms identity_top [OF assms] in auto)
  then show "length (gf_gen_rs_matrix m k) = m * k"
    and "r < m \<Longrightarrow> c < k \<Longrightarrow>
      mat k (gf_gen_rs_matrix m k) r c = (if r < k then idm r c else gexp ((r - k) * c))"
    by (auto simp: gf_gen_rs_matrix_def Let_def split: prod.splits)
qed

lemma cauchy_row:
  assumes "length a = m * k" "i < m"
  obtains a' where "for_up 0 k (\<lambda>j (a, p). (a[p := gf_inv (word_of_nat (i XOR j))], Suc p)) (a, i * k) =
      (a', Suc i * k)" "length a' = m * k"
    "\<And>r c. r < m \<Longrightarrow> c < k \<Longrightarrow>
       mat k a' r c = (if r = i then gf_inv (word_of_nat (i XOR c)) else mat k a r c)"
proof -
  let ?I = "\<lambda>n (a', p). p = i * k + n \<and> length a' = m * k \<and>
    (\<forall>r<m. \<forall>c<k. mat k a' r c =
      (if r = i \<and> c < n then gf_inv (word_of_nat (i XOR c)) else mat k a r c))"
  have "?I k (for_up 0 k (\<lambda>j (a, p). (a[p := gf_inv (word_of_nat (i XOR j))], Suc p)) (a, i * k))"
  proof (rule for_up_invariant [where I = ?I])
    fix j and s :: "u8 list \<times> nat"
    assume "0 \<le> j" "j < k" "?I j s"
    then show "?I (Suc j) ((\<lambda>(a, p). (a[p := gf_inv (word_of_nat (i XOR j))], Suc p)) s)"
      using assms by (auto simp: mat_update [where m = m] less_Suc_eq)
  qed (use assms in auto)
  then show thesis by (auto intro!: that split: prod.splits)
qed

lemma gf_gen_cauchy1_matrix_entry:
  assumes "k \<le> m"
  shows "length (gf_gen_cauchy1_matrix m k) = m * k"
    and "r < m \<Longrightarrow> c < k \<Longrightarrow> mat k (gf_gen_cauchy1_matrix m k) r c =
      (if r < k then idm r c else gf_inv (word_of_nat (r XOR c)))"
proof -
  let ?a = "for_up 0 k (\<lambda>i a. a[k * i + i := 1]) (replicate (k * m) 0) :: u8 list"
  let ?body = "\<lambda>i. for_up 0 k (\<lambda>j (a, p). (a[p := gf_inv (word_of_nat (i XOR j))], Suc p))"
  let ?I = "\<lambda>n (a, p). p = n * k \<and> length a = m * k \<and>
    (\<forall>r<m. \<forall>c<k. mat k a r c =
      (if r < k then idm r c else if r < n then gf_inv (word_of_nat (r XOR c)) else 0))"
  have "?I m (for_up k m ?body (?a, k * k))"
  proof (rule for_up_invariant [where I = ?I])
    fix i and s :: "u8 list \<times> nat"
    assume i: "k \<le> i" "i < m" and I: "?I i s"
    obtain a where s: "s = (a, i * k)" and len: "length a = m * k" using I by (cases s) auto
    obtain a' where row: "?body i (a, i * k) = (a', Suc i * k)" "length a' = m * k"
      "\<And>r c. r < m \<Longrightarrow> c < k \<Longrightarrow>
         mat k a' r c = (if r = i then gf_inv (word_of_nat (i XOR c)) else mat k a r c)"
      using cauchy_row [OF len i(2)] by blast
    then show "?I (Suc i) (?body i s)"
      using I i unfolding s by (auto simp: less_Suc_eq)
  qed (use assms identity_top [OF assms] in auto)
  then show "length (gf_gen_cauchy1_matrix m k) = m * k"
    and "r < m \<Longrightarrow> c < k \<Longrightarrow> mat k (gf_gen_cauchy1_matrix m k) r c =
      (if r < k then idm r c else gf_inv (word_of_nat (r XOR c)))"
    by (auto simp: gf_gen_cauchy1_matrix_def Let_def split: prod.splits)
qed

end
