(* ===== verification/ISAL_Base.thy ===== *)
theory ISAL_Base
  imports ISAL_Matrix Raid6_Int
begin

text \<open>
  The portable erasure-code routines of \<^verbatim>\<open>isa-l/ec_base.c\<close>: the 32-byte coefficient tables, the dot
  product, the multiply-accumulate, the encoder and its incremental form. Buffers live in memory;
  a coefficient table is a list of bytes. Every routine is proved equal to one description of
  its effect, \<open>write_rows\<close>: which buffers it writes and with which bytes.
\<close>

section \<open>Writing rows\<close>

text \<open>\<open>write_rows len ds f m\<close>: buffer \<open>ds ! r\<close> starts with the bytes \<open>f r 0, \<dots>, f r (len - 1)\<close>.\<close>

definition write_row :: "nat \<Rightarrow> addr \<Rightarrow> (nat \<Rightarrow> u8) \<Rightarrow> mem \<Rightarrow> mem" where
  "write_row len d f m = m(d := put (m d) 0 (map f [0..<len]))"

fun write_rows :: "nat \<Rightarrow> addr list \<Rightarrow> (nat \<Rightarrow> nat \<Rightarrow> u8) \<Rightarrow> mem \<Rightarrow> mem" where
  "write_rows len [] f m = m"
| "write_rows len (d # ds) f m = write_rows len ds (\<lambda>r. f (Suc r)) (write_row len d (f 0) m)"

definition dot :: "nat \<Rightarrow> (nat \<Rightarrow> u8) \<Rightarrow> addr list \<Rightarrow> mem \<Rightarrow> nat \<Rightarrow> u8" where
  "dot k c src m i = xsum k (\<lambda>j. gfmul (c j) (m (src ! j) ! i))"

text \<open>Sources and destinations are long enough, and no destination is a source or another destination.\<close>

definition bufs_ok :: "nat \<Rightarrow> nat \<Rightarrow> addr list \<Rightarrow> addr list \<Rightarrow> mem \<Rightarrow> bool" where
  "bufs_ok len k src ds m \<longleftrightarrow> k \<le> length src \<and> distinct ds \<and> set ds \<inter> set (take k src) = {} \<and>
     (\<forall>a\<in>set (take k src) \<union> set ds. len \<le> length (m a))"

section \<open>The code\<close>

definition build_mul_tbl :: "u8 \<Rightarrow> u8 list" where
  "build_mul_tbl c = map (\<lambda>b. gf_mul c (word_of_nat b)) [0..<256]"

definition GF_REGION_MUL :: "u8 list \<Rightarrow> u8 \<Rightarrow> u8" where
  "GF_REGION_MUL tbl x = tbl ! unat x"

definition GF_REGION_TBL_MIN_LEN :: nat where
  "GF_REGION_TBL_MIN_LEN = 256"

text \<open>
  The table of a coefficient, in its 64-bit little-endian form and in its portable form. \<open>xtimes c\<close>
  is the expression \<^verbatim>\<open>(c << 1) ^ ((c & 0x80) ? 0x1d : 0)\<close> that both repeat.
\<close>

definition gf_vect_mul_init_base :: "u8 \<Rightarrow> u8 list" where
  "gf_vect_mul_init_base c =
     (let c2 = xtimes c; c4 = xtimes c2; c8 = xtimes c4;
          v1 = ucast c * 0x0100010001000100 :: u64;
          v2 = ucast c2 * 0x0101000001010000;
          v4 = ucast c4 * 0x0101010100000000;
          v8 = ucast c8 * 0x0101010101010101;
          v4 = v1 XOR v2 XOR v4;
          t0 = v4;
          t1 = v8 XOR v4;
          c17 = xtimes c8; c18 = xtimes c17; c20 = xtimes c18; c24 = xtimes c20;
          v10 = ucast c17 * 0x0100010001000100;
          v20 = ucast c18 * 0x0101000001010000;
          v40 = ucast c20 * 0x0101010100000000;
          v80 = ucast c24 * 0x0101010101010101;
          v40 = v10 XOR v20 XOR v40;
          t2 = v40;
          t3 = v80 XOR v40
      in le_bytes t0 @ le_bytes t1 @ le_bytes t2 @ le_bytes t3)"

definition gf_vect_mul_init_base_32 :: "u8 \<Rightarrow> u8 list" where
  "gf_vect_mul_init_base_32 c =
     (let c2 = xtimes c; c4 = xtimes c2; c8 = xtimes c4;
          c3 = c2 XOR c; c5 = c4 XOR c; c6 = c4 XOR c2; c7 = c4 XOR c3;
          c9 = c8 XOR c; c10 = c8 XOR c2; c11 = c8 XOR c3; c12 = c8 XOR c4;
          c13 = c8 XOR c5; c14 = c8 XOR c6; c15 = c8 XOR c7;
          c17 = xtimes c8; c18 = xtimes c17; c19 = c18 XOR c17; c20 = xtimes c18;
          c21 = c20 XOR c17; c22 = c20 XOR c18; c23 = c20 XOR c19; c24 = xtimes c20;
          c25 = c24 XOR c17; c26 = c24 XOR c18; c27 = c24 XOR c19; c28 = c24 XOR c20;
          c29 = c24 XOR c21; c30 = c24 XOR c22; c31 = c24 XOR c23
      in [0, c, c2, c3, c4, c5, c6, c7, c8, c9, c10, c11, c12, c13, c14, c15,
          0, c17, c18, c19, c20, c21, c22, c23, c24, c25, c26, c27, c28, c29, c30, c31])"

text \<open>
  \<^verbatim>\<open>ec_init_tables_base\<close> and \<^verbatim>\<open>ec_init_tables_gfni\<close> are the same loop over the coefficients, with
  the routine that builds one 32-byte table as the parameter \<open>init\<close>; the tables are appended.
\<close>

definition ec_init_tables :: "(u8 \<Rightarrow> u8 list) \<Rightarrow> nat \<Rightarrow> nat \<Rightarrow> u8 list \<Rightarrow> u8 list" where
  "ec_init_tables init k rows a =
     snd (for_up 0 rows (\<lambda>i. for_up 0 k (\<lambda>j (a, g_tbls). (tl a, g_tbls @ init (hd a)))) (a, []))"

definition ec_init_tables_base :: "nat \<Rightarrow> nat \<Rightarrow> u8 list \<Rightarrow> u8 list" where
  "ec_init_tables_base = ec_init_tables gf_vect_mul_init_base"

definition gf_vect_dot_prod_base :: "nat \<Rightarrow> nat \<Rightarrow> u8 list \<Rightarrow> addr list \<Rightarrow> addr \<Rightarrow> mem \<Rightarrow> mem" where
  "gf_vect_dot_prod_base len vlen v src dest m =
     (if len < GF_REGION_TBL_MIN_LEN then
        for_up 0 len (\<lambda>i m.
          let s = for_up 0 vlen (\<lambda>j s. s XOR gf_mul (m (src ! j) ! i) (v ! (j * 32 + 1))) 0
          in m(dest := (m dest)[i := s])) m
      else
        let tbl = build_mul_tbl (v ! 1);
            m = for_up 0 len (\<lambda>i m. m(dest := (m dest)[i := GF_REGION_MUL tbl (m (src ! 0) ! i)])) m
        in for_up 1 vlen (\<lambda>j m.
             let s = src ! j; tbl = build_mul_tbl (v ! (j * 32 + 1))
             in for_up 0 len (\<lambda>i m.
                  m(dest := (m dest)[i := m dest ! i XOR GF_REGION_MUL tbl (m s ! i)])) m) m)"

definition gf_vect_mad_base :: "nat \<Rightarrow> nat \<Rightarrow> nat \<Rightarrow> u8 list \<Rightarrow> addr \<Rightarrow> addr \<Rightarrow> mem \<Rightarrow> mem" where
  "gf_vect_mad_base len vec vec_i v src dest m =
     (let c = v ! (vec_i * 32 + 1)
      in if len < GF_REGION_TBL_MIN_LEN then
           for_up 0 len (\<lambda>i m. m(dest := (m dest)[i := m dest ! i XOR gf_mul (m src ! i) c])) m
         else
           let tbl = build_mul_tbl c
           in for_up 0 len (\<lambda>i m. m(dest := (m dest)[i := m dest ! i XOR GF_REGION_MUL tbl (m src ! i)])) m)"

definition ec_encode_data_base ::
    "nat \<Rightarrow> nat \<Rightarrow> nat \<Rightarrow> u8 list \<Rightarrow> addr list \<Rightarrow> addr list \<Rightarrow> mem \<Rightarrow> mem" where
  "ec_encode_data_base len srcs dests v src dest m =
     (if len < GF_REGION_TBL_MIN_LEN then
        for_up 0 dests (\<lambda>l. for_up 0 len (\<lambda>i m.
          let s = for_up 0 srcs (\<lambda>j s. s XOR gf_mul (m (src ! j) ! i) (v ! (j * 32 + l * srcs * 32 + 1))) 0
          in m(dest ! l := (m (dest ! l))[i := s]))) m
      else
        for_up 0 dests (\<lambda>l m.
          let d = dest ! l;
              tbl = build_mul_tbl (v ! (l * srcs * 32 + 1));
              m = for_up 0 len (\<lambda>i m. m(d := (m d)[i := GF_REGION_MUL tbl (m (src ! 0) ! i)])) m
          in for_up 1 srcs (\<lambda>j m.
               let s = src ! j; tbl = build_mul_tbl (v ! (j * 32 + l * srcs * 32 + 1))
               in for_up 0 len (\<lambda>i m. m(d := (m d)[i := m d ! i XOR GF_REGION_MUL tbl (m s ! i)])) m) m) m)"

definition ec_encode_data_update_base ::
    "nat \<Rightarrow> nat \<Rightarrow> nat \<Rightarrow> nat \<Rightarrow> u8 list \<Rightarrow> addr \<Rightarrow> addr list \<Rightarrow> mem \<Rightarrow> mem" where
  "ec_encode_data_update_base len k rows vec_i v data dest m =
     (if len < GF_REGION_TBL_MIN_LEN then
        for_up 0 rows (\<lambda>l m.
          let c = v ! (vec_i * 32 + l * k * 32 + 1); d = dest ! l
          in for_up 0 len (\<lambda>i m. m(d := (m d)[i := m d ! i XOR gf_mul (m data ! i) c])) m) m
      else
        for_up 0 rows (\<lambda>l m.
          let tbl = build_mul_tbl (v ! (vec_i * 32 + l * k * 32 + 1)); d = dest ! l
          in for_up 0 len (\<lambda>i m. m(d := (m d)[i := m d ! i XOR GF_REGION_MUL tbl (m data ! i)])) m) m)"

text \<open>The result is the return code, with -1 for a length that is not a multiple of 32.\<close>

definition gf_vect_mul_base :: "nat \<Rightarrow> u8 list \<Rightarrow> addr \<Rightarrow> addr \<Rightarrow> mem \<Rightarrow> int \<times> mem" where
  "gf_vect_mul_base len a src dest m =
     (let c = a ! 1
      in if len mod 32 \<noteq> 0 then (-1, m)
         else if len < GF_REGION_TBL_MIN_LEN then
           (0, for_up 0 len (\<lambda>i m. m(dest := (m dest)[i := gf_mul c (m src ! i)])) m)
         else
           let tbl = build_mul_tbl c
           in (0, for_up 0 len (\<lambda>i m. m(dest := (m dest)[i := GF_REGION_MUL tbl (m src ! i)])) m))"

section \<open>Loops over a region\<close>

lemma length_write_row: "len \<le> length (m d) \<Longrightarrow> length (write_row len d f m a) = length (m a)"
  by (simp add: write_row_def)

lemma write_row_other [simp]: "a \<noteq> d \<Longrightarrow> write_row len d f m a = m a"
  by (simp add: write_row_def)

lemma write_row_same:
  "len \<le> length (m d) \<Longrightarrow> i < length (m d) \<Longrightarrow>
   write_row len d f m d ! i = (if i < len then f i else m d ! i)"
  by (simp add: write_row_def nth_put)

lemma write_row_cong: "(\<And>i. i < len \<Longrightarrow> f i = g i) \<Longrightarrow> write_row len d f m = write_row len d g m"
proof -
  assume "\<And>i. i < len \<Longrightarrow> f i = g i"
  then have "map f [0..<len] = map g [0..<len]"
    by simp
  then show ?thesis
    by (simp only: write_row_def)
qed

lemma write_row_twice:
  "len \<le> length (m d) \<Longrightarrow> write_row len d g (write_row len d f m) = write_row len d g m"
  by (simp add: write_row_def put_def)

lemma region_loop:
  assumes "len \<le> length (m d)"
    and "\<And>i m'. i < len \<Longrightarrow> (\<And>a. a \<noteq> d \<Longrightarrow> m' a = m a) \<Longrightarrow> m' d ! i = m d ! i \<Longrightarrow> f i m' = g i"
  shows "for_up 0 len (\<lambda>i m. m(d := (m d)[i := f i m])) m = write_row len d g m"
proof (rule for_up_invariant [where I = "\<lambda>i m'. m' = write_row i d g m"])
  fix i m'
  assume i: "0 \<le> i" "i < len" and m': "m' = write_row i d g m"
  have "f i m' = g i"
    using i assms(1) unfolding m' by (intro assms(2)) (auto simp: write_row_same)
  moreover have "(write_row i d g m d)[i := g i] = write_row (Suc i) d g m d"
    using i assms(1) by (intro nth_equalityI) (auto simp: length_write_row nth_list_update write_row_same)
  ultimately show "m'(d := (m' d)[i := f i m']) = write_row (Suc i) d g m"
    unfolding m' by (auto simp: fun_eq_iff)
qed (auto simp: write_row_def)

lemma xor_loop: "for_up 0 k (\<lambda>j s. s XOR f j) 0 = xsum k f"
  by (induction k) (simp_all add: for_up_Suc)

lemma GF_REGION_MUL_eq [simp]: "GF_REGION_MUL (build_mul_tbl c) x = gfmul c x"
  by (simp add: GF_REGION_MUL_def build_mul_tbl_def)

section \<open>Several rows\<close>

lemma write_rows_snoc:
  "write_rows len (ds @ [d]) f m = write_row len d (f (length ds)) (write_rows len ds f m)"
  by (induction ds arbitrary: f m) simp_all

lemma write_rows_append:
  "write_rows len (ds @ es) f m = write_rows len es (\<lambda>r. f (length ds + r)) (write_rows len ds f m)"
  by (induction ds arbitrary: f m) simp_all

lemma write_rows_other: "a \<notin> set ds \<Longrightarrow> write_rows len ds f m a = m a"
  by (induction ds arbitrary: f m) simp_all

lemma length_write_rows:
  "(\<And>d. d \<in> set ds \<Longrightarrow> len \<le> length (m d)) \<Longrightarrow> length (write_rows len ds f m a) = length (m a)"
proof (induction ds arbitrary: f m)
  case (Cons d ds)
  then have "length (write_row len d (f 0) m b) = length (m b)" for b by (simp add: length_write_row)
  with Cons show ?case by simp
qed simp

lemma write_rows_cong:
  "(\<And>r i. r < length ds \<Longrightarrow> i < len \<Longrightarrow> f r i = g r i) \<Longrightarrow> write_rows len ds f m = write_rows len ds g m"
proof (induction ds arbitrary: f g m)
  case (Cons d ds)
  have "write_row len d (f 0) m = write_row len d (g 0) m"
    using Cons.prems by (intro write_row_cong) simp
  moreover have "write_rows len ds (\<lambda>r. f (Suc r)) m' = write_rows len ds (\<lambda>r. g (Suc r)) m'" for m'
    using Cons.prems by (intro Cons.IH) simp
  ultimately show ?case by simp
qed simp

lemma write_rows_nth:
  assumes "distinct ds" "r < length ds" "\<And>d. d \<in> set ds \<Longrightarrow> len \<le> length (m d)"
  shows "write_rows len ds f m (ds ! r) = put (m (ds ! r)) 0 (map (f r) [0..<len])"
  using assms
proof (induction ds arbitrary: f m r)
  case (Cons d ds)
  show ?case
  proof (cases r)
    case 0
    with Cons.prems show ?thesis by (simp add: write_rows_other) (simp add: write_row_def)
  next
    case (Suc r')
    have "ds ! r' \<noteq> d" using Cons.prems Suc by auto
    moreover have "len \<le> length (write_row len d (f 0) m e)" if "e \<in> set ds" for e
      using Cons.prems that by (simp add: length_write_row)
    ultimately show ?thesis using Cons Suc by simp
  qed
qed simp

lemma rows_loop:
  assumes "n \<le> length ds"
    and "\<And>l m'. l < n \<Longrightarrow> \<forall>a. a \<notin> set (take l ds) \<longrightarrow> m' a = m a \<Longrightarrow> body l m' = write_row len (ds ! l) (f l) m'"
  shows "for_up 0 n body m = write_rows len (take n ds) f m"
proof (rule for_up_invariant [where I = "\<lambda>l m'. m' = write_rows len (take l ds) f m"])
  fix l m'
  assume l: "0 \<le> l" "l < n" and m': "m' = write_rows len (take l ds) f m"
  have "body l m' = write_row len (ds ! l) (f l) m'"
    using l unfolding m' by (intro assms(2)) (auto simp: write_rows_other)
  then show "body l m' = write_rows len (take (Suc l) ds) f m"
    using l assms(1) by (simp add: m' take_Suc_conv_app_nth write_rows_snoc min_def)
qed simp_all

section \<open>The routines\<close>

lemma bufs_okD:
  assumes "bufs_ok len k src ds m"
  shows "j < k \<Longrightarrow> len \<le> length (m (src ! j))" "d \<in> set ds \<Longrightarrow> len \<le> length (m d)"
    "j < k \<Longrightarrow> d \<in> set ds \<Longrightarrow> src ! j \<noteq> d" "distinct ds" "k \<le> length src"
proof -
  have "src ! j \<in> set (take k src)" if "j < k"
    using that assms by (auto simp: bufs_ok_def in_set_conv_nth intro!: exI [of _ j])
  then show "j < k \<Longrightarrow> len \<le> length (m (src ! j))" "j < k \<Longrightarrow> d \<in> set ds \<Longrightarrow> src ! j \<noteq> d"
    using assms by (auto simp: bufs_ok_def)
qed (use assms in \<open>auto simp: bufs_ok_def\<close>)

lemma dot_cong: "(\<And>j. j < k \<Longrightarrow> m (src ! j) = m' (src ! j)) \<Longrightarrow> dot k c src m i = dot k c src m' i"
  unfolding dot_def by (rule xsum_cong) auto

text \<open>The two ways to compute one row: byte by byte, or source by source with a product table.\<close>

lemma dot_scalar:
  assumes "len \<le> length (m d)" "\<And>j. j < k \<Longrightarrow> src ! j \<noteq> d"
  shows "for_up 0 len (\<lambda>i m. m(d := (m d)[i :=
      for_up 0 k (\<lambda>j s. s XOR gf_mul (m (src ! j) ! i) (c j)) 0])) m = write_row len d (dot k c src m) m"
  using assms
  by (intro region_loop) (auto simp: xor_loop dot_def gfmul_commute [of "c _"] intro!: xsum_cong)

lemma dot_table:
  assumes "len \<le> length (m d)" "\<And>j. j < k \<Longrightarrow> src ! j \<noteq> d" "0 < k"
  shows "for_up 1 k (\<lambda>j m. for_up 0 len (\<lambda>i m.
        m(d := (m d)[i := m d ! i XOR GF_REGION_MUL (build_mul_tbl (c j)) (m (src ! j) ! i)])) m)
      (for_up 0 len (\<lambda>i m. m(d := (m d)[i := GF_REGION_MUL (build_mul_tbl (c 0)) (m (src ! 0) ! i)])) m) =
    write_row len d (dot k c src m) m"
proof (rule for_up_invariant [where I = "\<lambda>j m'. m' = write_row len d (dot j c src m) m"])
  show "for_up 0 len (\<lambda>i m. m(d := (m d)[i := GF_REGION_MUL (build_mul_tbl (c 0)) (m (src ! 0) ! i)])) m =
      write_row len d (dot 1 c src m) m"
    using assms by (intro region_loop) (auto simp: dot_def)
  fix j m'
  assume j: "1 \<le> j" "j < k" and m': "m' = write_row len d (dot j c src m) m"
  have "for_up 0 len (\<lambda>i m. m(d := (m d)[i := m d ! i XOR GF_REGION_MUL (build_mul_tbl (c j)) (m (src ! j) ! i)])) m'
      = write_row len d (dot (Suc j) c src m) m'"
    using j assms unfolding m'
    by (intro region_loop) (auto simp: length_write_row write_row_same dot_def)
  then show "for_up 0 len (\<lambda>i m. m(d := (m d)[i := m d ! i XOR GF_REGION_MUL (build_mul_tbl (c j)) (m (src ! j) ! i)])) m'
      = write_row len d (dot (Suc j) c src m) m"
    using assms by (simp add: m' write_row_twice)
qed (use assms in auto)

lemma gf_vect_dot_prod_base_correct:
  assumes "bufs_ok len vlen src [dest] m" "0 < vlen"
  shows "gf_vect_dot_prod_base len vlen v src dest m =
    write_row len dest (dot vlen (\<lambda>j. v ! (j * 32 + 1)) src m) m"
proof -
  note ok = bufs_okD [OF assms(1)]
  show ?thesis
    unfolding gf_vect_dot_prod_base_def Let_def
    using dot_scalar [where d = dest and k = vlen and src = src and m = m and c = "\<lambda>j. v ! (j * 32 + 1)"]
      dot_table [where d = dest and k = vlen and src = src and m = m and c = "\<lambda>j. v ! (j * 32 + 1)"]
      ok assms(2) by (simp add: gfmul_commute)
qed

lemma mad_loop:
  assumes "len \<le> length (m d)" "src \<noteq> d"
  shows "for_up 0 len (\<lambda>i m. m(d := (m d)[i := m d ! i XOR gf_mul (m src ! i) c])) m =
      write_row len d (\<lambda>i. m d ! i XOR gfmul c (m src ! i)) m"
    and "for_up 0 len (\<lambda>i m. m(d := (m d)[i := m d ! i XOR GF_REGION_MUL (build_mul_tbl c) (m src ! i)])) m =
      write_row len d (\<lambda>i. m d ! i XOR gfmul c (m src ! i)) m"
  using assms by (intro region_loop; auto simp: gfmul_commute [of c])+

lemma gf_vect_mad_base_correct:
  assumes "len \<le> length (m dest)" "src \<noteq> dest"
  shows "gf_vect_mad_base len vec vec_i v src dest m =
    write_row len dest (\<lambda>i. m dest ! i XOR gfmul (v ! (vec_i * 32 + 1)) (m src ! i)) m"
  using mad_loop [where m = m, OF assms] by (simp add: gf_vect_mad_base_def Let_def)

lemma gf_vect_mul_base_correct:
  assumes "len \<le> length (m dest)" "src \<noteq> dest"
  shows "gf_vect_mul_base len a src dest m =
    (if len mod 32 = 0 then (0, write_row len dest (\<lambda>i. gfmul (a ! 1) (m src ! i)) m) else (-1, m))"
proof -
  have "for_up 0 len (\<lambda>i m. m(dest := (m dest)[i := gf_mul (a ! 1) (m src ! i)])) m =
      write_row len dest (\<lambda>i. gfmul (a ! 1) (m src ! i)) m"
    "for_up 0 len (\<lambda>i m. m(dest := (m dest)[i := GF_REGION_MUL (build_mul_tbl (a ! 1)) (m src ! i)])) m =
      write_row len dest (\<lambda>i. gfmul (a ! 1) (m src ! i)) m"
    using assms by (intro region_loop; auto)+
  then show ?thesis by (simp add: gf_vect_mul_base_def Let_def)
qed

text \<open>The coefficient of source \<open>j\<close> in row \<open>l\<close> of a table built with \<open>k\<close> sources.\<close>

definition coef :: "nat \<Rightarrow> u8 list \<Rightarrow> nat \<Rightarrow> nat \<Rightarrow> u8" where
  "coef k v l j = v ! (j * 32 + l * k * 32 + 1)"

lemma row_not_before:
  assumes "distinct (take n ds)" "l < n" "n \<le> length ds"
  shows "ds ! l \<in> set (take n ds)" "ds ! l \<notin> set (take l ds)" "set (take l ds) \<subseteq> set (take n ds)"
proof -
  have "distinct (take (Suc l) (take n ds))" using assms(1) by (rule distinct_take)
  moreover have "take (Suc l) (take n ds) = take l ds @ [ds ! l]"
    using assms by (simp add: take_Suc_conv_app_nth min_def)
  ultimately show "ds ! l \<notin> set (take l ds)" by simp
  show "ds ! l \<in> set (take n ds)" using assms by (auto simp: in_set_conv_nth intro!: exI [of _ l])
  show "set (take l ds) \<subseteq> set (take n ds)" using assms by (intro set_take_subset_set_take) simp
qed

text \<open>What stays true of a row's buffers while the rows before it are written.\<close>

lemma bufs_ok_row:
  assumes "bufs_ok len k src (take n ds) m" "n \<le> length ds" "l < n"
    and m': "\<forall>a. a \<notin> set (take l ds) \<longrightarrow> m' a = m a"
  shows "len \<le> length (m' (ds ! l))" "j < k \<Longrightarrow> src ! j \<noteq> ds ! l" "j < k \<Longrightarrow> m' (src ! j) = m (src ! j)"
    "m' (ds ! l) = m (ds ! l)"
proof -
  note ok = bufs_okD [OF assms(1)] and row = row_not_before [OF ok(4) assms(3,2)]
  show "len \<le> length (m' (ds ! l))" using ok(2) [OF row(1)] m' row(2) by simp
  show "src ! j \<noteq> ds ! l" if "j < k" using ok(3) [OF that row(1)] .
  show "m' (ds ! l) = m (ds ! l)" using m' row(2) by simp
  show "m' (src ! j) = m (src ! j)" if "j < k"
    using ok(3) [OF that] row(3) m' by blast
qed

lemma ec_encode_data_base_correct:
  assumes "bufs_ok len srcs src (take dests dest) m" "dests \<le> length dest" "0 < srcs"
  shows "ec_encode_data_base len srcs dests v src dest m =
    write_rows len (take dests dest) (\<lambda>l. dot srcs (coef srcs v l) src m) m"
proof -
  have same: "dot srcs (coef srcs v l) src m' = dot srcs (coef srcs v l) src m"
    if "l < dests" "\<forall>a. a \<notin> set (take l dest) \<longrightarrow> m' a = m a" for l m'
    using bufs_ok_row(3) [where m' = m', OF assms(1,2) that] by (intro ext dot_cong)
  show ?thesis
  proof (cases "len < GF_REGION_TBL_MIN_LEN")
    case True
    show ?thesis
      unfolding ec_encode_data_base_def Let_def if_P [OF True]
    proof (rule rows_loop [OF assms(2)])
      fix l m'
      assume l: "l < dests" and m': "\<forall>a. a \<notin> set (take l dest) \<longrightarrow> m' a = m a"
      note row = bufs_ok_row [where m' = m', OF assms(1,2) l m']
      show "for_up 0 len (\<lambda>i m. m(dest ! l := (m (dest ! l))[i := for_up 0 srcs
              (\<lambda>j s. s XOR gf_mul (m (src ! j) ! i) (v ! (j * 32 + l * srcs * 32 + 1))) 0])) m' =
          write_row len (dest ! l) (dot srcs (coef srcs v l) src m) m'"
        using dot_scalar [where d = "dest ! l" and k = srcs and src = src and m = m' and c = "coef srcs v l", OF row(1,2)]
        by (simp only: same [OF l m'] coef_def)
    qed
  next
    case False
    show ?thesis
      unfolding ec_encode_data_base_def Let_def if_not_P [OF False]
    proof (rule rows_loop [OF assms(2)])
      fix l m'
      assume l: "l < dests" and m': "\<forall>a. a \<notin> set (take l dest) \<longrightarrow> m' a = m a"
      note row = bufs_ok_row [where m' = m', OF assms(1,2) l m']
      show "for_up 1 srcs (\<lambda>j m. for_up 0 len (\<lambda>i m. m(dest ! l := (m (dest ! l))[i := m (dest ! l) ! i XOR
              GF_REGION_MUL (build_mul_tbl (v ! (j * 32 + l * srcs * 32 + 1))) (m (src ! j) ! i)])) m)
            (for_up 0 len (\<lambda>i m. m(dest ! l := (m (dest ! l))[i :=
              GF_REGION_MUL (build_mul_tbl (v ! (l * srcs * 32 + 1))) (m (src ! 0) ! i)])) m') =
          write_row len (dest ! l) (dot srcs (coef srcs v l) src m) m'"
        using dot_table [where d = "dest ! l" and k = srcs and src = src and m = m' and c = "coef srcs v l", OF row(1,2) assms(3)]
        by (simp only: same [OF l m'] coef_def mult_0 add_0)
    qed
  qed
qed

text \<open>The incremental encoder adds one source to every row.\<close>

lemma ec_encode_data_update_base_correct:
  assumes "bufs_ok len 1 [data] (take rows dest) m" "rows \<le> length dest"
  shows "ec_encode_data_update_base len k rows vec_i v data dest m =
    write_rows len (take rows dest) (\<lambda>l i. m (dest ! l) ! i XOR gfmul (coef k v l vec_i) (m data ! i)) m"
proof -
  have "(if len < GF_REGION_TBL_MIN_LEN then
           for_up 0 len (\<lambda>i m. m(d := (m d)[i := m d ! i XOR gf_mul (m data ! i) c])) m'
         else for_up 0 len (\<lambda>i m. m(d := (m d)[i := m d ! i XOR GF_REGION_MUL (build_mul_tbl c) (m data ! i)])) m') =
      write_row len d (\<lambda>i. m d ! i XOR gfmul c (m data ! i)) m'"
    if l: "l < rows" and m': "\<forall>a. a \<notin> set (take l dest) \<longrightarrow> m' a = m a" and d: "d = dest ! l" for l m' d c
    using bufs_ok_row(1,4) [where m' = m', OF assms(1,2) l m'] bufs_ok_row(2,3) [where m' = m' and j = 0, OF assms(1,2) l m'] mad_loop [of len m' d data c] by (simp add: d)
  then show ?thesis
    unfolding ec_encode_data_update_base_def Let_def coef_def
    by (cases "len < GF_REGION_TBL_MIN_LEN") (simp_all, (intro rows_loop assms(2); simp)+)
qed

section \<open>Coefficient tables\<close>

text \<open>
  A product of a byte with a word whose bytes are 0 or 1 has no carries: the bytes of the product are
  the bytes of the word times the byte.
\<close>

primrec hsum :: "nat list \<Rightarrow> nat" where
  "hsum [] = 0"
| "hsum (b # bs) = b + 256 * hsum bs"

lemma hsum_scale: "c * hsum bs = hsum (map ((*) c) bs)"
  by (induction bs) (simp_all add: algebra_simps)

lemma hsum_digit:
  "\<forall>b\<in>set bs. b < 256 \<Longrightarrow> i < length bs \<Longrightarrow> hsum bs div 256 ^ i mod 256 = bs ! i"
proof (induction bs arbitrary: i)
  case (Cons b bs)
  then show ?case
    by (cases i) (simp_all add: div_mult2_eq)
qed simp

lemma hsum_less: "\<forall>b\<in>set bs. b < 256 \<Longrightarrow> hsum bs < 256 ^ length bs"
  by (induction bs) auto

lemma le_bytes_of_nat: "i < 8 \<Longrightarrow> le_bytes (word_of_nat n) ! i = word_of_nat (n div 256 ^ i mod 256)"
proof -
  assume "i < 8"
  then have "le_bytes (word_of_nat n) ! i = ucast (drop_bit (8 * i) (word_of_nat n :: u64))"
    by (simp add: nth_le_bytes)
  moreover have "n div 256 ^ i mod 256 = take_bit 8 (drop_bit (8 * i) n)"
    by (simp add: take_bit_eq_mod drop_bit_eq_div power_mult)
  ultimately show ?thesis
    using \<open>i < 8\<close> by (intro bit_word_eqI) (auto simp: bit_simps)
qed

lemma le_bytes_pattern:
  assumes "length bs = 8" "list_all (\<lambda>b. b \<le> 1) bs"
  shows "le_bytes (ucast c * word_of_nat (hsum bs)) = map (\<lambda>b. word_of_nat b * (c :: u8)) bs"
proof (rule nth_equalityI)
  fix i assume "i < length (le_bytes (ucast c * word_of_nat (hsum bs)))"
  then have i: "i < 8" by simp
  have "ucast c * word_of_nat (hsum bs) = (word_of_nat (hsum (map ((*) (unat c)) bs)) :: u64)"
    by (simp flip: hsum_scale)
  moreover have "\<forall>b\<in>set (map ((*) (unat c)) bs). b < 256"
    using assms(2) unat_u8_less [of c] by (auto simp: list_all_iff le_Suc_eq)
  ultimately show "le_bytes (ucast c * word_of_nat (hsum bs)) ! i = map (\<lambda>b. word_of_nat b * c) bs ! i"
    using i assms(1) by (simp add: le_bytes_of_nat hsum_digit)
qed (use assms in simp)

lemma le_bytes_patterns:
  "le_bytes (ucast c * 0x0100010001000100) = [0, c, 0, c, 0, c, 0, c]"
  "le_bytes (ucast c * 0x0101000001010000) = [0, 0, c, c, 0, 0, c, c]"
  "le_bytes (ucast c * 0x0101010100000000) = [0, 0, 0, 0, c, c, c, c]"
  "le_bytes (ucast c * 0x0101010101010101) = [c, c, c, c, c, c, c, c]"
  using le_bytes_pattern [of "[0, 1, 0, 1, 0, 1, 0, 1]" c] le_bytes_pattern [of "[0, 0, 1, 1, 0, 0, 1, 1]" c]
    le_bytes_pattern [of "[0, 0, 0, 0, 1, 1, 1, 1]" c] le_bytes_pattern [of "[1, 1, 1, 1, 1, 1, 1, 1]" c]
  by simp_all

lemma le_bytes_map2_xor: "le_bytes (a XOR b) = map2 (XOR) (le_bytes a) (le_bytes b)"
  by (rule nth_equalityI) (simp_all add: nth_le_bytes, rule bit_word_eqI, simp add: bit_simps)

lemma le_bytes_four:
  "le_bytes (ucast a * 0x0100010001000100 XOR ucast b * 0x0101000001010000 XOR ucast c * 0x0101010100000000) =
     [0, a, b, a XOR b, c, a XOR c, b XOR c, a XOR b XOR c]"
  "le_bytes (ucast d * 0x0101010101010101 XOR
      (ucast a * 0x0100010001000100 XOR ucast b * 0x0101000001010000 XOR ucast c * 0x0101010100000000)) =
     [d, d XOR a, d XOR b, d XOR (a XOR b), d XOR c, d XOR (a XOR c), d XOR (b XOR c), d XOR (a XOR b XOR c)]"
  by (simp_all add: le_bytes_map2_xor le_bytes_patterns)

lemma gf_vect_mul_init_base_32_eq: "gf_vect_mul_init_base_32 c = gf_vect_mul_init_base c"
proof -
  define c2 where "c2 = xtimes c"
  define c4 where "c4 = xtimes c2"
  define c8 where "c8 = xtimes c4"
  define c17 where "c17 = xtimes c8"
  define c18 where "c18 = xtimes c17"
  define c20 where "c20 = xtimes c18"
  define c24 where "c24 = xtimes c20"
  note defs = c2_def c4_def c8_def c17_def c18_def c20_def c24_def
  show ?thesis
    unfolding gf_vect_mul_init_base_32_def gf_vect_mul_init_base_def Let_def le_bytes_four
    unfolding defs [symmetric]
    by (simp add: xor.assoc xor.commute xor.left_commute)
qed

lemma gf_vect_mul_init_base_correct:
  "gf_vect_mul_init_base c =
     map (gfmul c) [0, 1, 2, 3, 4, 5, 6, 7, 8, 9, 10, 11, 12, 13, 14, 15,
       0, 0x10, 0x20, 0x30, 0x40, 0x50, 0x60, 0x70, 0x80, 0x90, 0xa0, 0xb0, 0xc0, 0xd0, 0xe0, 0xf0]"
proof -
  have double: "xtimes c = gfmul c 2" "xtimes (gfmul c 2) = gfmul c 4" "xtimes (gfmul c 4) = gfmul c 8"
    "xtimes (gfmul c 8) = gfmul c 0x10" "xtimes (gfmul c 0x10) = gfmul c 0x20"
    "xtimes (gfmul c 0x20) = gfmul c 0x40" "xtimes (gfmul c 0x40) = gfmul c 0x80"
    using gfmul_xtimes_right [of c 2, symmetric] gfmul_xtimes_right [of c 4, symmetric]
      gfmul_xtimes_right [of c 8, symmetric] gfmul_xtimes_right [of c "0x10", symmetric]
      gfmul_xtimes_right [of c "0x20", symmetric] gfmul_xtimes_right [of c "0x40", symmetric]
    by (simp_all only: gfmul_2_right) (simp_all add: xtimes_eval [of "numeral n" for n])
  have add: "gfmul c a XOR c = gfmul c (a XOR 1)" "gfmul c a XOR gfmul c b = gfmul c (a XOR b)" for a b
    by (simp_all add: gfmul_xor_right)
  show ?thesis
    unfolding gf_vect_mul_init_base_32_eq [symmetric] gf_vect_mul_init_base_32_def Let_def double add
    by simp
qed

text \<open>The tables of a coefficient matrix follow each other, and entry 1 of a table is the coefficient.\<close>

lemma ec_init_tables_eq:
  assumes "rows * k \<le> length a"
  shows "ec_init_tables init k rows a = concat (map init (take (rows * k) a))"
proof -
  have inner: "for_up 0 n (\<lambda>j (a, g). (tl a, g @ init (hd a))) (b, g) = (drop n b, g @ concat (map init (take n b)))"
    if "n \<le> length b" for n b g
    using that
  proof (induction n)
    case (Suc n)
    then show ?case by (simp add: for_up_Suc take_Suc_conv_app_nth drop_Suc hd_drop_conv_nth tl_drop)
  qed simp
  have "for_up 0 n (\<lambda>i. for_up 0 k (\<lambda>j (a, g). (tl a, g @ init (hd a)))) (a, []) =
      (drop (n * k) a, concat (map init (take (n * k) a)))" if "n \<le> rows" for n
    using that
  proof (induction n)
    case (Suc n)
    have "k + n * k \<le> rows * k" using mult_le_mono1 [OF Suc.prems, of k] by simp
    then have le: "k + n * k \<le> length a" using assms by simp
    have "take (n * k + k) a = take (n * k) a @ take k (drop (n * k) a)" by (rule take_add)
    with Suc le show ?case by (simp add: for_up_Suc inner add.commute)
  qed simp
  from this [of rows] show ?thesis by (simp add: ec_init_tables_def)
qed

lemma nth_concat_tables:
  assumes "\<And>x. length (init x) = 32" "n < length xs" "i < 32"
  shows "concat (map init xs) ! (n * 32 + i) = init (xs ! n) ! i"
  using assms(2)
proof (induction xs arbitrary: n)
  case (Cons x xs)
  then show ?case using assms by (cases n) (simp_all add: nth_append)
qed simp

lemma table_index_less: "l < rows \<Longrightarrow> j < k \<Longrightarrow> l * k + j < rows * (k::nat)"
  using mult_le_mono1 [of "Suc l" rows k] by simp

lemma length_gf_vect_mul_init_base [simp]: "length (gf_vect_mul_init_base c) = 32"
  by (simp add: gf_vect_mul_init_base_correct)

lemma coef_ec_init_tables_base:
  assumes "rows * k \<le> length a" "l < rows" "j < k"
  shows "coef k (ec_init_tables_base k rows a) l j = a ! (l * k + j)"
proof -
  have i: "j * 32 + l * k * 32 + 1 = (l * k + j) * 32 + 1" by simp
  show ?thesis
    unfolding coef_def ec_init_tables_base_def ec_init_tables_eq [OF assms(1)] i
    using table_index_less [OF assms(2,3)] assms(1)
    by (subst nth_concat_tables) (simp_all add: gf_vect_mul_init_base_correct)
qed

end
