(* ===== verification/ISAL_GFNI.thy ===== *)
theory ISAL_GFNI
  imports ISAL_Base
begin

text \<open>
  The vector operations of the ISA-L GFNI kernels (\<^verbatim>\<open>isa-l/gf_*_gfni.c\<close>) and their coefficient
  tables. A vector register is the list of its bytes. \<^verbatim>\<open>vgf2p8affineqb\<close> multiplies every byte by the 8x8 bit
  matrix of its 64-bit lane; \<open>affine_table\<close> shows that the matrix which \<^verbatim>\<open>gf_table_gfni\<close> holds for a
  coefficient is multiplication by it in the field.
\<close>

section \<open>Instructions\<close>

definition parity8 :: "u8 \<Rightarrow> bool" where
  "parity8 x = fold (\<lambda>i t. t \<noteq> bit x i) [0..<8] False"

definition affine_byte :: "u8 list \<Rightarrow> u8 \<Rightarrow> u8" where
  "affine_byte A x = horner_sum of_bool 2 (map (\<lambda>i. parity8 (A ! (7 - i) AND x)) [0..<8])"

definition AFFINE :: "u8 list \<Rightarrow> u8 list \<Rightarrow> u8 list" where
  "AFFINE s g = map (\<lambda>i. affine_byte (get g (8 * (i div 8)) 8) (s ! i)) [0..<length s]"

definition BCAST_GF8 :: "nat \<Rightarrow> u8 list \<Rightarrow> nat \<Rightarrow> u8 list" where
  "BCAST_GF8 w g p = concat (replicate (w div 8) (get g p 8))"

definition AFFINE_XOR_BCAST :: "u8 list \<Rightarrow> u8 list \<Rightarrow> u8 list \<Rightarrow> nat \<Rightarrow> u8 list" where
  "AFFINE_XOR_BCAST acc s g p = vxor acc (AFFINE s (BCAST_GF8 64 g p))"

section \<open>Coefficient tables\<close>

definition gf_vect_mul_init_gfni :: "u8 \<Rightarrow> u8 list" where
  "gf_vect_mul_init_gfni c =
     (let val = gf_table_gfni ! unat c; tmp = [val, val, val, val]
      in concat (map le_bytes tmp))"

definition ec_init_tables_gfni :: "nat \<Rightarrow> nat \<Rightarrow> u8 list \<Rightarrow> u8 list" where
  "ec_init_tables_gfni = ec_init_tables gf_vect_mul_init_gfni"

section \<open>The bit matrices\<close>

lemma and_xor_distrib: "a AND (x XOR y) = (a AND x) XOR (a AND (y :: u8))" "(x XOR y) AND a = (x AND a) XOR (y AND a)"
  by (rule bit_word_eqI, auto simp: bit_simps)+

lemma fold_parity:
  "fold (\<lambda>i t. t \<noteq> (f i \<noteq> g i)) xs (s \<noteq> t) = (fold (\<lambda>i t. t \<noteq> f i) xs s \<noteq> fold (\<lambda>i t. t \<noteq> g i) xs t)"
proof (induction xs arbitrary: s t)
  case (Cons x xs)
  have "((s \<noteq> t) \<noteq> (f x \<noteq> g x)) = ((s \<noteq> f x) \<noteq> (t \<noteq> g x))" by blast
  then show ?case by (simp only: fold_simps Cons.IH)
qed simp

lemma parity8_xor: "parity8 (a XOR b) = (parity8 a \<noteq> parity8 b)"
  using fold_parity [of "bit a" "bit b" "[0..<8]" False False] by (simp add: parity8_def bit_xor_iff)

lemma bit_affine_byte: "n < 8 \<Longrightarrow> bit (affine_byte A x) n = parity8 (A ! (7 - n) AND x)"
  by (simp add: affine_byte_def bit_horner_sum_bit_iff)

lemma affine_byte_xor_right: "affine_byte A (x XOR y) = affine_byte A x XOR affine_byte A y"
  by (rule bit_word_eqI) (simp add: bit_affine_byte bit_xor_iff parity8_xor and_xor_distrib)

lemma affine_byte_xor_left:
  "affine_byte (le_bytes (u XOR v)) x = affine_byte (le_bytes u) x XOR affine_byte (le_bytes v) x"
  by (rule bit_word_eqI)
    (simp add: bit_affine_byte bit_xor_iff parity8_xor le_bytes_map2_xor and_xor_distrib)

text \<open>The table is the span of its entries at the powers of two.\<close>

definition span :: "u64 list \<Rightarrow> u64 list" where
  "span bs = fold (\<lambda>b xs. xs @ map (\<lambda>x. b XOR x) xs) bs [0]"

lemma gf_table_gfni_span:
  "gf_table_gfni = span [0x102040810204080, 0x8001828488102040, 0x408041c2c4881020, 0x2040a061e2c48810,
     0x102050b071e2c488, 0x8810a8d83871e2c4, 0xc488d46c1c3871e2, 0xe2c46a368e1c3871]"
  by (simp add: span_def gf_table_gfni_def)

text \<open>\<open>comb bs n\<close> is the XOR of the members of \<open>bs\<close> at the set bits of \<open>n\<close>.\<close>

fun comb :: "u64 list \<Rightarrow> nat \<Rightarrow> u64" where
  "comb [] n = 0"
| "comb (b # bs) n = (if odd n then b else 0) XOR comb bs (n div 2)"

lemma comb_xor: "comb bs (m XOR n) = comb bs m XOR comb bs n"
proof (induction bs arbitrary: m n)
  case (Cons b bs)
  have "(m XOR n) div 2 = m div 2 XOR n div 2"
    using drop_bit_xor [of 1 m n] by (simp only: drop_bit_eq_div power_one_right)
  with Cons show ?case by (auto simp: even_xor_iff ac_simps)
qed simp

lemma comb_snoc: "comb (bs @ [b]) n = comb bs n XOR (if odd (n div 2 ^ length bs) then b else 0)"
  by (induction bs arbitrary: n) (simp_all add: div_mult2_eq ac_simps)

lemma comb_add: "n < 2 ^ length bs \<Longrightarrow> comb bs (2 ^ length bs + n) = comb bs n"
proof (induction bs arbitrary: n)
  case (Cons b bs)
  then have "n div 2 < 2 ^ length bs" by simp
  with Cons.IH show ?case by simp
qed simp

lemma span_snoc: "span (bs @ [b]) = span bs @ map (\<lambda>x. b XOR x) (span bs)"
  by (simp add: span_def)

lemma length_span [simp]: "length (span bs) = 2 ^ length bs"
  by (induction bs rule: rev_induct) (simp_all add: span_snoc, simp add: span_def)

lemma nth_span: "n < 2 ^ length bs \<Longrightarrow> span bs ! n = comb bs n"
proof (induction bs arbitrary: n rule: rev_induct)
  case Nil
  then show ?case by (simp add: span_def)
next
  case (snoc b bs)
  show ?case
  proof (cases "n < 2 ^ length bs")
    case True
    with snoc.IH show ?thesis by (simp add: span_snoc comb_snoc nth_append)
  next
    case False
    then obtain r where n: "n = 2 ^ length bs + r" using le_iff_add [of "2 ^ length bs" n] by auto
    with snoc.prems have r: "r < 2 ^ length bs" by simp
    then have "(2 ^ length bs + r) div 2 ^ length bs = 1" by (intro div_nat_eqI) simp_all
    with snoc.IH r show ?thesis
      by (simp add: n span_snoc comb_snoc nth_append comb_add xor.commute)
  qed
qed

lemma nth_span_xor: "length bs = 8 \<Longrightarrow> span bs ! unat (a XOR b :: u8) = span bs ! unat a XOR span bs ! unat b"
  by (simp add: nth_span comb_xor flip: unsigned_xor_eq) (simp add: unsigned_xor_eq comb_xor)

lemma gf_table_gfni_xor:
  "gf_table_gfni ! unat (a XOR b :: u8) = gf_table_gfni ! unat a XOR gf_table_gfni ! unat b"
  unfolding gf_table_gfni_span by (rule nth_span_xor) simp

lemma gf_table_gfni_powers:
  "le_bytes (gf_table_gfni ! Suc 0) = [0x80, 0x40, 0x20, 0x10, 0x8, 0x4, 0x2, 0x1]"
  "le_bytes (gf_table_gfni ! 2) = [0x40, 0x20, 0x10, 0x88, 0x84, 0x82, 0x1, 0x80]"
  "le_bytes (gf_table_gfni ! 4) = [0x20, 0x10, 0x88, 0xc4, 0xc2, 0x41, 0x80, 0x40]"
  "le_bytes (gf_table_gfni ! 8) = [0x10, 0x88, 0xc4, 0xe2, 0x61, 0xa0, 0x40, 0x20]"
  "le_bytes (gf_table_gfni ! 16) = [0x88, 0xc4, 0xe2, 0x71, 0xb0, 0x50, 0x20, 0x10]"
  "le_bytes (gf_table_gfni ! 32) = [0xc4, 0xe2, 0x71, 0x38, 0xd8, 0xa8, 0x10, 0x88]"
  "le_bytes (gf_table_gfni ! 64) = [0xe2, 0x71, 0x38, 0x1c, 0x6c, 0xd4, 0x88, 0xc4]"
  "le_bytes (gf_table_gfni ! 128) = [0x71, 0x38, 0x1c, 0x8e, 0x36, 0x6a, 0xc4, 0xe2]"
  unfolding gf_table_gfni_span by (simp_all add: nth_span le_bytes_def upt_rec)

lemma affine_byte_power:
  assumes "j < 8"
  shows "affine_byte A (2 ^ j) = horner_sum of_bool 2 (map (\<lambda>i. bit (A ! (7 - i)) j) [0..<8])"
proof -
  have "parity8 (a AND 2 ^ j) = bit a j" for a
    using assms unfolding less_8_cases
    by (elim insertE emptyE; hypsubst) (simp_all add: parity8_def upt_rec bit_simps eval_nat_numeral)
  then show ?thesis by (simp only: affine_byte_def)
qed

lemma affine_table: "affine_byte (le_bytes (gf_table_gfni ! unat c)) x = gfmul c x"
proof (rule additive_eqI [where f = "\<lambda>c. affine_byte (le_bytes (gf_table_gfni ! unat c)) x" and g = "\<lambda>c. gfmul c x"])
  fix i :: nat
  assume i: "i < 8"
  show "affine_byte (le_bytes (gf_table_gfni ! unat (2 ^ i :: u8))) x = gfmul (2 ^ i) x"
  proof (rule additive_eqI [where f = "affine_byte (le_bytes (gf_table_gfni ! unat (2 ^ i :: u8)))"])
    fix j :: nat
    assume j: "j < 8"
    show "affine_byte (le_bytes (gf_table_gfni ! unat (2 ^ i :: u8))) (2 ^ j) = gfmul (2 ^ i) (2 ^ j)"
      unfolding affine_byte_power [OF j] using i j unfolding less_8_cases
      by (elim insertE emptyE; hypsubst) (simp_all add: gf_table_gfni_powers upt_rec gf_eval)
  qed (simp_all add: affine_byte_xor_right gfmul_xor_right)
qed (simp_all add: gf_table_gfni_xor affine_byte_xor_left gfmul_xor_left)

section \<open>Dot products in registers\<close>

text \<open>
  \<open>dotvec w c x n\<close> is the vector of \<open>w\<close> bytes in which a kernel has accumulated the first \<open>n\<close> sources:
  \<open>x j i\<close> is byte \<open>i\<close> of the chunk of source \<open>j\<close>, \<open>c j\<close> its coefficient.
\<close>

definition dotvec :: "nat \<Rightarrow> (nat \<Rightarrow> u8) \<Rightarrow> (nat \<Rightarrow> nat \<Rightarrow> u8) \<Rightarrow> nat \<Rightarrow> u8 list" where
  "dotvec w c x n = map (\<lambda>i. xsum n (\<lambda>j. gfmul (c j) (x j i))) [0..<w]"

text \<open>The tables of the coefficients \<open>c r j\<close>, one after the other, from row 0 on.\<close>

definition gfni_tbls :: "nat \<Rightarrow> nat \<Rightarrow> (nat \<Rightarrow> nat \<Rightarrow> u8) \<Rightarrow> u8 list \<Rightarrow> bool" where
  "gfni_tbls k rows c g \<longleftrightarrow>
     (\<forall>r<rows. \<forall>j<k. get g (32 * (r * k + j)) 32 = gf_vect_mul_init_gfni (c r j))"

lemma length_dotvec [simp]: "length (dotvec w c x n) = w"
  by (simp add: dotvec_def)

lemma dotvec_0: "dotvec w c x 0 = replicate w 0"
  by (simp add: dotvec_def map_replicate_trivial)

lemma length_gf_vect_mul_init_gfni [simp]: "length (gf_vect_mul_init_gfni c) = 32"
  by (simp add: gf_vect_mul_init_gfni_def Let_def)

lemma gfni_lane: "q < 4 \<Longrightarrow> get (gf_vect_mul_init_gfni c) (8 * q) 8 = le_bytes (gf_table_gfni ! unat c)"
proof -
  assume "q < 4"
  then have "q = 0 \<or> q = 1 \<or> q = 2 \<or> q = 3" by auto
  then show ?thesis by (auto simp: gf_vect_mul_init_gfni_def get_def Let_def)
qed

lemma get_get: "i + v \<le> w \<Longrightarrow> get (get xs d w) i v = get xs (d + i) v"
  by (simp add: get_def drop_take min_def add.commute)

lemma get_replicated:
  assumes "length xs = 8" "i < n"
  shows "get (concat (replicate n xs)) (8 * i) 8 = xs"
  using assms(2)
proof (induction n arbitrary: i)
  case (Suc n)
  then show ?case using assms(1) by (cases i) (simp_all add: get_def)
qed simp

lemma AFFINE_eq:
  assumes "\<And>q. 8 * q < length s \<Longrightarrow> get g (8 * q) 8 = le_bytes (gf_table_gfni ! unat c)"
  shows "AFFINE s g = map (gfmul c) s"
proof (rule nth_equalityI)
  fix i assume "i < length (AFFINE s g)"
  then have "i < length s" by (simp add: AFFINE_def)
  moreover have "8 * (i div 8) < length s" using \<open>i < length s\<close> by linarith
  ultimately show "AFFINE s g ! i = map (gfmul c) s ! i"
    by (simp add: AFFINE_def assms affine_table)
qed (simp add: AFFINE_def)

lemma AFFINE_tbl: "length s \<le> 32 \<Longrightarrow> AFFINE s (gf_vect_mul_init_gfni c) = map (gfmul c) s"
  by (rule AFFINE_eq) (rule gfni_lane, simp)

lemma gfni_tblsD:
  assumes "gfni_tbls k rows c g" "r < rows" "j < k"
  shows "get g (32 * j + r * (k * 32)) 32 = gf_vect_mul_init_gfni (c r j)"
    and "get g (32 * j + r * (k * 32)) 8 = le_bytes (gf_table_gfni ! unat (c r j))"
proof -
  have "32 * j + r * (k * 32) = 32 * (r * k + j)" by simp
  then show t: "get g (32 * j + r * (k * 32)) 32 = gf_vect_mul_init_gfni (c r j)"
    using assms by (simp only: gfni_tbls_def)
  from gfni_lane [of 0 "c r j"] show "get g (32 * j + r * (k * 32)) 8 = le_bytes (gf_table_gfni ! unat (c r j))"
    by (simp add: get_get flip: t)
qed

lemma AFFINE_bcast:
  assumes "get g p 8 = le_bytes (gf_table_gfni ! unat c)" "length s = w" "8 dvd w"
  shows "AFFINE s (BCAST_GF8 w g p) = map (gfmul c) s"
  using assms by (intro AFFINE_eq) (auto simp: BCAST_GF8_def get_replicated)

lemma dotvec_step:
  "vxor (dotvec w c x n) (map (gfmul (c n)) (map (x n) [0..<w])) = dotvec w c x (Suc n)"
  by (simp add: vxor_def dotvec_def list_eq_iff_nth_eq)

section \<open>Storing a chunk of every row\<close>

definition storeu :: "addr \<Rightarrow> nat \<Rightarrow> u8 list \<Rightarrow> mem \<Rightarrow> mem" where
  "storeu d pos v m = m(d := put (m d) pos v)"

primrec store_rows :: "nat \<Rightarrow> (addr \<times> u8 list) list \<Rightarrow> mem \<Rightarrow> mem" where
  "store_rows pos [] m = m"
| "store_rows pos (x # xs) m = store_rows pos xs (storeu (fst x) pos (snd x) m)"

lemma store_rows_other: "a \<notin> fst ` set xs \<Longrightarrow> store_rows pos xs m a = m a"
  by (induction xs arbitrary: m) (auto simp: storeu_def)

lemma store_rows_nth:
  "distinct (map fst xs) \<Longrightarrow> r < length xs \<Longrightarrow>
   store_rows pos xs m (fst (xs ! r)) = put (m (fst (xs ! r))) pos (snd (xs ! r))"
proof (induction xs arbitrary: m r)
  case (Cons x xs)
  show ?case
  proof (cases r)
    case 0
    with Cons.prems show ?thesis by (simp add: store_rows_other) (simp add: storeu_def)
  next
    case (Suc r')
    with Cons.prems have "fst (xs ! r') \<noteq> fst x" by simp (metis imageI nth_mem)
    with Cons Suc show ?thesis by (simp add: storeu_def)
  qed
qed simp

lemma store_advance:
  assumes "distinct ds" "\<And>d. d \<in> set ds \<Longrightarrow> pos + w \<le> length (m d)" "length ps = length ds"
    and "\<And>r. r < length ds \<Longrightarrow> ps ! r = map (\<lambda>i. f r (pos + i)) [0..<w]"
  shows "store_rows pos (zip ds ps) (write_rows pos ds f m) = write_rows (pos + w) ds f m"
proof
  fix a
  show "store_rows pos (zip ds ps) (write_rows pos ds f m) a = write_rows (pos + w) ds f m a"
  proof (cases "a \<in> set ds")
    case False
    then have "a \<notin> fst ` set (zip ds ps)" using set_zip_leftD by fastforce
    with False show ?thesis by (simp add: store_rows_other write_rows_other)
  next
    case True
    then obtain r where r: "r < length ds" "a = ds ! r" by (auto simp: in_set_conv_nth)
    have len: "pos + w \<le> length (m (ds ! r))" using assms(2) r by simp
    have "write_rows pos ds f m (ds ! r) = put (m (ds ! r)) 0 (map (f r) [0..<pos])"
      using assms(1,2) r by (intro write_rows_nth) (auto intro: add_leD1)
    then have "store_rows pos (zip ds ps) (write_rows pos ds f m) a =
        put (put (m a) 0 (map (f r) [0..<pos])) pos (map (\<lambda>i. f r (pos + i)) [0..<w])"
      using store_rows_nth [of "zip ds ps" r pos "write_rows pos ds f m"] assms r len
      by simp
    also have "\<dots> = put (m a) 0 (map (f r) [0..<pos] @ map (\<lambda>i. f r (pos + i)) [0..<w])"
      using put_put [of 0 "map (f r) [0..<pos]" "map (\<lambda>i. f r (pos + i)) [0..<w]" "m a"] len r by simp
    also have "map (f r) [0..<pos] @ map (\<lambda>i. f r (pos + i)) [0..<w] = map (f r) [0..<pos + w]"
      by (rule nth_equalityI) (auto simp: nth_append)
    finally show ?thesis using assms r by (simp add: write_rows_nth)
  qed
qed

section \<open>Chunk loops\<close>

text \<open>\<^verbatim>\<open>for (; pos + w <= len; pos += w) body\<close>, which leaves \<^verbatim>\<open>pos\<close> at the first byte not done.\<close>

function for_chunks :: "nat \<Rightarrow> nat \<Rightarrow> nat \<Rightarrow> (nat \<Rightarrow> 's \<Rightarrow> 's) \<Rightarrow> 's \<Rightarrow> nat \<times> 's" where
  "for_chunks w pos len body s =
     (if w \<noteq> 0 \<and> pos + w \<le> len then for_chunks w (pos + w) len body (body pos s) else (pos, s))"
  by pat_completeness auto
termination
  by (relation "measure (\<lambda>(w, pos, len, body, s). len - pos)") auto

declare for_chunks.simps [simp del]

lemma for_chunks_invariant:
  assumes "0 < w" "pos \<le> len" "I pos s" "\<And>p s. p + w \<le> len \<Longrightarrow> I p s \<Longrightarrow> I (p + w) (body p s)"
  shows "\<exists>p s'. for_chunks w pos len body s = (p, s') \<and> I p s' \<and> p \<le> len \<and> len < p + w"
  using assms
proof (induction w pos len body s rule: for_chunks.induct)
  case (1 w pos len body s)
  show ?case
  proof (cases "pos + w \<le> len")
    case True
    then have "for_chunks w pos len body s = for_chunks w (pos + w) len body (body pos s)"
      using 1(2) by (subst for_chunks.simps) simp
    with True 1 show ?thesis by simp
  next
    case False
    with 1 show ?thesis by (subst for_chunks.simps) auto
  qed
qed

section \<open>Chunks of the sources\<close>

text \<open>Byte \<open>i\<close> of the chunk of source \<open>j\<close> at \<open>pos\<close>, and the same with zeros from \<open>len\<close> on.\<close>

definition chunk :: "addr list \<Rightarrow> mem \<Rightarrow> nat \<Rightarrow> nat \<Rightarrow> nat \<Rightarrow> u8" where
  "chunk src m pos j i = m (src ! j) ! (pos + i)"

definition chunk_tail :: "addr list \<Rightarrow> mem \<Rightarrow> nat \<Rightarrow> nat \<Rightarrow> nat \<Rightarrow> nat \<Rightarrow> u8" where
  "chunk_tail src m pos len j i = (if i < len - pos then chunk src m pos j i else 0)"

lemma bufs_ok_src: "bufs_ok len k src ds m \<Longrightarrow> j < k \<Longrightarrow> src ! j \<notin> set ds"
  using bufs_okD(3) by blast

lemma write_rows_0 [simp]: "write_rows 0 ds f m = m"
  by (induction ds arbitrary: f m) (simp_all add: write_row_def)

lemma get_chunk:
  assumes "bufs_ok len k src ds m" "pos + w \<le> len" "j < k"
  shows "get (write_rows p ds f m (src ! j)) pos w = map (chunk src m pos j) [0..<w]"
  using bufs_ok_src [OF assms(1,3)] bufs_okD(1) [OF assms(1,3)] assms(2)
  by (auto simp: write_rows_other chunk_def list_eq_iff_nth_eq)

lemma dotvec_chunk: "dotvec w (c r) (chunk src m pos) k = map (\<lambda>i. dot k (c r) src m (pos + i)) [0..<w]"
  by (simp add: dotvec_def dot_def chunk_def)

lemma chunk_step:
  assumes "bufs_ok len k src ds m" "pos + w \<le> len" "rs = [0..<length ds]"
  shows "store_rows pos (zip ds (map (\<lambda>r. dotvec w (c r) (chunk src m pos) k) rs))
      (write_rows pos ds (\<lambda>r. dot k (c r) src m) m) = write_rows (pos + w) ds (\<lambda>r. dot k (c r) src m) m"
proof (rule store_advance)
  show "pos + w \<le> length (m d)" if "d \<in> set ds" for d
    using bufs_okD(2) [OF assms(1) that] assms(2) by simp
qed (use bufs_okD(4) [OF assms(1)] in \<open>simp_all add: dotvec_chunk assms(3)\<close>)

lemma take_dotvec_tail:
  assumes "pos < len" "len \<le> pos + w"
  shows "take (len - pos) (dotvec w c (chunk_tail src m pos len) k) = dotvec (len - pos) c (chunk src m pos) k"
  using assms by (auto simp: list_eq_iff_nth_eq dotvec_def chunk_tail_def intro!: xsum_cong)

lemma chunk_step_tail:
  assumes "bufs_ok len k src ds m" "pos < len" "len \<le> pos + w" "rs = [0..<length ds]"
  shows "store_rows pos (zip ds (map (\<lambda>r. take (len - pos) (dotvec w (c r) (chunk_tail src m pos len) k)) rs))
      (write_rows pos ds (\<lambda>r. dot k (c r) src m) m) = write_rows len ds (\<lambda>r. dot k (c r) src m) m"
  using chunk_step [OF assms(1), of pos "len - pos" rs c] assms(2-) by (simp add: take_dotvec_tail)

lemma upt_rows:
  "[0] = [0..<length [a]]" "[0, 1] = [0..<length [a, b]]" "[0, 1, 2] = [0..<length [a, b, c]]"
  "[0, 1, 2, 3] = [0..<length [a, b, c, d]]" "[0, 1, 2, 3, 4] = [0..<length [a, b, c, d, e]]"
  "[0, 1, 2, 3, 4, 5] = [0..<length [a, b, c, d, e, f]]"
  by (simp_all add: upt_rec numeral_eq_Suc)

lemmas row_simps = list.map zip_Cons_Cons zip.simps(1) store_rows.simps fold_simps fst_conv snd_conv prod.case

section \<open>The contract of a dot-product kernel\<close>

text \<open>
  A kernel for \<open>rows\<close> rows, given the tables of the coefficients \<open>c r j\<close>, writes the dot products to the
  first \<open>rows\<close> buffers of \<open>coding\<close> and nothing else. The dispatchers call such kernels one after the
  other: \<open>peel\<close> is one turn of their loop.
\<close>

lemma gfni_tbls_drop: "gfni_tbls k (n + rows) c g \<Longrightarrow> gfni_tbls k rows (\<lambda>r. c (n + r)) (drop (n * k * 32) g)"
  unfolding gfni_tbls_def
proof (intro allI impI)
  fix r j
  assume a: "\<forall>r<n + rows. \<forall>j<k. get g (32 * (r * k + j)) 32 = gf_vect_mul_init_gfni (c r j)" "r < rows" "j < k"
  have "get (drop (n * k * 32) g) (32 * (r * k + j)) 32 = get g (32 * ((n + r) * k + j)) 32"
    by (simp add: get_def algebra_simps)
  with a show "get (drop (n * k * 32) g) (32 * (r * k + j)) 32 = gf_vect_mul_init_gfni (c (n + r) j)" by simp
qed

lemma gfni_tbls_mono: "gfni_tbls k n c g \<Longrightarrow> r \<le> n \<Longrightarrow> gfni_tbls k r c g"
  by (simp add: gfni_tbls_def)

lemma bufs_ok_split:
  assumes "bufs_ok len k src (ds @ es) m"
  shows "bufs_ok len k src ds m" "bufs_ok len k src es (write_rows len ds f m)"
    "j < k \<Longrightarrow> write_rows len ds f m (src ! j) = m (src ! j)"
proof -
  have long: "len \<le> length (m d)" if "d \<in> set ds" for d using assms that by (auto simp: bufs_ok_def)
  show "bufs_ok len k src ds m" using assms by (auto simp: bufs_ok_def)
  show "bufs_ok len k src es (write_rows len ds f m)"
    using assms length_write_rows [of ds len m f, OF long] by (auto simp: bufs_ok_def)
  show "write_rows len ds f m (src ! j) = m (src ! j)" if "j < k"
    using bufs_okD(3) [OF assms that] by (intro write_rows_other) auto
qed

lemma write_rows_dot_append:
  assumes "bufs_ok len k src (ds @ es) m"
  shows "write_rows len es (\<lambda>r. dot k (c (length ds + r)) src (write_rows len ds f m)) (write_rows len ds f m) =
    write_rows len es (\<lambda>r. dot k (c (length ds + r)) src m) (write_rows len ds f m)"
  using bufs_ok_split(3) [OF assms] by (intro write_rows_cong dot_cong) auto

locale dot_kernel =
  fixes rows :: nat and kern :: "nat \<Rightarrow> nat \<Rightarrow> u8 list \<Rightarrow> addr list \<Rightarrow> addr list \<Rightarrow> mem \<Rightarrow> mem"
  assumes kern_rows: "gfni_tbls k rows c g \<Longrightarrow> bufs_ok len k src (take rows coding) m \<Longrightarrow>
    rows \<le> length coding \<Longrightarrow>
    kern len k g src coding m = write_rows len (take rows coding) (\<lambda>r. dot k (c r) src m) m"
begin

lemma peel:
  assumes "gfni_tbls k (rows + n) c g" "bufs_ok len k src (take (rows + n) coding) m" "rows + n \<le> length coding"
  shows "bufs_ok len k src (take n (drop rows coding)) (kern len k g src coding m)"
    "gfni_tbls k n (\<lambda>r. c (rows + r)) (drop (rows * k * 32) g)"
    "write_rows len (take n (drop rows coding)) (\<lambda>r. dot k (c (rows + r)) src (kern len k g src coding m))
       (kern len k g src coding m) = write_rows len (take (rows + n) coding) (\<lambda>r. dot k (c r) src m) m"
proof -
  note ok = assms(2) [unfolded take_add]
  have len: "length (take rows coding) = rows" using assms(3) by simp
  have kern: "kern len k g src coding m = write_rows len (take rows coding) (\<lambda>r. dot k (c r) src m) m"
    using assms bufs_ok_split(1) [OF ok] by (intro kern_rows) (auto intro: gfni_tbls_mono)
  show "bufs_ok len k src (take n (drop rows coding)) (kern len k g src coding m)"
    unfolding kern by (rule bufs_ok_split(2) [OF ok])
  show "gfni_tbls k n (\<lambda>r. c (rows + r)) (drop (rows * k * 32) g)"
    by (rule gfni_tbls_drop [OF assms(1)])
  show "write_rows len (take n (drop rows coding)) (\<lambda>r. dot k (c (rows + r)) src (kern len k g src coding m))
       (kern len k g src coding m) = write_rows len (take (rows + n) coding) (\<lambda>r. dot k (c r) src m) m"
    unfolding kern take_add write_rows_append using write_rows_dot_append [OF ok, of c] by (simp only: len)
qed

end

lemma take_1: "1 \<le> length xs \<Longrightarrow> take 1 xs = [xs ! 0]"
  and take_2: "2 \<le> length xs \<Longrightarrow> take 2 xs = [xs ! 0, xs ! 1]"
  and take_3: "3 \<le> length xs \<Longrightarrow> take 3 xs = [xs ! 0, xs ! 1, xs ! 2]"
  and take_4: "4 \<le> length xs \<Longrightarrow> take 4 xs = [xs ! 0, xs ! 1, xs ! 2, xs ! 3]"
  and take_5: "5 \<le> length xs \<Longrightarrow> take 5 xs = [xs ! 0, xs ! 1, xs ! 2, xs ! 3, xs ! 4]"
  and take_6: "6 \<le> length xs \<Longrightarrow> take 6 xs = [xs ! 0, xs ! 1, xs ! 2, xs ! 3, xs ! 4, xs ! 5]"
  by (auto simp: list_eq_iff_nth_eq less_Suc_eq_0_disj numeral_eq_Suc)

end
