(* ===== verification/ISAL_Dot512.thy ===== *)
theory ISAL_Dot512
  imports ISAL_GFNI
begin

text \<open>
  The AVX-512 dot-product kernels of ISA-L, \<^verbatim>\<open>gf_vect_dot_prod_avx512_gfni\<close> to
  \<^verbatim>\<open>gf_6vect_dot_prod_avx512_gfni\<close>: 64 bytes a turn for one to six rows of parity at once, and a last turn
  under a byte msk. Each is shown to write exactly the dot products (an interpretation of
  \<open>dot_kernel\<close>).
\<close>

section \<open>Loads and stores\<close>

definition LOAD512 :: "addr \<Rightarrow> nat \<Rightarrow> mem \<Rightarrow> u8 list" where
  "LOAD512 a pos m = get (m a) pos 64"

definition TAIL_MASK :: "nat \<Rightarrow> nat \<Rightarrow> u64" where
  "TAIL_MASK len pos = push_bit (len - pos) 1 - 1"

definition maskz_loadu :: "u64 \<Rightarrow> addr \<Rightarrow> nat \<Rightarrow> mem \<Rightarrow> u8 list" where
  "maskz_loadu msk a pos m = map (\<lambda>i. if bit msk i then m a ! (pos + i) else 0) [0..<64]"

definition mask_storeu :: "addr \<Rightarrow> nat \<Rightarrow> u64 \<Rightarrow> u8 list \<Rightarrow> mem \<Rightarrow> mem" where
  "mask_storeu d pos msk v m =
     m(d := fold (\<lambda>i xs. if bit msk i then xs[pos + i := v ! i] else xs) [0..<64] (m d))"

section \<open>The code\<close>

definition gf_vect_dot_prod_avx512_turn :: "nat \<Rightarrow> u8 list \<Rightarrow> addr list \<Rightarrow> addr \<Rightarrow> nat \<Rightarrow> mem \<Rightarrow> mem" where
  "gf_vect_dot_prod_avx512_turn k g_tbls src d1 pos m =
     (let (p1, tbl) = for_up 0 k (\<lambda>i (p1, tbl).
            let s = LOAD512 (src ! i) pos m;
                p1 = vxor p1 (AFFINE s (BCAST_GF8 64 g_tbls tbl))
            in (p1, tbl + 32)) (replicate 64 0, 0);
          m = storeu d1 pos p1 m
      in m)"

definition gf_vect_dot_prod_avx512_tail :: "nat \<Rightarrow> nat \<Rightarrow> u8 list \<Rightarrow> addr list \<Rightarrow> addr \<Rightarrow> nat \<Rightarrow> mem \<Rightarrow> mem" where
  "gf_vect_dot_prod_avx512_tail len k g_tbls src d1 pos m =
     (let msk = TAIL_MASK len pos;
          (p1, tbl) = for_up 0 k (\<lambda>i (p1, tbl).
            let s = maskz_loadu msk (src ! i) pos m;
                p1 = vxor p1 (AFFINE s (BCAST_GF8 64 g_tbls tbl))
            in (p1, tbl + 32)) (replicate 64 0, 0);
          m = mask_storeu d1 pos msk p1 m
      in m)"

definition gf_vect_dot_prod_avx512_gfni :: "nat \<Rightarrow> nat \<Rightarrow> u8 list \<Rightarrow> addr list \<Rightarrow> addr \<Rightarrow> mem \<Rightarrow> mem" where
  "gf_vect_dot_prod_avx512_gfni len k g_tbls src dest m =
     (let (pos, m) = for_chunks 64 0 len (gf_vect_dot_prod_avx512_turn k g_tbls src dest) m
      in if pos < len then gf_vect_dot_prod_avx512_tail len k g_tbls src dest pos m else m)"

definition gf_2vect_dot_prod_avx512_turn :: "nat \<Rightarrow> u8 list \<Rightarrow> addr list \<Rightarrow> addr \<Rightarrow> addr \<Rightarrow> nat \<Rightarrow> mem \<Rightarrow> mem" where
  "gf_2vect_dot_prod_avx512_turn k g_tbls src d1 d2 pos m =
     (let row_stride = k * 32;
          (p1, p2, tbl) = for_up 0 k (\<lambda>i (p1, p2, tbl).
            let s = LOAD512 (src ! i) pos m;
                p1 = AFFINE_XOR_BCAST p1 s g_tbls (tbl + 0);
                p2 = AFFINE_XOR_BCAST p2 s g_tbls (tbl + 1 * row_stride)
            in (p1, p2, tbl + 32)) (replicate 64 0, replicate 64 0, 0);
          m = storeu d1 pos p1 m;
          m = storeu d2 pos p2 m
      in m)"

definition gf_2vect_dot_prod_avx512_tail :: "nat \<Rightarrow> nat \<Rightarrow> u8 list \<Rightarrow> addr list \<Rightarrow> addr \<Rightarrow> addr \<Rightarrow> nat \<Rightarrow> mem \<Rightarrow> mem" where
  "gf_2vect_dot_prod_avx512_tail len k g_tbls src d1 d2 pos m =
     (let row_stride = k * 32;
          msk = TAIL_MASK len pos;
          (p1, p2, tbl) = for_up 0 k (\<lambda>i (p1, p2, tbl).
            let s = maskz_loadu msk (src ! i) pos m;
                p1 = AFFINE_XOR_BCAST p1 s g_tbls (tbl + 0);
                p2 = AFFINE_XOR_BCAST p2 s g_tbls (tbl + 1 * row_stride)
            in (p1, p2, tbl + 32)) (replicate 64 0, replicate 64 0, 0);
          m = mask_storeu d1 pos msk p1 m;
          m = mask_storeu d2 pos msk p2 m
      in m)"

definition gf_2vect_dot_prod_avx512_gfni :: "nat \<Rightarrow> nat \<Rightarrow> u8 list \<Rightarrow> addr list \<Rightarrow> addr list \<Rightarrow> mem \<Rightarrow> mem" where
  "gf_2vect_dot_prod_avx512_gfni len k g_tbls src coding m =
     (let d1 = coding ! 0; d2 = coding ! 1;
          (pos, m) = for_chunks 64 0 len (gf_2vect_dot_prod_avx512_turn k g_tbls src d1 d2) m
      in if pos < len then gf_2vect_dot_prod_avx512_tail len k g_tbls src d1 d2 pos m else m)"

definition gf_3vect_dot_prod_avx512_turn :: "nat \<Rightarrow> u8 list \<Rightarrow> addr list \<Rightarrow> addr \<Rightarrow> addr \<Rightarrow> addr \<Rightarrow> nat \<Rightarrow> mem \<Rightarrow> mem" where
  "gf_3vect_dot_prod_avx512_turn k g_tbls src d1 d2 d3 pos m =
     (let row_stride = k * 32;
          (p1, p2, p3, tbl) = for_up 0 k (\<lambda>i (p1, p2, p3, tbl).
            let s = LOAD512 (src ! i) pos m;
                p1 = AFFINE_XOR_BCAST p1 s g_tbls (tbl + 0);
                p2 = AFFINE_XOR_BCAST p2 s g_tbls (tbl + 1 * row_stride);
                p3 = AFFINE_XOR_BCAST p3 s g_tbls (tbl + 2 * row_stride)
            in (p1, p2, p3, tbl + 32)) (replicate 64 0, replicate 64 0, replicate 64 0, 0);
          m = storeu d1 pos p1 m;
          m = storeu d2 pos p2 m;
          m = storeu d3 pos p3 m
      in m)"

definition gf_3vect_dot_prod_avx512_tail :: "nat \<Rightarrow> nat \<Rightarrow> u8 list \<Rightarrow> addr list \<Rightarrow> addr \<Rightarrow> addr \<Rightarrow> addr \<Rightarrow> nat \<Rightarrow> mem \<Rightarrow> mem" where
  "gf_3vect_dot_prod_avx512_tail len k g_tbls src d1 d2 d3 pos m =
     (let row_stride = k * 32;
          msk = TAIL_MASK len pos;
          (p1, p2, p3, tbl) = for_up 0 k (\<lambda>i (p1, p2, p3, tbl).
            let s = maskz_loadu msk (src ! i) pos m;
                p1 = AFFINE_XOR_BCAST p1 s g_tbls (tbl + 0);
                p2 = AFFINE_XOR_BCAST p2 s g_tbls (tbl + 1 * row_stride);
                p3 = AFFINE_XOR_BCAST p3 s g_tbls (tbl + 2 * row_stride)
            in (p1, p2, p3, tbl + 32)) (replicate 64 0, replicate 64 0, replicate 64 0, 0);
          m = mask_storeu d1 pos msk p1 m;
          m = mask_storeu d2 pos msk p2 m;
          m = mask_storeu d3 pos msk p3 m
      in m)"

definition gf_3vect_dot_prod_avx512_gfni :: "nat \<Rightarrow> nat \<Rightarrow> u8 list \<Rightarrow> addr list \<Rightarrow> addr list \<Rightarrow> mem \<Rightarrow> mem" where
  "gf_3vect_dot_prod_avx512_gfni len k g_tbls src coding m =
     (let d1 = coding ! 0; d2 = coding ! 1; d3 = coding ! 2;
          (pos, m) = for_chunks 64 0 len (gf_3vect_dot_prod_avx512_turn k g_tbls src d1 d2 d3) m
      in if pos < len then gf_3vect_dot_prod_avx512_tail len k g_tbls src d1 d2 d3 pos m else m)"

definition gf_4vect_dot_prod_avx512_turn :: "nat \<Rightarrow> u8 list \<Rightarrow> addr list \<Rightarrow> addr \<Rightarrow> addr \<Rightarrow> addr \<Rightarrow> addr \<Rightarrow> nat \<Rightarrow> mem \<Rightarrow> mem" where
  "gf_4vect_dot_prod_avx512_turn k g_tbls src d1 d2 d3 d4 pos m =
     (let row_stride = k * 32;
          (p1, p2, p3, p4, tbl) = for_up 0 k (\<lambda>i (p1, p2, p3, p4, tbl).
            let s = LOAD512 (src ! i) pos m;
                p1 = AFFINE_XOR_BCAST p1 s g_tbls (tbl + 0);
                p2 = AFFINE_XOR_BCAST p2 s g_tbls (tbl + 1 * row_stride);
                p3 = AFFINE_XOR_BCAST p3 s g_tbls (tbl + 2 * row_stride);
                p4 = AFFINE_XOR_BCAST p4 s g_tbls (tbl + 3 * row_stride)
            in (p1, p2, p3, p4, tbl + 32)) (replicate 64 0, replicate 64 0, replicate 64 0, replicate 64 0, 0);
          m = storeu d1 pos p1 m;
          m = storeu d2 pos p2 m;
          m = storeu d3 pos p3 m;
          m = storeu d4 pos p4 m
      in m)"

definition gf_4vect_dot_prod_avx512_tail :: "nat \<Rightarrow> nat \<Rightarrow> u8 list \<Rightarrow> addr list \<Rightarrow> addr \<Rightarrow> addr \<Rightarrow> addr \<Rightarrow> addr \<Rightarrow> nat \<Rightarrow> mem \<Rightarrow> mem" where
  "gf_4vect_dot_prod_avx512_tail len k g_tbls src d1 d2 d3 d4 pos m =
     (let row_stride = k * 32;
          msk = TAIL_MASK len pos;
          (p1, p2, p3, p4, tbl) = for_up 0 k (\<lambda>i (p1, p2, p3, p4, tbl).
            let s = maskz_loadu msk (src ! i) pos m;
                p1 = AFFINE_XOR_BCAST p1 s g_tbls (tbl + 0);
                p2 = AFFINE_XOR_BCAST p2 s g_tbls (tbl + 1 * row_stride);
                p3 = AFFINE_XOR_BCAST p3 s g_tbls (tbl + 2 * row_stride);
                p4 = AFFINE_XOR_BCAST p4 s g_tbls (tbl + 3 * row_stride)
            in (p1, p2, p3, p4, tbl + 32)) (replicate 64 0, replicate 64 0, replicate 64 0, replicate 64 0, 0);
          m = mask_storeu d1 pos msk p1 m;
          m = mask_storeu d2 pos msk p2 m;
          m = mask_storeu d3 pos msk p3 m;
          m = mask_storeu d4 pos msk p4 m
      in m)"

definition gf_4vect_dot_prod_avx512_gfni :: "nat \<Rightarrow> nat \<Rightarrow> u8 list \<Rightarrow> addr list \<Rightarrow> addr list \<Rightarrow> mem \<Rightarrow> mem" where
  "gf_4vect_dot_prod_avx512_gfni len k g_tbls src coding m =
     (let d1 = coding ! 0; d2 = coding ! 1; d3 = coding ! 2; d4 = coding ! 3;
          (pos, m) = for_chunks 64 0 len (gf_4vect_dot_prod_avx512_turn k g_tbls src d1 d2 d3 d4) m
      in if pos < len then gf_4vect_dot_prod_avx512_tail len k g_tbls src d1 d2 d3 d4 pos m else m)"

definition gf_5vect_dot_prod_avx512_turn :: "nat \<Rightarrow> u8 list \<Rightarrow> addr list \<Rightarrow> addr \<Rightarrow> addr \<Rightarrow> addr \<Rightarrow> addr \<Rightarrow> addr \<Rightarrow> nat \<Rightarrow> mem \<Rightarrow> mem" where
  "gf_5vect_dot_prod_avx512_turn k g_tbls src d1 d2 d3 d4 d5 pos m =
     (let row_stride = k * 32;
          (p1, p2, p3, p4, p5, tbl) = for_up 0 k (\<lambda>i (p1, p2, p3, p4, p5, tbl).
            let s = LOAD512 (src ! i) pos m;
                p1 = AFFINE_XOR_BCAST p1 s g_tbls (tbl + 0);
                p2 = AFFINE_XOR_BCAST p2 s g_tbls (tbl + 1 * row_stride);
                p3 = AFFINE_XOR_BCAST p3 s g_tbls (tbl + 2 * row_stride);
                p4 = AFFINE_XOR_BCAST p4 s g_tbls (tbl + 3 * row_stride);
                p5 = AFFINE_XOR_BCAST p5 s g_tbls (tbl + 4 * row_stride)
            in (p1, p2, p3, p4, p5, tbl + 32)) (replicate 64 0, replicate 64 0, replicate 64 0, replicate 64 0, replicate 64 0, 0);
          m = storeu d1 pos p1 m;
          m = storeu d2 pos p2 m;
          m = storeu d3 pos p3 m;
          m = storeu d4 pos p4 m;
          m = storeu d5 pos p5 m
      in m)"

definition gf_5vect_dot_prod_avx512_tail :: "nat \<Rightarrow> nat \<Rightarrow> u8 list \<Rightarrow> addr list \<Rightarrow> addr \<Rightarrow> addr \<Rightarrow> addr \<Rightarrow> addr \<Rightarrow> addr \<Rightarrow> nat \<Rightarrow> mem \<Rightarrow> mem" where
  "gf_5vect_dot_prod_avx512_tail len k g_tbls src d1 d2 d3 d4 d5 pos m =
     (let row_stride = k * 32;
          msk = TAIL_MASK len pos;
          (p1, p2, p3, p4, p5, tbl) = for_up 0 k (\<lambda>i (p1, p2, p3, p4, p5, tbl).
            let s = maskz_loadu msk (src ! i) pos m;
                p1 = AFFINE_XOR_BCAST p1 s g_tbls (tbl + 0);
                p2 = AFFINE_XOR_BCAST p2 s g_tbls (tbl + 1 * row_stride);
                p3 = AFFINE_XOR_BCAST p3 s g_tbls (tbl + 2 * row_stride);
                p4 = AFFINE_XOR_BCAST p4 s g_tbls (tbl + 3 * row_stride);
                p5 = AFFINE_XOR_BCAST p5 s g_tbls (tbl + 4 * row_stride)
            in (p1, p2, p3, p4, p5, tbl + 32)) (replicate 64 0, replicate 64 0, replicate 64 0, replicate 64 0, replicate 64 0, 0);
          m = mask_storeu d1 pos msk p1 m;
          m = mask_storeu d2 pos msk p2 m;
          m = mask_storeu d3 pos msk p3 m;
          m = mask_storeu d4 pos msk p4 m;
          m = mask_storeu d5 pos msk p5 m
      in m)"

definition gf_5vect_dot_prod_avx512_gfni :: "nat \<Rightarrow> nat \<Rightarrow> u8 list \<Rightarrow> addr list \<Rightarrow> addr list \<Rightarrow> mem \<Rightarrow> mem" where
  "gf_5vect_dot_prod_avx512_gfni len k g_tbls src coding m =
     (let d1 = coding ! 0; d2 = coding ! 1; d3 = coding ! 2; d4 = coding ! 3; d5 = coding ! 4;
          (pos, m) = for_chunks 64 0 len (gf_5vect_dot_prod_avx512_turn k g_tbls src d1 d2 d3 d4 d5) m
      in if pos < len then gf_5vect_dot_prod_avx512_tail len k g_tbls src d1 d2 d3 d4 d5 pos m else m)"

definition gf_6vect_dot_prod_avx512_turn :: "nat \<Rightarrow> u8 list \<Rightarrow> addr list \<Rightarrow> addr \<Rightarrow> addr \<Rightarrow> addr \<Rightarrow> addr \<Rightarrow> addr \<Rightarrow> addr \<Rightarrow> nat \<Rightarrow> mem \<Rightarrow> mem" where
  "gf_6vect_dot_prod_avx512_turn k g_tbls src d1 d2 d3 d4 d5 d6 pos m =
     (let row_stride = k * 32;
          (p1, p2, p3, p4, p5, p6, tbl) = for_up 0 k (\<lambda>i (p1, p2, p3, p4, p5, p6, tbl).
            let s = LOAD512 (src ! i) pos m;
                p1 = AFFINE_XOR_BCAST p1 s g_tbls (tbl + 0);
                p2 = AFFINE_XOR_BCAST p2 s g_tbls (tbl + 1 * row_stride);
                p3 = AFFINE_XOR_BCAST p3 s g_tbls (tbl + 2 * row_stride);
                p4 = AFFINE_XOR_BCAST p4 s g_tbls (tbl + 3 * row_stride);
                p5 = AFFINE_XOR_BCAST p5 s g_tbls (tbl + 4 * row_stride);
                p6 = AFFINE_XOR_BCAST p6 s g_tbls (tbl + 5 * row_stride)
            in (p1, p2, p3, p4, p5, p6, tbl + 32)) (replicate 64 0, replicate 64 0, replicate 64 0, replicate 64 0, replicate 64 0, replicate 64 0, 0);
          m = storeu d1 pos p1 m;
          m = storeu d2 pos p2 m;
          m = storeu d3 pos p3 m;
          m = storeu d4 pos p4 m;
          m = storeu d5 pos p5 m;
          m = storeu d6 pos p6 m
      in m)"

definition gf_6vect_dot_prod_avx512_tail :: "nat \<Rightarrow> nat \<Rightarrow> u8 list \<Rightarrow> addr list \<Rightarrow> addr \<Rightarrow> addr \<Rightarrow> addr \<Rightarrow> addr \<Rightarrow> addr \<Rightarrow> addr \<Rightarrow> nat \<Rightarrow> mem \<Rightarrow> mem" where
  "gf_6vect_dot_prod_avx512_tail len k g_tbls src d1 d2 d3 d4 d5 d6 pos m =
     (let row_stride = k * 32;
          msk = TAIL_MASK len pos;
          (p1, p2, p3, p4, p5, p6, tbl) = for_up 0 k (\<lambda>i (p1, p2, p3, p4, p5, p6, tbl).
            let s = maskz_loadu msk (src ! i) pos m;
                p1 = AFFINE_XOR_BCAST p1 s g_tbls (tbl + 0);
                p2 = AFFINE_XOR_BCAST p2 s g_tbls (tbl + 1 * row_stride);
                p3 = AFFINE_XOR_BCAST p3 s g_tbls (tbl + 2 * row_stride);
                p4 = AFFINE_XOR_BCAST p4 s g_tbls (tbl + 3 * row_stride);
                p5 = AFFINE_XOR_BCAST p5 s g_tbls (tbl + 4 * row_stride);
                p6 = AFFINE_XOR_BCAST p6 s g_tbls (tbl + 5 * row_stride)
            in (p1, p2, p3, p4, p5, p6, tbl + 32)) (replicate 64 0, replicate 64 0, replicate 64 0, replicate 64 0, replicate 64 0, replicate 64 0, 0);
          m = mask_storeu d1 pos msk p1 m;
          m = mask_storeu d2 pos msk p2 m;
          m = mask_storeu d3 pos msk p3 m;
          m = mask_storeu d4 pos msk p4 m;
          m = mask_storeu d5 pos msk p5 m;
          m = mask_storeu d6 pos msk p6 m
      in m)"

definition gf_6vect_dot_prod_avx512_gfni :: "nat \<Rightarrow> nat \<Rightarrow> u8 list \<Rightarrow> addr list \<Rightarrow> addr list \<Rightarrow> mem \<Rightarrow> mem" where
  "gf_6vect_dot_prod_avx512_gfni len k g_tbls src coding m =
     (let d1 = coding ! 0; d2 = coding ! 1; d3 = coding ! 2; d4 = coding ! 3; d5 = coding ! 4; d6 = coding ! 5;
          (pos, m) = for_chunks 64 0 len (gf_6vect_dot_prod_avx512_turn k g_tbls src d1 d2 d3 d4 d5 d6) m
      in if pos < len then gf_6vect_dot_prod_avx512_tail len k g_tbls src d1 d2 d3 d4 d5 d6 pos m else m)"

section \<open>Correctness\<close>

lemma bit_TAIL_MASK: "pos < len \<Longrightarrow> len < pos + 64 \<Longrightarrow> bit (TAIL_MASK len pos) i \<longleftrightarrow> i < len - pos"
proof -
  assume "pos < len" "len < pos + 64"
  moreover have "TAIL_MASK len pos = mask (len - pos)"
    by (simp add: TAIL_MASK_def mask_eq_exp_minus_1 push_bit_eq_mult)
  ultimately show ?thesis by (auto simp: bit_mask_iff)
qed

text \<open>The chunk of source \<open>j\<close> that starts at \<open>pos\<close>, and the same chunk under the tail mask.\<close>

lemma LOAD512_chunk:
  assumes "bufs_ok len k src ds m" "pos + 64 \<le> len" "j < k"
  shows "LOAD512 (src ! j) pos (write_rows p ds f m) = map (chunk src m pos j) [0..<64]"
  unfolding LOAD512_def by (rule get_chunk [OF assms])

lemma maskz_loadu_chunk:
  assumes "bufs_ok len k src ds m" "pos < len" "len < pos + 64" "j < k"
  shows "maskz_loadu (TAIL_MASK len pos) (src ! j) pos (write_rows p ds f m) =
    map (chunk_tail src m pos len j) [0..<64]"
  using bufs_ok_src [OF assms(1,4)] assms(2,3)
  by (simp add: maskz_loadu_def bit_TAIL_MASK chunk_tail_def chunk_def write_rows_other)

lemma mask_storeu_tail:
  assumes "pos < len" "len < pos + 64" "len \<le> length (m d)" "length v = 64"
  shows "mask_storeu d pos (TAIL_MASK len pos) v m = storeu d pos (take (len - pos) v) m"
proof -
  have "fold (\<lambda>i xs. if bit (TAIL_MASK len pos) i then xs[pos + i := v ! i] else xs) [0..<n] (m d) =
      put (m d) pos (take (min n (len - pos)) v)" if "n \<le> 64" for n
    using that
  proof (induction n)
    case (Suc n)
    show ?case
    proof (cases "n < len - pos")
      case True
      then have "(put (m d) pos (take n v))[pos + n := v ! n] = put (m d) pos (take (Suc n) v)"
        using assms Suc.prems by (intro nth_equalityI) (auto simp: nth_put nth_list_update)
      with True Suc assms show ?thesis by (simp add: bit_TAIL_MASK min_def)
    next
      case False
      with Suc assms show ?thesis by (simp add: bit_TAIL_MASK min_def)
    qed
  qed simp
  from this [of 64] assms show ?thesis
    by (cases "64 \<le> len - pos") (simp_all add: mask_storeu_def storeu_def min_def)
qed

lemma chunks512:
  assumes "\<And>pos. pos + 64 \<le> len \<Longrightarrow> turn pos (write_rows pos ds f m) = write_rows (pos + 64) ds f m"
    and "\<And>pos. pos < len \<Longrightarrow> len < pos + 64 \<Longrightarrow> tail pos (write_rows pos ds f m) = write_rows len ds f m"
  shows "(case for_chunks 64 0 len turn m of (pos, m) \<Rightarrow> if pos < len then tail pos m else m) = write_rows len ds f m"
proof -
  have "\<exists>p m'. for_chunks 64 0 len turn m = (p, m') \<and> m' = write_rows p ds f m \<and> p \<le> len \<and> len < p + 64"
    using assms(1) by (intro for_chunks_invariant) (auto simp: write_rows_0)
  then show ?thesis using assms(2) by (auto simp: le_less)
qed

lemma bcast_step:
  assumes "gfni_tbls k rows c g"
  shows "r < rows \<Longrightarrow> j < k \<Longrightarrow> p = 32 * j + r * (k * 32) \<Longrightarrow>
    AFFINE_XOR_BCAST (dotvec 64 (c r) x j) (map (x j) [0..<64]) g p = dotvec 64 (c r) x (Suc j)"
  using gfni_tblsD(2) [OF assms, of r j] dotvec_step [of 64 "c r" x j]
  by (simp add: AFFINE_XOR_BCAST_def AFFINE_bcast)

lemma bcast_step1:
  assumes "gfni_tbls k rows c g"
  shows "0 < rows \<Longrightarrow> j < k \<Longrightarrow>
    vxor (dotvec 64 (c 0) x j) (AFFINE (map (x j) [0..<64]) (BCAST_GF8 64 g (32 * j))) = dotvec 64 (c 0) x (Suc j)"
  using bcast_step [OF assms, of 0 j "32 * j" x] by (simp add: AFFINE_XOR_BCAST_def)

lemma chunk_step_mask:
  assumes "bufs_ok len k src ds m" "pos < len" "len < pos + 64" "rs = [0..<length ds]"
  shows "fold (\<lambda>(d, v). mask_storeu d pos (TAIL_MASK len pos) v)
      (zip ds (map (\<lambda>r. dotvec 64 (c r) (chunk_tail src m pos len) k) rs))
      (write_rows pos ds (\<lambda>r. dot k (c r) src m) m) = write_rows len ds (\<lambda>r. dot k (c r) src m) m"
proof -
  have store: "fold (\<lambda>(d, v). mask_storeu d pos (TAIL_MASK len pos) v) xs m' =
      store_rows pos (map (\<lambda>(d, v). (d, take (len - pos) v)) xs) m'"
    if "\<forall>(d, v)\<in>set xs. len \<le> length (m' d) \<and> length v = 64" for xs m'
    using that
  proof (induction xs arbitrary: m')
    case (Cons x xs)
    obtain d v where x: "x = (d, v)" by (cases x)
    with Cons.prems have *: "len \<le> length (m' d)" "length v = 64" by auto
    then have "length (storeu d pos (take (len - pos) v) m' e) = length (m' e)" for e
      using assms(2,3) by (simp add: storeu_def)
    with Cons * assms(2,3) show ?case by (simp add: x mask_storeu_tail)
  qed simp
  have "length (write_rows pos ds f m d) = length (m d)" for f d
    using bufs_okD(2) [OF assms(1)] assms(2) by (intro length_write_rows) fastforce
  then show ?thesis
    using bufs_okD(2) [OF assms(1)] chunk_step_tail [OF assms(1,2) less_imp_le [OF assms(3)] assms(4), of c]
    by (subst store) (auto dest: set_zip_leftD set_zip_rightD simp: zip_map2 comp_def case_prod_unfold)
qed

lemma dot1_512_loop:
  assumes "gfni_tbls k 1 c g" "\<And>j. j < k \<Longrightarrow> ld j = map (x j) [0..<64]" "n \<le> k"
  shows "for_up 0 n (\<lambda>i (p1, tbl). (vxor p1 (AFFINE (ld i) (BCAST_GF8 64 g tbl)), tbl + 32))
      (replicate 64 0, 0) =
    (dotvec 64 (c 0) x n, 32 * n)"
  using assms(3)
proof (induction n)
  case (Suc n)
  then show ?case by (simp add: for_up_Suc assms(2) bcast_step1 [OF assms(1)])
qed (simp add: dotvec_0)

lemma gf_vect_dot_prod_avx512_turn_rows:
  assumes "gfni_tbls k 1 c g" "bufs_ok len k src [d1] m" "pos + 64 \<le> len"
  shows "gf_vect_dot_prod_avx512_turn k g src d1 pos (write_rows pos [d1] (\<lambda>r. dot k (c r) src m) m) =
    write_rows (pos + 64) [d1] (\<lambda>r. dot k (c r) src m) m"
  using chunk_step [where c = c, OF assms(2,3) upt_rows(1)]
  unfolding gf_vect_dot_prod_avx512_turn_def Let_def
  by (subst dot1_512_loop [OF assms(1) LOAD512_chunk [OF assms(2,3)] order_refl]) (simp_all only: row_simps)

lemma gf_vect_dot_prod_avx512_tail_rows:
  assumes "gfni_tbls k 1 c g" "bufs_ok len k src [d1] m" "pos < len" "len < pos + 64"
  shows "gf_vect_dot_prod_avx512_tail len k g src d1 pos (write_rows pos [d1] (\<lambda>r. dot k (c r) src m) m) =
    write_rows len [d1] (\<lambda>r. dot k (c r) src m) m"
  using chunk_step_mask [where c = c, OF assms(2,3,4) upt_rows(1)]
  unfolding gf_vect_dot_prod_avx512_tail_def Let_def
  by (subst dot1_512_loop [OF assms(1) maskz_loadu_chunk [OF assms(2,3,4)] order_refl]) (simp_all only: row_simps)

interpretation dot1_512: dot_kernel 1 "\<lambda>len k g src coding. gf_vect_dot_prod_avx512_gfni len k g src (coding ! 0)"
proof
  fix k c g len src coding m
  assume a: "gfni_tbls k 1 c g" "bufs_ok len k src (take 1 coding) m" "1 \<le> length coding"
  have t: "take 1 coding = [coding ! 0]" using a(3) by (rule take_1)
  show "gf_vect_dot_prod_avx512_gfni len k g src (coding ! 0) m = write_rows len (take 1 coding) (\<lambda>r. dot k (c r) src m) m"
    unfolding gf_vect_dot_prod_avx512_gfni_def Let_def t
    by (rule chunks512)
      (rule gf_vect_dot_prod_avx512_turn_rows [OF a(1) a(2) [unfolded t]] gf_vect_dot_prod_avx512_tail_rows [OF a(1) a(2) [unfolded t]]; assumption)+
qed

lemma dot2_512_loop:
  assumes "gfni_tbls k 2 c g" "\<And>j. j < k \<Longrightarrow> ld j = map (x j) [0..<64]" "n \<le> k"
  shows "for_up 0 n (\<lambda>i (p1, p2, tbl). (AFFINE_XOR_BCAST p1 (ld i) g (tbl + 0),
      AFFINE_XOR_BCAST p2 (ld i) g (tbl + 1 * (k * 32)), tbl + 32))
      (replicate 64 0, replicate 64 0, 0) =
    (dotvec 64 (c 0) x n, dotvec 64 (c 1) x n, 32 * n)"
  using assms(3)
proof (induction n)
  case (Suc n)
  then show ?case by (simp add: for_up_Suc assms(2) bcast_step [OF assms(1)])
qed (simp add: dotvec_0)

lemma gf_2vect_dot_prod_avx512_turn_rows:
  assumes "gfni_tbls k 2 c g" "bufs_ok len k src [d1, d2] m" "pos + 64 \<le> len"
  shows "gf_2vect_dot_prod_avx512_turn k g src d1 d2 pos (write_rows pos [d1, d2] (\<lambda>r. dot k (c r) src m) m) =
    write_rows (pos + 64) [d1, d2] (\<lambda>r. dot k (c r) src m) m"
  using chunk_step [where c = c, OF assms(2,3) upt_rows(2)]
  unfolding gf_2vect_dot_prod_avx512_turn_def Let_def
  by (subst dot2_512_loop [OF assms(1) LOAD512_chunk [OF assms(2,3)] order_refl]) (simp_all only: row_simps)

lemma gf_2vect_dot_prod_avx512_tail_rows:
  assumes "gfni_tbls k 2 c g" "bufs_ok len k src [d1, d2] m" "pos < len" "len < pos + 64"
  shows "gf_2vect_dot_prod_avx512_tail len k g src d1 d2 pos (write_rows pos [d1, d2] (\<lambda>r. dot k (c r) src m) m) =
    write_rows len [d1, d2] (\<lambda>r. dot k (c r) src m) m"
  using chunk_step_mask [where c = c, OF assms(2,3,4) upt_rows(2)]
  unfolding gf_2vect_dot_prod_avx512_tail_def Let_def
  by (subst dot2_512_loop [OF assms(1) maskz_loadu_chunk [OF assms(2,3,4)] order_refl]) (simp_all only: row_simps)

interpretation dot2_512: dot_kernel 2 gf_2vect_dot_prod_avx512_gfni
proof
  fix k c g len src coding m
  assume a: "gfni_tbls k 2 c g" "bufs_ok len k src (take 2 coding) m" "2 \<le> length coding"
  have t: "take 2 coding = [coding ! 0, coding ! 1]" using a(3) by (rule take_2)
  show "gf_2vect_dot_prod_avx512_gfni len k g src coding m = write_rows len (take 2 coding) (\<lambda>r. dot k (c r) src m) m"
    unfolding gf_2vect_dot_prod_avx512_gfni_def Let_def t
    by (rule chunks512)
      (rule gf_2vect_dot_prod_avx512_turn_rows [OF a(1) a(2) [unfolded t]] gf_2vect_dot_prod_avx512_tail_rows [OF a(1) a(2) [unfolded t]]; assumption)+
qed

lemma dot3_512_loop:
  assumes "gfni_tbls k 3 c g" "\<And>j. j < k \<Longrightarrow> ld j = map (x j) [0..<64]" "n \<le> k"
  shows "for_up 0 n (\<lambda>i (p1, p2, p3, tbl). (AFFINE_XOR_BCAST p1 (ld i) g (tbl + 0),
      AFFINE_XOR_BCAST p2 (ld i) g (tbl + 1 * (k * 32)),
      AFFINE_XOR_BCAST p3 (ld i) g (tbl + 2 * (k * 32)), tbl + 32))
      (replicate 64 0, replicate 64 0, replicate 64 0, 0) =
    (dotvec 64 (c 0) x n, dotvec 64 (c 1) x n, dotvec 64 (c 2) x n, 32 * n)"
  using assms(3)
proof (induction n)
  case (Suc n)
  then show ?case by (simp add: for_up_Suc assms(2) bcast_step [OF assms(1)])
qed (simp add: dotvec_0)

lemma gf_3vect_dot_prod_avx512_turn_rows:
  assumes "gfni_tbls k 3 c g" "bufs_ok len k src [d1, d2, d3] m" "pos + 64 \<le> len"
  shows "gf_3vect_dot_prod_avx512_turn k g src d1 d2 d3 pos (write_rows pos [d1, d2, d3] (\<lambda>r. dot k (c r) src m) m) =
    write_rows (pos + 64) [d1, d2, d3] (\<lambda>r. dot k (c r) src m) m"
  using chunk_step [where c = c, OF assms(2,3) upt_rows(3)]
  unfolding gf_3vect_dot_prod_avx512_turn_def Let_def
  by (subst dot3_512_loop [OF assms(1) LOAD512_chunk [OF assms(2,3)] order_refl]) (simp_all only: row_simps)

lemma gf_3vect_dot_prod_avx512_tail_rows:
  assumes "gfni_tbls k 3 c g" "bufs_ok len k src [d1, d2, d3] m" "pos < len" "len < pos + 64"
  shows "gf_3vect_dot_prod_avx512_tail len k g src d1 d2 d3 pos (write_rows pos [d1, d2, d3] (\<lambda>r. dot k (c r) src m) m) =
    write_rows len [d1, d2, d3] (\<lambda>r. dot k (c r) src m) m"
  using chunk_step_mask [where c = c, OF assms(2,3,4) upt_rows(3)]
  unfolding gf_3vect_dot_prod_avx512_tail_def Let_def
  by (subst dot3_512_loop [OF assms(1) maskz_loadu_chunk [OF assms(2,3,4)] order_refl]) (simp_all only: row_simps)

interpretation dot3_512: dot_kernel 3 gf_3vect_dot_prod_avx512_gfni
proof
  fix k c g len src coding m
  assume a: "gfni_tbls k 3 c g" "bufs_ok len k src (take 3 coding) m" "3 \<le> length coding"
  have t: "take 3 coding = [coding ! 0, coding ! 1, coding ! 2]" using a(3) by (rule take_3)
  show "gf_3vect_dot_prod_avx512_gfni len k g src coding m = write_rows len (take 3 coding) (\<lambda>r. dot k (c r) src m) m"
    unfolding gf_3vect_dot_prod_avx512_gfni_def Let_def t
    by (rule chunks512)
      (rule gf_3vect_dot_prod_avx512_turn_rows [OF a(1) a(2) [unfolded t]] gf_3vect_dot_prod_avx512_tail_rows [OF a(1) a(2) [unfolded t]]; assumption)+
qed

lemma dot4_512_loop:
  assumes "gfni_tbls k 4 c g" "\<And>j. j < k \<Longrightarrow> ld j = map (x j) [0..<64]" "n \<le> k"
  shows "for_up 0 n (\<lambda>i (p1, p2, p3, p4, tbl). (AFFINE_XOR_BCAST p1 (ld i) g (tbl + 0),
      AFFINE_XOR_BCAST p2 (ld i) g (tbl + 1 * (k * 32)),
      AFFINE_XOR_BCAST p3 (ld i) g (tbl + 2 * (k * 32)),
      AFFINE_XOR_BCAST p4 (ld i) g (tbl + 3 * (k * 32)), tbl + 32))
      (replicate 64 0, replicate 64 0, replicate 64 0, replicate 64 0, 0) =
    (dotvec 64 (c 0) x n, dotvec 64 (c 1) x n, dotvec 64 (c 2) x n, dotvec 64 (c 3) x n, 32 * n)"
  using assms(3)
proof (induction n)
  case (Suc n)
  then show ?case by (simp add: for_up_Suc assms(2) bcast_step [OF assms(1)])
qed (simp add: dotvec_0)

lemma gf_4vect_dot_prod_avx512_turn_rows:
  assumes "gfni_tbls k 4 c g" "bufs_ok len k src [d1, d2, d3, d4] m" "pos + 64 \<le> len"
  shows "gf_4vect_dot_prod_avx512_turn k g src d1 d2 d3 d4 pos (write_rows pos [d1, d2, d3, d4] (\<lambda>r. dot k (c r) src m) m) =
    write_rows (pos + 64) [d1, d2, d3, d4] (\<lambda>r. dot k (c r) src m) m"
  using chunk_step [where c = c, OF assms(2,3) upt_rows(4)]
  unfolding gf_4vect_dot_prod_avx512_turn_def Let_def
  by (subst dot4_512_loop [OF assms(1) LOAD512_chunk [OF assms(2,3)] order_refl]) (simp_all only: row_simps)

lemma gf_4vect_dot_prod_avx512_tail_rows:
  assumes "gfni_tbls k 4 c g" "bufs_ok len k src [d1, d2, d3, d4] m" "pos < len" "len < pos + 64"
  shows "gf_4vect_dot_prod_avx512_tail len k g src d1 d2 d3 d4 pos (write_rows pos [d1, d2, d3, d4] (\<lambda>r. dot k (c r) src m) m) =
    write_rows len [d1, d2, d3, d4] (\<lambda>r. dot k (c r) src m) m"
  using chunk_step_mask [where c = c, OF assms(2,3,4) upt_rows(4)]
  unfolding gf_4vect_dot_prod_avx512_tail_def Let_def
  by (subst dot4_512_loop [OF assms(1) maskz_loadu_chunk [OF assms(2,3,4)] order_refl]) (simp_all only: row_simps)

interpretation dot4_512: dot_kernel 4 gf_4vect_dot_prod_avx512_gfni
proof
  fix k c g len src coding m
  assume a: "gfni_tbls k 4 c g" "bufs_ok len k src (take 4 coding) m" "4 \<le> length coding"
  have t: "take 4 coding = [coding ! 0, coding ! 1, coding ! 2, coding ! 3]" using a(3) by (rule take_4)
  show "gf_4vect_dot_prod_avx512_gfni len k g src coding m = write_rows len (take 4 coding) (\<lambda>r. dot k (c r) src m) m"
    unfolding gf_4vect_dot_prod_avx512_gfni_def Let_def t
    by (rule chunks512)
      (rule gf_4vect_dot_prod_avx512_turn_rows [OF a(1) a(2) [unfolded t]] gf_4vect_dot_prod_avx512_tail_rows [OF a(1) a(2) [unfolded t]]; assumption)+
qed

lemma dot5_512_loop:
  assumes "gfni_tbls k 5 c g" "\<And>j. j < k \<Longrightarrow> ld j = map (x j) [0..<64]" "n \<le> k"
  shows "for_up 0 n (\<lambda>i (p1, p2, p3, p4, p5, tbl). (AFFINE_XOR_BCAST p1 (ld i) g (tbl + 0),
      AFFINE_XOR_BCAST p2 (ld i) g (tbl + 1 * (k * 32)),
      AFFINE_XOR_BCAST p3 (ld i) g (tbl + 2 * (k * 32)),
      AFFINE_XOR_BCAST p4 (ld i) g (tbl + 3 * (k * 32)),
      AFFINE_XOR_BCAST p5 (ld i) g (tbl + 4 * (k * 32)), tbl + 32))
      (replicate 64 0, replicate 64 0, replicate 64 0, replicate 64 0, replicate 64 0, 0) =
    (dotvec 64 (c 0) x n, dotvec 64 (c 1) x n, dotvec 64 (c 2) x n, dotvec 64 (c 3) x n, dotvec 64 (c 4) x n, 32 * n)"
  using assms(3)
proof (induction n)
  case (Suc n)
  then show ?case by (simp add: for_up_Suc assms(2) bcast_step [OF assms(1)])
qed (simp add: dotvec_0)

lemma gf_5vect_dot_prod_avx512_turn_rows:
  assumes "gfni_tbls k 5 c g" "bufs_ok len k src [d1, d2, d3, d4, d5] m" "pos + 64 \<le> len"
  shows "gf_5vect_dot_prod_avx512_turn k g src d1 d2 d3 d4 d5 pos (write_rows pos [d1, d2, d3, d4, d5] (\<lambda>r. dot k (c r) src m) m) =
    write_rows (pos + 64) [d1, d2, d3, d4, d5] (\<lambda>r. dot k (c r) src m) m"
  using chunk_step [where c = c, OF assms(2,3) upt_rows(5)]
  unfolding gf_5vect_dot_prod_avx512_turn_def Let_def
  by (subst dot5_512_loop [OF assms(1) LOAD512_chunk [OF assms(2,3)] order_refl]) (simp_all only: row_simps)

lemma gf_5vect_dot_prod_avx512_tail_rows:
  assumes "gfni_tbls k 5 c g" "bufs_ok len k src [d1, d2, d3, d4, d5] m" "pos < len" "len < pos + 64"
  shows "gf_5vect_dot_prod_avx512_tail len k g src d1 d2 d3 d4 d5 pos (write_rows pos [d1, d2, d3, d4, d5] (\<lambda>r. dot k (c r) src m) m) =
    write_rows len [d1, d2, d3, d4, d5] (\<lambda>r. dot k (c r) src m) m"
  using chunk_step_mask [where c = c, OF assms(2,3,4) upt_rows(5)]
  unfolding gf_5vect_dot_prod_avx512_tail_def Let_def
  by (subst dot5_512_loop [OF assms(1) maskz_loadu_chunk [OF assms(2,3,4)] order_refl]) (simp_all only: row_simps)

interpretation dot5_512: dot_kernel 5 gf_5vect_dot_prod_avx512_gfni
proof
  fix k c g len src coding m
  assume a: "gfni_tbls k 5 c g" "bufs_ok len k src (take 5 coding) m" "5 \<le> length coding"
  have t: "take 5 coding = [coding ! 0, coding ! 1, coding ! 2, coding ! 3, coding ! 4]" using a(3) by (rule take_5)
  show "gf_5vect_dot_prod_avx512_gfni len k g src coding m = write_rows len (take 5 coding) (\<lambda>r. dot k (c r) src m) m"
    unfolding gf_5vect_dot_prod_avx512_gfni_def Let_def t
    by (rule chunks512)
      (rule gf_5vect_dot_prod_avx512_turn_rows [OF a(1) a(2) [unfolded t]] gf_5vect_dot_prod_avx512_tail_rows [OF a(1) a(2) [unfolded t]]; assumption)+
qed

lemma dot6_512_loop:
  assumes "gfni_tbls k 6 c g" "\<And>j. j < k \<Longrightarrow> ld j = map (x j) [0..<64]" "n \<le> k"
  shows "for_up 0 n (\<lambda>i (p1, p2, p3, p4, p5, p6, tbl). (AFFINE_XOR_BCAST p1 (ld i) g (tbl + 0),
      AFFINE_XOR_BCAST p2 (ld i) g (tbl + 1 * (k * 32)),
      AFFINE_XOR_BCAST p3 (ld i) g (tbl + 2 * (k * 32)),
      AFFINE_XOR_BCAST p4 (ld i) g (tbl + 3 * (k * 32)),
      AFFINE_XOR_BCAST p5 (ld i) g (tbl + 4 * (k * 32)),
      AFFINE_XOR_BCAST p6 (ld i) g (tbl + 5 * (k * 32)), tbl + 32))
      (replicate 64 0, replicate 64 0, replicate 64 0, replicate 64 0, replicate 64 0, replicate 64 0, 0) =
    (dotvec 64 (c 0) x n, dotvec 64 (c 1) x n, dotvec 64 (c 2) x n, dotvec 64 (c 3) x n, dotvec 64 (c 4) x n, dotvec 64 (c 5) x n, 32 * n)"
  using assms(3)
proof (induction n)
  case (Suc n)
  then show ?case by (simp add: for_up_Suc assms(2) bcast_step [OF assms(1)])
qed (simp add: dotvec_0)

lemma gf_6vect_dot_prod_avx512_turn_rows:
  assumes "gfni_tbls k 6 c g" "bufs_ok len k src [d1, d2, d3, d4, d5, d6] m" "pos + 64 \<le> len"
  shows "gf_6vect_dot_prod_avx512_turn k g src d1 d2 d3 d4 d5 d6 pos (write_rows pos [d1, d2, d3, d4, d5, d6] (\<lambda>r. dot k (c r) src m) m) =
    write_rows (pos + 64) [d1, d2, d3, d4, d5, d6] (\<lambda>r. dot k (c r) src m) m"
  using chunk_step [where c = c, OF assms(2,3) upt_rows(6)]
  unfolding gf_6vect_dot_prod_avx512_turn_def Let_def
  by (subst dot6_512_loop [OF assms(1) LOAD512_chunk [OF assms(2,3)] order_refl]) (simp_all only: row_simps)

lemma gf_6vect_dot_prod_avx512_tail_rows:
  assumes "gfni_tbls k 6 c g" "bufs_ok len k src [d1, d2, d3, d4, d5, d6] m" "pos < len" "len < pos + 64"
  shows "gf_6vect_dot_prod_avx512_tail len k g src d1 d2 d3 d4 d5 d6 pos (write_rows pos [d1, d2, d3, d4, d5, d6] (\<lambda>r. dot k (c r) src m) m) =
    write_rows len [d1, d2, d3, d4, d5, d6] (\<lambda>r. dot k (c r) src m) m"
  using chunk_step_mask [where c = c, OF assms(2,3,4) upt_rows(6)]
  unfolding gf_6vect_dot_prod_avx512_tail_def Let_def
  by (subst dot6_512_loop [OF assms(1) maskz_loadu_chunk [OF assms(2,3,4)] order_refl]) (simp_all only: row_simps)

interpretation dot6_512: dot_kernel 6 gf_6vect_dot_prod_avx512_gfni
proof
  fix k c g len src coding m
  assume a: "gfni_tbls k 6 c g" "bufs_ok len k src (take 6 coding) m" "6 \<le> length coding"
  have t: "take 6 coding = [coding ! 0, coding ! 1, coding ! 2, coding ! 3, coding ! 4, coding ! 5]" using a(3) by (rule take_6)
  show "gf_6vect_dot_prod_avx512_gfni len k g src coding m = write_rows len (take 6 coding) (\<lambda>r. dot k (c r) src m) m"
    unfolding gf_6vect_dot_prod_avx512_gfni_def Let_def t
    by (rule chunks512)
      (rule gf_6vect_dot_prod_avx512_turn_rows [OF a(1) a(2) [unfolded t]] gf_6vect_dot_prod_avx512_tail_rows [OF a(1) a(2) [unfolded t]]; assumption)+
qed

end
