(* ===== verification/ISAL_Dot256.thy ===== *)
theory ISAL_Dot256
  imports ISAL_GFNI
begin

text \<open>
  The AVX2 dot-product kernels of ISA-L, \<^verbatim>\<open>gf_vect_dot_prod_avx2_gfni\<close> to
  \<^verbatim>\<open>gf_3vect_dot_prod_avx2_gfni\<close>: turns of 96 bytes, at most one of 64 and one of 32, and a rest below 32
  bytes that goes through a zeroed stack buffer. Each interprets \<open>dot_kernel\<close>.
\<close>

section \<open>The code\<close>

definition LOAD256 :: "addr \<Rightarrow> nat \<Rightarrow> mem \<Rightarrow> u8 list" where
  "LOAD256 a pos m = get (m a) pos 32"

definition gf_vect_dot_prod_avx2_96 :: "nat \<Rightarrow> u8 list \<Rightarrow> addr list \<Rightarrow> addr \<Rightarrow> nat \<Rightarrow> mem \<Rightarrow> mem" where
  "gf_vect_dot_prod_avx2_96 k g_tbls src d1 pos m =
     (let (p1l, p1h, p1x, tbl) = for_up 0 k (\<lambda>i (p1l, p1h, p1x, tbl).
            let xl = LOAD256 (src ! i) (pos + 0) m;
                xh = LOAD256 (src ! i) (pos + 32) m;
                xx = LOAD256 (src ! i) (pos + 64) m;
                g1 = get g_tbls (tbl) 32;
                tbl = tbl + 32;
                p1l = vxor p1l (AFFINE xl g1);
                p1h = vxor p1h (AFFINE xh g1);
                p1x = vxor p1x (AFFINE xx g1)
            in (p1l, p1h, p1x, tbl))
            (replicate 32 0, replicate 32 0, replicate 32 0, 0);
          m = storeu d1 (pos + 0) p1l m;
          m = storeu d1 (pos + 32) p1h m;
          m = storeu d1 (pos + 64) p1x m
      in m)"

definition gf_vect_dot_prod_avx2_64 :: "nat \<Rightarrow> u8 list \<Rightarrow> addr list \<Rightarrow> addr \<Rightarrow> nat \<Rightarrow> mem \<Rightarrow> mem" where
  "gf_vect_dot_prod_avx2_64 k g_tbls src d1 pos m =
     (let (p1l, p1h, tbl) = for_up 0 k (\<lambda>i (p1l, p1h, tbl).
            let xl = LOAD256 (src ! i) (pos + 0) m;
                xh = LOAD256 (src ! i) (pos + 32) m;
                g1 = get g_tbls (tbl) 32;
                tbl = tbl + 32;
                p1l = vxor p1l (AFFINE xl g1);
                p1h = vxor p1h (AFFINE xh g1)
            in (p1l, p1h, tbl))
            (replicate 32 0, replicate 32 0, 0);
          m = storeu d1 (pos + 0) p1l m;
          m = storeu d1 (pos + 32) p1h m
      in m)"

definition gf_vect_dot_prod_avx2_32 :: "nat \<Rightarrow> u8 list \<Rightarrow> addr list \<Rightarrow> addr \<Rightarrow> nat \<Rightarrow> mem \<Rightarrow> mem" where
  "gf_vect_dot_prod_avx2_32 k g_tbls src d1 pos m =
     (let (p1, tbl) = for_up 0 k (\<lambda>i (p1, tbl).
            let x = LOAD256 (src ! i) pos m;
                g1 = get g_tbls (tbl) 32;
                tbl = tbl + 32;
                p1 = vxor p1 (AFFINE x g1)
            in (p1, tbl))
            (replicate 32 0, 0);
          m = storeu d1 pos p1 m
      in m)"

definition gf_vect_dot_prod_avx2_tail :: "nat \<Rightarrow> nat \<Rightarrow> u8 list \<Rightarrow> addr list \<Rightarrow> addr \<Rightarrow> nat \<Rightarrow> mem \<Rightarrow> mem" where
  "gf_vect_dot_prod_avx2_tail len k g_tbls src d1 pos m =
     (let rem = len - pos;
          (buf, p1, tbl) = for_up 0 k (\<lambda>i (buf, p1, tbl).
            let buf = put buf 0 (get (m (src ! i)) pos rem);
                x = get buf 0 32;
                g1 = get g_tbls (tbl) 32;
                tbl = tbl + 32;
                p1 = vxor p1 (AFFINE x g1)
            in (buf, p1, tbl))
            (replicate 32 0, replicate 32 0, 0);
          buf = put buf 0 p1;
          m = storeu d1 pos (get buf 0 rem) m
      in m)"

definition gf_vect_dot_prod_avx2_gfni :: "nat \<Rightarrow> nat \<Rightarrow> u8 list \<Rightarrow> addr list \<Rightarrow> addr \<Rightarrow> mem \<Rightarrow> mem" where
  "gf_vect_dot_prod_avx2_gfni len k g_tbls src dest m =
     (let (pos, m) = for_chunks 96 0 len (gf_vect_dot_prod_avx2_96 k g_tbls src dest) m;
          (pos, m) = (if pos + 64 \<le> len then (pos + 64, gf_vect_dot_prod_avx2_64 k g_tbls src dest pos m) else (pos, m));
          (pos, m) = (if pos + 32 \<le> len then (pos + 32, gf_vect_dot_prod_avx2_32 k g_tbls src dest pos m) else (pos, m))
      in if pos < len then gf_vect_dot_prod_avx2_tail len k g_tbls src dest pos m else m)"

definition gf_2vect_dot_prod_avx2_96 :: "nat \<Rightarrow> u8 list \<Rightarrow> addr list \<Rightarrow> addr \<Rightarrow> addr \<Rightarrow> nat \<Rightarrow> mem \<Rightarrow> mem" where
  "gf_2vect_dot_prod_avx2_96 k g_tbls src d1 d2 pos m =
     (let row_stride = k * 32;
          (p1l, p2l, p1h, p2h, p1x, p2x, tbl) = for_up 0 k (\<lambda>i (p1l, p2l, p1h, p2h, p1x, p2x, tbl).
            let xl = LOAD256 (src ! i) (pos + 0) m;
                xh = LOAD256 (src ! i) (pos + 32) m;
                xx = LOAD256 (src ! i) (pos + 64) m;
                g1 = get g_tbls (tbl + 0) 32;
                g2 = get g_tbls (tbl + row_stride) 32;
                tbl = tbl + 32;
                p1l = vxor p1l (AFFINE xl g1);
                p2l = vxor p2l (AFFINE xl g2);
                p1h = vxor p1h (AFFINE xh g1);
                p2h = vxor p2h (AFFINE xh g2);
                p1x = vxor p1x (AFFINE xx g1);
                p2x = vxor p2x (AFFINE xx g2)
            in (p1l, p2l, p1h, p2h, p1x, p2x, tbl))
            (replicate 32 0, replicate 32 0, replicate 32 0, replicate 32 0, replicate 32 0, replicate 32 0, 0);
          m = storeu d1 (pos + 0) p1l m;
          m = storeu d2 (pos + 0) p2l m;
          m = storeu d1 (pos + 32) p1h m;
          m = storeu d2 (pos + 32) p2h m;
          m = storeu d1 (pos + 64) p1x m;
          m = storeu d2 (pos + 64) p2x m
      in m)"

definition gf_2vect_dot_prod_avx2_64 :: "nat \<Rightarrow> u8 list \<Rightarrow> addr list \<Rightarrow> addr \<Rightarrow> addr \<Rightarrow> nat \<Rightarrow> mem \<Rightarrow> mem" where
  "gf_2vect_dot_prod_avx2_64 k g_tbls src d1 d2 pos m =
     (let row_stride = k * 32;
          (p1l, p2l, p1h, p2h, tbl) = for_up 0 k (\<lambda>i (p1l, p2l, p1h, p2h, tbl).
            let xl = LOAD256 (src ! i) (pos + 0) m;
                xh = LOAD256 (src ! i) (pos + 32) m;
                g1 = get g_tbls (tbl + 0) 32;
                g2 = get g_tbls (tbl + row_stride) 32;
                tbl = tbl + 32;
                p1l = vxor p1l (AFFINE xl g1);
                p2l = vxor p2l (AFFINE xl g2);
                p1h = vxor p1h (AFFINE xh g1);
                p2h = vxor p2h (AFFINE xh g2)
            in (p1l, p2l, p1h, p2h, tbl))
            (replicate 32 0, replicate 32 0, replicate 32 0, replicate 32 0, 0);
          m = storeu d1 (pos + 0) p1l m;
          m = storeu d2 (pos + 0) p2l m;
          m = storeu d1 (pos + 32) p1h m;
          m = storeu d2 (pos + 32) p2h m
      in m)"

definition gf_2vect_dot_prod_avx2_32 :: "nat \<Rightarrow> u8 list \<Rightarrow> addr list \<Rightarrow> addr \<Rightarrow> addr \<Rightarrow> nat \<Rightarrow> mem \<Rightarrow> mem" where
  "gf_2vect_dot_prod_avx2_32 k g_tbls src d1 d2 pos m =
     (let row_stride = k * 32;
          (p1, p2, tbl) = for_up 0 k (\<lambda>i (p1, p2, tbl).
            let x = LOAD256 (src ! i) pos m;
                g1 = get g_tbls (tbl + 0) 32;
                g2 = get g_tbls (tbl + row_stride) 32;
                tbl = tbl + 32;
                p1 = vxor p1 (AFFINE x g1);
                p2 = vxor p2 (AFFINE x g2)
            in (p1, p2, tbl))
            (replicate 32 0, replicate 32 0, 0);
          m = storeu d1 pos p1 m;
          m = storeu d2 pos p2 m
      in m)"

definition gf_2vect_dot_prod_avx2_tail :: "nat \<Rightarrow> nat \<Rightarrow> u8 list \<Rightarrow> addr list \<Rightarrow> addr \<Rightarrow> addr \<Rightarrow> nat \<Rightarrow> mem \<Rightarrow> mem" where
  "gf_2vect_dot_prod_avx2_tail len k g_tbls src d1 d2 pos m =
     (let row_stride = k * 32;
          rem = len - pos;
          (buf, p1, p2, tbl) = for_up 0 k (\<lambda>i (buf, p1, p2, tbl).
            let buf = put buf 0 (get (m (src ! i)) pos rem);
                x = get buf 0 32;
                g1 = get g_tbls (tbl + 0) 32;
                g2 = get g_tbls (tbl + row_stride) 32;
                tbl = tbl + 32;
                p1 = vxor p1 (AFFINE x g1);
                p2 = vxor p2 (AFFINE x g2)
            in (buf, p1, p2, tbl))
            (replicate 32 0, replicate 32 0, replicate 32 0, 0);
          buf = put buf 0 p1;
          m = storeu d1 pos (get buf 0 rem) m;
          buf = put buf 0 p2;
          m = storeu d2 pos (get buf 0 rem) m
      in m)"

definition gf_2vect_dot_prod_avx2_gfni :: "nat \<Rightarrow> nat \<Rightarrow> u8 list \<Rightarrow> addr list \<Rightarrow> addr list \<Rightarrow> mem \<Rightarrow> mem" where
  "gf_2vect_dot_prod_avx2_gfni len k g_tbls src coding m =
     (let d1 = coding ! 0; d2 = coding ! 1;
          (pos, m) = for_chunks 96 0 len (gf_2vect_dot_prod_avx2_96 k g_tbls src d1 d2) m;
          (pos, m) = (if pos + 64 \<le> len then (pos + 64, gf_2vect_dot_prod_avx2_64 k g_tbls src d1 d2 pos m) else (pos, m));
          (pos, m) = (if pos + 32 \<le> len then (pos + 32, gf_2vect_dot_prod_avx2_32 k g_tbls src d1 d2 pos m) else (pos, m))
      in if pos < len then gf_2vect_dot_prod_avx2_tail len k g_tbls src d1 d2 pos m else m)"

definition gf_3vect_dot_prod_avx2_96 :: "nat \<Rightarrow> u8 list \<Rightarrow> addr list \<Rightarrow> addr \<Rightarrow> addr \<Rightarrow> addr \<Rightarrow> nat \<Rightarrow> mem \<Rightarrow> mem" where
  "gf_3vect_dot_prod_avx2_96 k g_tbls src d1 d2 d3 pos m =
     (let row_stride = k * 32;
          (p1l, p2l, p3l, p1h, p2h, p3h, p1x, p2x, p3x, tbl) = for_up 0 k (\<lambda>i (p1l, p2l, p3l, p1h, p2h, p3h, p1x, p2x, p3x, tbl).
            let xl = LOAD256 (src ! i) (pos + 0) m;
                xh = LOAD256 (src ! i) (pos + 32) m;
                xx = LOAD256 (src ! i) (pos + 64) m;
                g1 = get g_tbls (tbl + 0) 32;
                g2 = get g_tbls (tbl + row_stride) 32;
                g3 = get g_tbls (tbl + 2 * row_stride) 32;
                tbl = tbl + 32;
                p1l = vxor p1l (AFFINE xl g1);
                p2l = vxor p2l (AFFINE xl g2);
                p3l = vxor p3l (AFFINE xl g3);
                p1h = vxor p1h (AFFINE xh g1);
                p2h = vxor p2h (AFFINE xh g2);
                p3h = vxor p3h (AFFINE xh g3);
                p1x = vxor p1x (AFFINE xx g1);
                p2x = vxor p2x (AFFINE xx g2);
                p3x = vxor p3x (AFFINE xx g3)
            in (p1l, p2l, p3l, p1h, p2h, p3h, p1x, p2x, p3x, tbl))
            (replicate 32 0, replicate 32 0, replicate 32 0, replicate 32 0, replicate 32 0, replicate 32 0, replicate 32 0, replicate 32 0, replicate 32 0, 0);
          m = storeu d1 (pos + 0) p1l m;
          m = storeu d2 (pos + 0) p2l m;
          m = storeu d3 (pos + 0) p3l m;
          m = storeu d1 (pos + 32) p1h m;
          m = storeu d2 (pos + 32) p2h m;
          m = storeu d3 (pos + 32) p3h m;
          m = storeu d1 (pos + 64) p1x m;
          m = storeu d2 (pos + 64) p2x m;
          m = storeu d3 (pos + 64) p3x m
      in m)"

definition gf_3vect_dot_prod_avx2_64 :: "nat \<Rightarrow> u8 list \<Rightarrow> addr list \<Rightarrow> addr \<Rightarrow> addr \<Rightarrow> addr \<Rightarrow> nat \<Rightarrow> mem \<Rightarrow> mem" where
  "gf_3vect_dot_prod_avx2_64 k g_tbls src d1 d2 d3 pos m =
     (let row_stride = k * 32;
          (p1l, p2l, p3l, p1h, p2h, p3h, tbl) = for_up 0 k (\<lambda>i (p1l, p2l, p3l, p1h, p2h, p3h, tbl).
            let xl = LOAD256 (src ! i) (pos + 0) m;
                xh = LOAD256 (src ! i) (pos + 32) m;
                g1 = get g_tbls (tbl + 0) 32;
                g2 = get g_tbls (tbl + row_stride) 32;
                g3 = get g_tbls (tbl + 2 * row_stride) 32;
                tbl = tbl + 32;
                p1l = vxor p1l (AFFINE xl g1);
                p2l = vxor p2l (AFFINE xl g2);
                p3l = vxor p3l (AFFINE xl g3);
                p1h = vxor p1h (AFFINE xh g1);
                p2h = vxor p2h (AFFINE xh g2);
                p3h = vxor p3h (AFFINE xh g3)
            in (p1l, p2l, p3l, p1h, p2h, p3h, tbl))
            (replicate 32 0, replicate 32 0, replicate 32 0, replicate 32 0, replicate 32 0, replicate 32 0, 0);
          m = storeu d1 (pos + 0) p1l m;
          m = storeu d2 (pos + 0) p2l m;
          m = storeu d3 (pos + 0) p3l m;
          m = storeu d1 (pos + 32) p1h m;
          m = storeu d2 (pos + 32) p2h m;
          m = storeu d3 (pos + 32) p3h m
      in m)"

definition gf_3vect_dot_prod_avx2_32 :: "nat \<Rightarrow> u8 list \<Rightarrow> addr list \<Rightarrow> addr \<Rightarrow> addr \<Rightarrow> addr \<Rightarrow> nat \<Rightarrow> mem \<Rightarrow> mem" where
  "gf_3vect_dot_prod_avx2_32 k g_tbls src d1 d2 d3 pos m =
     (let row_stride = k * 32;
          (p1, p2, p3, tbl) = for_up 0 k (\<lambda>i (p1, p2, p3, tbl).
            let x = LOAD256 (src ! i) pos m;
                g1 = get g_tbls (tbl + 0) 32;
                g2 = get g_tbls (tbl + row_stride) 32;
                g3 = get g_tbls (tbl + 2 * row_stride) 32;
                tbl = tbl + 32;
                p1 = vxor p1 (AFFINE x g1);
                p2 = vxor p2 (AFFINE x g2);
                p3 = vxor p3 (AFFINE x g3)
            in (p1, p2, p3, tbl))
            (replicate 32 0, replicate 32 0, replicate 32 0, 0);
          m = storeu d1 pos p1 m;
          m = storeu d2 pos p2 m;
          m = storeu d3 pos p3 m
      in m)"

definition gf_3vect_dot_prod_avx2_tail :: "nat \<Rightarrow> nat \<Rightarrow> u8 list \<Rightarrow> addr list \<Rightarrow> addr \<Rightarrow> addr \<Rightarrow> addr \<Rightarrow> nat \<Rightarrow> mem \<Rightarrow> mem" where
  "gf_3vect_dot_prod_avx2_tail len k g_tbls src d1 d2 d3 pos m =
     (let row_stride = k * 32;
          rem = len - pos;
          (buf, p1, p2, p3, tbl) = for_up 0 k (\<lambda>i (buf, p1, p2, p3, tbl).
            let buf = put buf 0 (get (m (src ! i)) pos rem);
                x = get buf 0 32;
                g1 = get g_tbls (tbl + 0) 32;
                g2 = get g_tbls (tbl + row_stride) 32;
                g3 = get g_tbls (tbl + 2 * row_stride) 32;
                tbl = tbl + 32;
                p1 = vxor p1 (AFFINE x g1);
                p2 = vxor p2 (AFFINE x g2);
                p3 = vxor p3 (AFFINE x g3)
            in (buf, p1, p2, p3, tbl))
            (replicate 32 0, replicate 32 0, replicate 32 0, replicate 32 0, 0);
          buf = put buf 0 p1;
          m = storeu d1 pos (get buf 0 rem) m;
          buf = put buf 0 p2;
          m = storeu d2 pos (get buf 0 rem) m;
          buf = put buf 0 p3;
          m = storeu d3 pos (get buf 0 rem) m
      in m)"

definition gf_3vect_dot_prod_avx2_gfni :: "nat \<Rightarrow> nat \<Rightarrow> u8 list \<Rightarrow> addr list \<Rightarrow> addr list \<Rightarrow> mem \<Rightarrow> mem" where
  "gf_3vect_dot_prod_avx2_gfni len k g_tbls src coding m =
     (let d1 = coding ! 0; d2 = coding ! 1; d3 = coding ! 2;
          (pos, m) = for_chunks 96 0 len (gf_3vect_dot_prod_avx2_96 k g_tbls src d1 d2 d3) m;
          (pos, m) = (if pos + 64 \<le> len then (pos + 64, gf_3vect_dot_prod_avx2_64 k g_tbls src d1 d2 d3 pos m) else (pos, m));
          (pos, m) = (if pos + 32 \<le> len then (pos + 32, gf_3vect_dot_prod_avx2_32 k g_tbls src d1 d2 d3 pos m) else (pos, m))
      in if pos < len then gf_3vect_dot_prod_avx2_tail len k g_tbls src d1 d2 d3 pos m else m)"

section \<open>Correctness\<close>

lemma LOAD256_chunk:
  assumes "bufs_ok len k src ds m" "pos + 32 \<le> len" "j < k"
  shows "LOAD256 (src ! j) pos (write_rows p ds f m) = map (chunk src m pos j) [0..<32]"
  unfolding LOAD256_def by (rule get_chunk [OF assms])

lemma tbl_step:
  assumes "gfni_tbls k rows c g"
  shows "r < rows \<Longrightarrow> j < k \<Longrightarrow> p = 32 * j + r * (k * 32) \<Longrightarrow>
    vxor (dotvec 32 (c r) x j) (AFFINE (map (x j) [0..<32]) (get g p 32)) = dotvec 32 (c r) x (Suc j)"
  using gfni_tblsD(1) [OF assms, of r j] dotvec_step [of 32 "c r" x j] by (simp add: AFFINE_tbl)

text \<open>The stack buffer of the tail after \<open>n\<close> sources: the rest of the last one, then zeros.\<close>

definition tail_buf :: "addr list \<Rightarrow> mem \<Rightarrow> nat \<Rightarrow> nat \<Rightarrow> nat \<Rightarrow> u8 list" where
  "tail_buf src m pos len n =
     (if n = 0 then replicate 32 0 else map (chunk_tail src m pos len (n - 1)) [0..<32])"

lemma tail_buf_0: "tail_buf src m pos len 0 = replicate 32 0"
  by (simp add: tail_buf_def)

lemma get_tail_buf: "get (tail_buf src m pos len (Suc j)) 0 32 = map (chunk_tail src m pos len j) [0..<32]"
  by (simp add: tail_buf_def get_def)

lemma tail_buf_step:
  assumes "bufs_ok len k src ds m" "pos < len" "len < pos + 32" "j < k"
  shows "put (tail_buf src m pos len j) 0 (get (write_rows p ds f m (src ! j)) pos (len - pos)) =
    tail_buf src m pos len (Suc j)"
proof -
  have "get (write_rows p ds f m (src ! j)) pos (len - pos) = map (chunk src m pos j) [0..<len - pos]"
    using assms by (intro get_chunk) auto
  then show ?thesis
    using assms(2,3) by (auto simp: tail_buf_def list_eq_iff_nth_eq nth_put chunk_tail_def)
qed

lemma put_all: "length xs = 32 \<Longrightarrow> length ys = 32 \<Longrightarrow> put xs 0 ys = ys"
  by (simp add: put_def)

lemma length_tail_buf [simp]: "length (tail_buf src m pos len n) = 32"
  by (simp add: tail_buf_def)

lemma get_put_tail:
  "get (put (tail_buf src m pos len n) 0 (dotvec 32 c x k)) 0 r = take r (dotvec 32 c x k)"
  "get (put (dotvec 32 c' x' k') 0 (dotvec 32 c x k)) 0 r = take r (dotvec 32 c x k)"
  "put (tail_buf src m pos len n) 0 (dotvec 32 c x k) = dotvec 32 c x k"
  "put (dotvec 32 c' x' k') 0 (dotvec 32 c x k) = dotvec 32 c x k"
  "get (dotvec 32 c x k) 0 r = take r (dotvec 32 c x k)"
  by (simp_all add: put_all get_def)

lemma chunks256:
  assumes "\<And>pos. pos + 96 \<le> len \<Longrightarrow> t96 pos (write_rows pos ds f m) = write_rows (pos + 96) ds f m"
    and "\<And>pos. pos + 64 \<le> len \<Longrightarrow> t64 pos (write_rows pos ds f m) = write_rows (pos + 64) ds f m"
    and "\<And>pos. pos + 32 \<le> len \<Longrightarrow> t32 pos (write_rows pos ds f m) = write_rows (pos + 32) ds f m"
    and "\<And>pos. pos < len \<Longrightarrow> len < pos + 32 \<Longrightarrow> tail pos (write_rows pos ds f m) = write_rows len ds f m"
  shows "(case for_chunks 96 0 len t96 m of (pos, m) \<Rightarrow>
      case if pos + 64 \<le> len then (pos + 64, t64 pos m) else (pos, m) of (pos, m) \<Rightarrow>
      case if pos + 32 \<le> len then (pos + 32, t32 pos m) else (pos, m) of (pos, m) \<Rightarrow>
      if pos < len then tail pos m else m) = write_rows len ds f m"
proof -
  have "\<exists>p m'. for_chunks 96 0 len t96 m = (p, m') \<and> m' = write_rows p ds f m \<and> p \<le> len \<and> len < p + 96"
    using assms(1) by (intro for_chunks_invariant) auto
  then obtain p where p: "for_chunks 96 0 len t96 m = (p, write_rows p ds f m)" "p \<le> len" "len < p + 96"
    by blast
  have tail: "(if q < len then tail q (write_rows q ds f m) else write_rows q ds f m) = write_rows len ds f m"
    if "q \<le> len" "len < q + 32" for q
    using that assms(4) by (auto simp: le_less)
  show ?thesis
    using p assms(2,3) tail [of p] tail [of "p + 32"] tail [of "p + 64"] tail [of "p + 64 + 32"] by simp
qed

lemma dot1_256_loop_96:
  assumes "gfni_tbls k 1 c g"
    and "\<And>j. j < k \<Longrightarrow> ldl j = map (xl j) [0..<32]" "\<And>j. j < k \<Longrightarrow> ldh j = map (xh j) [0..<32]" "\<And>j. j < k \<Longrightarrow> ldx j = map (xx j) [0..<32]" "n \<le> k"
  shows "for_up 0 n (\<lambda>i (p1l, p1h, p1x, tbl). (vxor p1l (AFFINE (ldl i) (get g (tbl) 32)),
      vxor p1h (AFFINE (ldh i) (get g (tbl) 32)),
      vxor p1x (AFFINE (ldx i) (get g (tbl) 32)),
      tbl + 32))
      (replicate 32 0, replicate 32 0, replicate 32 0, 0) =
    (dotvec 32 (c 0) xl n, dotvec 32 (c 0) xh n, dotvec 32 (c 0) xx n, 32 * n)"
  using assms(5)
proof (induction n)
  case (Suc n)
  then show ?case by (simp add: for_up_Suc assms(2,3,4) tbl_step [OF assms(1)])
qed (simp add: dotvec_0)

lemma gf_vect_dot_prod_avx2_96_rows:
  assumes "gfni_tbls k 1 c g" "bufs_ok len k src [d1] m" "pos + 96 \<le> len"
  shows "gf_vect_dot_prod_avx2_96 k g src d1 pos (write_rows pos [d1] (\<lambda>r. dot k (c r) src m) m) =
    write_rows (pos + 96) [d1] (\<lambda>r. dot k (c r) src m) m"
proof -
  have b0: "pos + 0 + 32 \<le> len" using assms(3) by simp
  have b1: "pos + 32 + 32 \<le> len" using assms(3) by simp
  have b2: "pos + 64 + 32 \<le> len" using assms(3) by simp
  note steps = chunk_step [where c = c and w = 32, OF assms(2) b0 upt_rows(1)] chunk_step [where c = c and w = 32, OF assms(2) b1 upt_rows(1)] chunk_step [where c = c and w = 32, OF assms(2) b2 upt_rows(1)]
  note loads = LOAD256_chunk [OF assms(2) b0] LOAD256_chunk [OF assms(2) b1] LOAD256_chunk [OF assms(2) b2]
  have "pos + 0 = pos" "pos + 0 + 32 = pos + 32" "pos + 32 + 32 = pos + 64" "pos + 64 + 32 = pos + 96" by simp_all
  note steps = steps [unfolded this(1)] this
  show ?thesis
    unfolding gf_vect_dot_prod_avx2_96_def Let_def
    by (subst dot1_256_loop_96 [OF assms(1) loads order_refl])
      (use steps in \<open>simp_all only: row_simps add_0_right\<close>)
qed

lemma dot1_256_loop_64:
  assumes "gfni_tbls k 1 c g"
    and "\<And>j. j < k \<Longrightarrow> ldl j = map (xl j) [0..<32]" "\<And>j. j < k \<Longrightarrow> ldh j = map (xh j) [0..<32]" "n \<le> k"
  shows "for_up 0 n (\<lambda>i (p1l, p1h, tbl). (vxor p1l (AFFINE (ldl i) (get g (tbl) 32)),
      vxor p1h (AFFINE (ldh i) (get g (tbl) 32)),
      tbl + 32))
      (replicate 32 0, replicate 32 0, 0) =
    (dotvec 32 (c 0) xl n, dotvec 32 (c 0) xh n, 32 * n)"
  using assms(4)
proof (induction n)
  case (Suc n)
  then show ?case by (simp add: for_up_Suc assms(2,3) tbl_step [OF assms(1)])
qed (simp add: dotvec_0)

lemma gf_vect_dot_prod_avx2_64_rows:
  assumes "gfni_tbls k 1 c g" "bufs_ok len k src [d1] m" "pos + 64 \<le> len"
  shows "gf_vect_dot_prod_avx2_64 k g src d1 pos (write_rows pos [d1] (\<lambda>r. dot k (c r) src m) m) =
    write_rows (pos + 64) [d1] (\<lambda>r. dot k (c r) src m) m"
proof -
  have b0: "pos + 0 + 32 \<le> len" using assms(3) by simp
  have b1: "pos + 32 + 32 \<le> len" using assms(3) by simp
  note steps = chunk_step [where c = c and w = 32, OF assms(2) b0 upt_rows(1)] chunk_step [where c = c and w = 32, OF assms(2) b1 upt_rows(1)]
  note loads = LOAD256_chunk [OF assms(2) b0] LOAD256_chunk [OF assms(2) b1]
  have "pos + 0 = pos" "pos + 0 + 32 = pos + 32" "pos + 32 + 32 = pos + 64" "pos + 64 + 32 = pos + 96" by simp_all
  note steps = steps [unfolded this(1)] this
  show ?thesis
    unfolding gf_vect_dot_prod_avx2_64_def Let_def
    by (subst dot1_256_loop_64 [OF assms(1) loads order_refl])
      (use steps in \<open>simp_all only: row_simps add_0_right\<close>)
qed

lemma dot1_256_loop_32:
  assumes "gfni_tbls k 1 c g"
    and "\<And>j. j < k \<Longrightarrow> ld j = map (x j) [0..<32]" "n \<le> k"
  shows "for_up 0 n (\<lambda>i (p1, tbl). (vxor p1 (AFFINE (ld i) (get g (tbl) 32)),
      tbl + 32))
      (replicate 32 0, 0) =
    (dotvec 32 (c 0) x n, 32 * n)"
  using assms(3)
proof (induction n)
  case (Suc n)
  then show ?case by (simp add: for_up_Suc assms(2) tbl_step [OF assms(1)])
qed (simp add: dotvec_0)

lemma gf_vect_dot_prod_avx2_32_rows:
  assumes "gfni_tbls k 1 c g" "bufs_ok len k src [d1] m" "pos + 32 \<le> len"
  shows "gf_vect_dot_prod_avx2_32 k g src d1 pos (write_rows pos [d1] (\<lambda>r. dot k (c r) src m) m) =
    write_rows (pos + 32) [d1] (\<lambda>r. dot k (c r) src m) m"
proof -
  have b0: "pos + 0 + 32 \<le> len" using assms(3) by simp
  note steps = chunk_step [where c = c and w = 32, OF assms(2) b0 upt_rows(1)]
  note loads = LOAD256_chunk [OF assms(2) b0]
  have "pos + 0 = pos" "pos + 0 + 32 = pos + 32" "pos + 32 + 32 = pos + 64" "pos + 64 + 32 = pos + 96" by simp_all
  note steps = steps [unfolded this(1)] this
  show ?thesis
    unfolding gf_vect_dot_prod_avx2_32_def Let_def
    by (subst dot1_256_loop_32 [OF assms(1) loads [unfolded add_0_right] order_refl])
      (use steps in \<open>simp_all only: row_simps add_0_right\<close>)
qed

lemma dot1_256_loop_tail:
  assumes "gfni_tbls k 1 c g"
    and "\<And>j. j < k \<Longrightarrow> put (bz j) 0 (ld j) = bz (Suc j)" "\<And>j. j < k \<Longrightarrow> get (bz (Suc j)) 0 32 = map (x j) [0..<32]"
    and "bz 0 = replicate 32 0" "n \<le> k"
  shows "for_up 0 n (\<lambda>i (buf, p1, tbl). (put buf 0 (ld i),
      vxor p1 (AFFINE (get (put buf 0 (ld i)) 0 32) (get g (tbl) 32)),
      tbl + 32))
      (replicate 32 0, replicate 32 0, 0) =
    (bz n, dotvec 32 (c 0) x n, 32 * n)"
  using assms(5)
proof (induction n)
  case (Suc n)
  then show ?case by (simp add: for_up_Suc assms(2,3,4) tbl_step [OF assms(1)])
qed (simp add: dotvec_0 assms(4))

lemma gf_vect_dot_prod_avx2_tail_rows:
  assumes "gfni_tbls k 1 c g" "bufs_ok len k src [d1] m" "pos < len" "len < pos + 32"
  shows "gf_vect_dot_prod_avx2_tail len k g src d1 pos (write_rows pos [d1] (\<lambda>r. dot k (c r) src m) m) =
    write_rows len [d1] (\<lambda>r. dot k (c r) src m) m"
  using chunk_step_tail [where c = c and w = 32, OF assms(2,3) less_imp_le [OF assms(4)] upt_rows(1)]
  unfolding gf_vect_dot_prod_avx2_tail_def Let_def
  by (subst dot1_256_loop_tail [where bz = "tail_buf src m pos len", OF assms(1) tail_buf_step [OF assms(2-4)] get_tail_buf tail_buf_0 order_refl])
    (simp_all only: row_simps get_put_tail)

interpretation dot1_256: dot_kernel 1 "\<lambda>len k g src coding. gf_vect_dot_prod_avx2_gfni len k g src (coding ! 0)"
proof
  fix k c g len src coding m
  assume a: "gfni_tbls k 1 c g" "bufs_ok len k src (take 1 coding) m" "1 \<le> length coding"
  have t: "take 1 coding = [coding ! 0]" using a(3) by (rule take_1)
  note ok = a(1) a(2) [unfolded t]
  show "gf_vect_dot_prod_avx2_gfni len k g src (coding ! 0) m = write_rows len (take 1 coding) (\<lambda>r. dot k (c r) src m) m"
    unfolding gf_vect_dot_prod_avx2_gfni_def Let_def t
    by (rule chunks256)
      (rule gf_vect_dot_prod_avx2_96_rows [OF ok] gf_vect_dot_prod_avx2_64_rows [OF ok] gf_vect_dot_prod_avx2_32_rows [OF ok] gf_vect_dot_prod_avx2_tail_rows [OF ok]; assumption)+
qed

lemma dot2_256_loop_96:
  assumes "gfni_tbls k 2 c g"
    and "\<And>j. j < k \<Longrightarrow> ldl j = map (xl j) [0..<32]" "\<And>j. j < k \<Longrightarrow> ldh j = map (xh j) [0..<32]" "\<And>j. j < k \<Longrightarrow> ldx j = map (xx j) [0..<32]" "n \<le> k"
  shows "for_up 0 n (\<lambda>i (p1l, p2l, p1h, p2h, p1x, p2x, tbl). (vxor p1l (AFFINE (ldl i) (get g (tbl + 0) 32)),
      vxor p2l (AFFINE (ldl i) (get g (tbl + (k * 32)) 32)),
      vxor p1h (AFFINE (ldh i) (get g (tbl + 0) 32)),
      vxor p2h (AFFINE (ldh i) (get g (tbl + (k * 32)) 32)),
      vxor p1x (AFFINE (ldx i) (get g (tbl + 0) 32)),
      vxor p2x (AFFINE (ldx i) (get g (tbl + (k * 32)) 32)),
      tbl + 32))
      (replicate 32 0, replicate 32 0, replicate 32 0, replicate 32 0, replicate 32 0, replicate 32 0, 0) =
    (dotvec 32 (c 0) xl n, dotvec 32 (c 1) xl n, dotvec 32 (c 0) xh n, dotvec 32 (c 1) xh n, dotvec 32 (c 0) xx n, dotvec 32 (c 1) xx n, 32 * n)"
  using assms(5)
proof (induction n)
  case (Suc n)
  then show ?case by (simp add: for_up_Suc assms(2,3,4) tbl_step [OF assms(1)])
qed (simp add: dotvec_0)

lemma gf_2vect_dot_prod_avx2_96_rows:
  assumes "gfni_tbls k 2 c g" "bufs_ok len k src [d1, d2] m" "pos + 96 \<le> len"
  shows "gf_2vect_dot_prod_avx2_96 k g src d1 d2 pos (write_rows pos [d1, d2] (\<lambda>r. dot k (c r) src m) m) =
    write_rows (pos + 96) [d1, d2] (\<lambda>r. dot k (c r) src m) m"
proof -
  have b0: "pos + 0 + 32 \<le> len" using assms(3) by simp
  have b1: "pos + 32 + 32 \<le> len" using assms(3) by simp
  have b2: "pos + 64 + 32 \<le> len" using assms(3) by simp
  note steps = chunk_step [where c = c and w = 32, OF assms(2) b0 upt_rows(2)] chunk_step [where c = c and w = 32, OF assms(2) b1 upt_rows(2)] chunk_step [where c = c and w = 32, OF assms(2) b2 upt_rows(2)]
  note loads = LOAD256_chunk [OF assms(2) b0] LOAD256_chunk [OF assms(2) b1] LOAD256_chunk [OF assms(2) b2]
  have "pos + 0 = pos" "pos + 0 + 32 = pos + 32" "pos + 32 + 32 = pos + 64" "pos + 64 + 32 = pos + 96" by simp_all
  note steps = steps [unfolded this(1)] this
  show ?thesis
    unfolding gf_2vect_dot_prod_avx2_96_def Let_def
    by (subst dot2_256_loop_96 [OF assms(1) loads order_refl])
      (use steps in \<open>simp_all only: row_simps add_0_right\<close>)
qed

lemma dot2_256_loop_64:
  assumes "gfni_tbls k 2 c g"
    and "\<And>j. j < k \<Longrightarrow> ldl j = map (xl j) [0..<32]" "\<And>j. j < k \<Longrightarrow> ldh j = map (xh j) [0..<32]" "n \<le> k"
  shows "for_up 0 n (\<lambda>i (p1l, p2l, p1h, p2h, tbl). (vxor p1l (AFFINE (ldl i) (get g (tbl + 0) 32)),
      vxor p2l (AFFINE (ldl i) (get g (tbl + (k * 32)) 32)),
      vxor p1h (AFFINE (ldh i) (get g (tbl + 0) 32)),
      vxor p2h (AFFINE (ldh i) (get g (tbl + (k * 32)) 32)),
      tbl + 32))
      (replicate 32 0, replicate 32 0, replicate 32 0, replicate 32 0, 0) =
    (dotvec 32 (c 0) xl n, dotvec 32 (c 1) xl n, dotvec 32 (c 0) xh n, dotvec 32 (c 1) xh n, 32 * n)"
  using assms(4)
proof (induction n)
  case (Suc n)
  then show ?case by (simp add: for_up_Suc assms(2,3) tbl_step [OF assms(1)])
qed (simp add: dotvec_0)

lemma gf_2vect_dot_prod_avx2_64_rows:
  assumes "gfni_tbls k 2 c g" "bufs_ok len k src [d1, d2] m" "pos + 64 \<le> len"
  shows "gf_2vect_dot_prod_avx2_64 k g src d1 d2 pos (write_rows pos [d1, d2] (\<lambda>r. dot k (c r) src m) m) =
    write_rows (pos + 64) [d1, d2] (\<lambda>r. dot k (c r) src m) m"
proof -
  have b0: "pos + 0 + 32 \<le> len" using assms(3) by simp
  have b1: "pos + 32 + 32 \<le> len" using assms(3) by simp
  note steps = chunk_step [where c = c and w = 32, OF assms(2) b0 upt_rows(2)] chunk_step [where c = c and w = 32, OF assms(2) b1 upt_rows(2)]
  note loads = LOAD256_chunk [OF assms(2) b0] LOAD256_chunk [OF assms(2) b1]
  have "pos + 0 = pos" "pos + 0 + 32 = pos + 32" "pos + 32 + 32 = pos + 64" "pos + 64 + 32 = pos + 96" by simp_all
  note steps = steps [unfolded this(1)] this
  show ?thesis
    unfolding gf_2vect_dot_prod_avx2_64_def Let_def
    by (subst dot2_256_loop_64 [OF assms(1) loads order_refl])
      (use steps in \<open>simp_all only: row_simps add_0_right\<close>)
qed

lemma dot2_256_loop_32:
  assumes "gfni_tbls k 2 c g"
    and "\<And>j. j < k \<Longrightarrow> ld j = map (x j) [0..<32]" "n \<le> k"
  shows "for_up 0 n (\<lambda>i (p1, p2, tbl). (vxor p1 (AFFINE (ld i) (get g (tbl + 0) 32)),
      vxor p2 (AFFINE (ld i) (get g (tbl + (k * 32)) 32)),
      tbl + 32))
      (replicate 32 0, replicate 32 0, 0) =
    (dotvec 32 (c 0) x n, dotvec 32 (c 1) x n, 32 * n)"
  using assms(3)
proof (induction n)
  case (Suc n)
  then show ?case by (simp add: for_up_Suc assms(2) tbl_step [OF assms(1)])
qed (simp add: dotvec_0)

lemma gf_2vect_dot_prod_avx2_32_rows:
  assumes "gfni_tbls k 2 c g" "bufs_ok len k src [d1, d2] m" "pos + 32 \<le> len"
  shows "gf_2vect_dot_prod_avx2_32 k g src d1 d2 pos (write_rows pos [d1, d2] (\<lambda>r. dot k (c r) src m) m) =
    write_rows (pos + 32) [d1, d2] (\<lambda>r. dot k (c r) src m) m"
proof -
  have b0: "pos + 0 + 32 \<le> len" using assms(3) by simp
  note steps = chunk_step [where c = c and w = 32, OF assms(2) b0 upt_rows(2)]
  note loads = LOAD256_chunk [OF assms(2) b0]
  have "pos + 0 = pos" "pos + 0 + 32 = pos + 32" "pos + 32 + 32 = pos + 64" "pos + 64 + 32 = pos + 96" by simp_all
  note steps = steps [unfolded this(1)] this
  show ?thesis
    unfolding gf_2vect_dot_prod_avx2_32_def Let_def
    by (subst dot2_256_loop_32 [OF assms(1) loads [unfolded add_0_right] order_refl])
      (use steps in \<open>simp_all only: row_simps add_0_right\<close>)
qed

lemma dot2_256_loop_tail:
  assumes "gfni_tbls k 2 c g"
    and "\<And>j. j < k \<Longrightarrow> put (bz j) 0 (ld j) = bz (Suc j)" "\<And>j. j < k \<Longrightarrow> get (bz (Suc j)) 0 32 = map (x j) [0..<32]"
    and "bz 0 = replicate 32 0" "n \<le> k"
  shows "for_up 0 n (\<lambda>i (buf, p1, p2, tbl). (put buf 0 (ld i),
      vxor p1 (AFFINE (get (put buf 0 (ld i)) 0 32) (get g (tbl + 0) 32)),
      vxor p2 (AFFINE (get (put buf 0 (ld i)) 0 32) (get g (tbl + (k * 32)) 32)),
      tbl + 32))
      (replicate 32 0, replicate 32 0, replicate 32 0, 0) =
    (bz n, dotvec 32 (c 0) x n, dotvec 32 (c 1) x n, 32 * n)"
  using assms(5)
proof (induction n)
  case (Suc n)
  then show ?case by (simp add: for_up_Suc assms(2,3,4) tbl_step [OF assms(1)])
qed (simp add: dotvec_0 assms(4))

lemma gf_2vect_dot_prod_avx2_tail_rows:
  assumes "gfni_tbls k 2 c g" "bufs_ok len k src [d1, d2] m" "pos < len" "len < pos + 32"
  shows "gf_2vect_dot_prod_avx2_tail len k g src d1 d2 pos (write_rows pos [d1, d2] (\<lambda>r. dot k (c r) src m) m) =
    write_rows len [d1, d2] (\<lambda>r. dot k (c r) src m) m"
  using chunk_step_tail [where c = c and w = 32, OF assms(2,3) less_imp_le [OF assms(4)] upt_rows(2)]
  unfolding gf_2vect_dot_prod_avx2_tail_def Let_def
  by (subst dot2_256_loop_tail [where bz = "tail_buf src m pos len", OF assms(1) tail_buf_step [OF assms(2-4)] get_tail_buf tail_buf_0 order_refl])
    (simp_all only: row_simps get_put_tail)

interpretation dot2_256: dot_kernel 2 gf_2vect_dot_prod_avx2_gfni
proof
  fix k c g len src coding m
  assume a: "gfni_tbls k 2 c g" "bufs_ok len k src (take 2 coding) m" "2 \<le> length coding"
  have t: "take 2 coding = [coding ! 0, coding ! 1]" using a(3) by (rule take_2)
  note ok = a(1) a(2) [unfolded t]
  show "gf_2vect_dot_prod_avx2_gfni len k g src coding m = write_rows len (take 2 coding) (\<lambda>r. dot k (c r) src m) m"
    unfolding gf_2vect_dot_prod_avx2_gfni_def Let_def t
    by (rule chunks256)
      (rule gf_2vect_dot_prod_avx2_96_rows [OF ok] gf_2vect_dot_prod_avx2_64_rows [OF ok] gf_2vect_dot_prod_avx2_32_rows [OF ok] gf_2vect_dot_prod_avx2_tail_rows [OF ok]; assumption)+
qed

lemma dot3_256_loop_96:
  assumes "gfni_tbls k 3 c g"
    and "\<And>j. j < k \<Longrightarrow> ldl j = map (xl j) [0..<32]" "\<And>j. j < k \<Longrightarrow> ldh j = map (xh j) [0..<32]" "\<And>j. j < k \<Longrightarrow> ldx j = map (xx j) [0..<32]" "n \<le> k"
  shows "for_up 0 n (\<lambda>i (p1l, p2l, p3l, p1h, p2h, p3h, p1x, p2x, p3x, tbl). (vxor p1l (AFFINE (ldl i) (get g (tbl + 0) 32)),
      vxor p2l (AFFINE (ldl i) (get g (tbl + (k * 32)) 32)),
      vxor p3l (AFFINE (ldl i) (get g (tbl + 2 * (k * 32)) 32)),
      vxor p1h (AFFINE (ldh i) (get g (tbl + 0) 32)),
      vxor p2h (AFFINE (ldh i) (get g (tbl + (k * 32)) 32)),
      vxor p3h (AFFINE (ldh i) (get g (tbl + 2 * (k * 32)) 32)),
      vxor p1x (AFFINE (ldx i) (get g (tbl + 0) 32)),
      vxor p2x (AFFINE (ldx i) (get g (tbl + (k * 32)) 32)),
      vxor p3x (AFFINE (ldx i) (get g (tbl + 2 * (k * 32)) 32)),
      tbl + 32))
      (replicate 32 0, replicate 32 0, replicate 32 0, replicate 32 0, replicate 32 0, replicate 32 0, replicate 32 0, replicate 32 0, replicate 32 0, 0) =
    (dotvec 32 (c 0) xl n, dotvec 32 (c 1) xl n, dotvec 32 (c 2) xl n, dotvec 32 (c 0) xh n, dotvec 32 (c 1) xh n, dotvec 32 (c 2) xh n, dotvec 32 (c 0) xx n, dotvec 32 (c 1) xx n, dotvec 32 (c 2) xx n, 32 * n)"
  using assms(5)
proof (induction n)
  case (Suc n)
  then show ?case by (simp add: for_up_Suc assms(2,3,4) tbl_step [OF assms(1)])
qed (simp add: dotvec_0)

lemma gf_3vect_dot_prod_avx2_96_rows:
  assumes "gfni_tbls k 3 c g" "bufs_ok len k src [d1, d2, d3] m" "pos + 96 \<le> len"
  shows "gf_3vect_dot_prod_avx2_96 k g src d1 d2 d3 pos (write_rows pos [d1, d2, d3] (\<lambda>r. dot k (c r) src m) m) =
    write_rows (pos + 96) [d1, d2, d3] (\<lambda>r. dot k (c r) src m) m"
proof -
  have b0: "pos + 0 + 32 \<le> len" using assms(3) by simp
  have b1: "pos + 32 + 32 \<le> len" using assms(3) by simp
  have b2: "pos + 64 + 32 \<le> len" using assms(3) by simp
  note steps = chunk_step [where c = c and w = 32, OF assms(2) b0 upt_rows(3)] chunk_step [where c = c and w = 32, OF assms(2) b1 upt_rows(3)] chunk_step [where c = c and w = 32, OF assms(2) b2 upt_rows(3)]
  note loads = LOAD256_chunk [OF assms(2) b0] LOAD256_chunk [OF assms(2) b1] LOAD256_chunk [OF assms(2) b2]
  have "pos + 0 = pos" "pos + 0 + 32 = pos + 32" "pos + 32 + 32 = pos + 64" "pos + 64 + 32 = pos + 96" by simp_all
  note steps = steps [unfolded this(1)] this
  show ?thesis
    unfolding gf_3vect_dot_prod_avx2_96_def Let_def
    by (subst dot3_256_loop_96 [OF assms(1) loads order_refl])
      (use steps in \<open>simp_all only: row_simps add_0_right\<close>)
qed

lemma dot3_256_loop_64:
  assumes "gfni_tbls k 3 c g"
    and "\<And>j. j < k \<Longrightarrow> ldl j = map (xl j) [0..<32]" "\<And>j. j < k \<Longrightarrow> ldh j = map (xh j) [0..<32]" "n \<le> k"
  shows "for_up 0 n (\<lambda>i (p1l, p2l, p3l, p1h, p2h, p3h, tbl). (vxor p1l (AFFINE (ldl i) (get g (tbl + 0) 32)),
      vxor p2l (AFFINE (ldl i) (get g (tbl + (k * 32)) 32)),
      vxor p3l (AFFINE (ldl i) (get g (tbl + 2 * (k * 32)) 32)),
      vxor p1h (AFFINE (ldh i) (get g (tbl + 0) 32)),
      vxor p2h (AFFINE (ldh i) (get g (tbl + (k * 32)) 32)),
      vxor p3h (AFFINE (ldh i) (get g (tbl + 2 * (k * 32)) 32)),
      tbl + 32))
      (replicate 32 0, replicate 32 0, replicate 32 0, replicate 32 0, replicate 32 0, replicate 32 0, 0) =
    (dotvec 32 (c 0) xl n, dotvec 32 (c 1) xl n, dotvec 32 (c 2) xl n, dotvec 32 (c 0) xh n, dotvec 32 (c 1) xh n, dotvec 32 (c 2) xh n, 32 * n)"
  using assms(4)
proof (induction n)
  case (Suc n)
  then show ?case by (simp add: for_up_Suc assms(2,3) tbl_step [OF assms(1)])
qed (simp add: dotvec_0)

lemma gf_3vect_dot_prod_avx2_64_rows:
  assumes "gfni_tbls k 3 c g" "bufs_ok len k src [d1, d2, d3] m" "pos + 64 \<le> len"
  shows "gf_3vect_dot_prod_avx2_64 k g src d1 d2 d3 pos (write_rows pos [d1, d2, d3] (\<lambda>r. dot k (c r) src m) m) =
    write_rows (pos + 64) [d1, d2, d3] (\<lambda>r. dot k (c r) src m) m"
proof -
  have b0: "pos + 0 + 32 \<le> len" using assms(3) by simp
  have b1: "pos + 32 + 32 \<le> len" using assms(3) by simp
  note steps = chunk_step [where c = c and w = 32, OF assms(2) b0 upt_rows(3)] chunk_step [where c = c and w = 32, OF assms(2) b1 upt_rows(3)]
  note loads = LOAD256_chunk [OF assms(2) b0] LOAD256_chunk [OF assms(2) b1]
  have "pos + 0 = pos" "pos + 0 + 32 = pos + 32" "pos + 32 + 32 = pos + 64" "pos + 64 + 32 = pos + 96" by simp_all
  note steps = steps [unfolded this(1)] this
  show ?thesis
    unfolding gf_3vect_dot_prod_avx2_64_def Let_def
    by (subst dot3_256_loop_64 [OF assms(1) loads order_refl])
      (use steps in \<open>simp_all only: row_simps add_0_right\<close>)
qed

lemma dot3_256_loop_32:
  assumes "gfni_tbls k 3 c g"
    and "\<And>j. j < k \<Longrightarrow> ld j = map (x j) [0..<32]" "n \<le> k"
  shows "for_up 0 n (\<lambda>i (p1, p2, p3, tbl). (vxor p1 (AFFINE (ld i) (get g (tbl + 0) 32)),
      vxor p2 (AFFINE (ld i) (get g (tbl + (k * 32)) 32)),
      vxor p3 (AFFINE (ld i) (get g (tbl + 2 * (k * 32)) 32)),
      tbl + 32))
      (replicate 32 0, replicate 32 0, replicate 32 0, 0) =
    (dotvec 32 (c 0) x n, dotvec 32 (c 1) x n, dotvec 32 (c 2) x n, 32 * n)"
  using assms(3)
proof (induction n)
  case (Suc n)
  then show ?case by (simp add: for_up_Suc assms(2) tbl_step [OF assms(1)])
qed (simp add: dotvec_0)

lemma gf_3vect_dot_prod_avx2_32_rows:
  assumes "gfni_tbls k 3 c g" "bufs_ok len k src [d1, d2, d3] m" "pos + 32 \<le> len"
  shows "gf_3vect_dot_prod_avx2_32 k g src d1 d2 d3 pos (write_rows pos [d1, d2, d3] (\<lambda>r. dot k (c r) src m) m) =
    write_rows (pos + 32) [d1, d2, d3] (\<lambda>r. dot k (c r) src m) m"
proof -
  have b0: "pos + 0 + 32 \<le> len" using assms(3) by simp
  note steps = chunk_step [where c = c and w = 32, OF assms(2) b0 upt_rows(3)]
  note loads = LOAD256_chunk [OF assms(2) b0]
  have "pos + 0 = pos" "pos + 0 + 32 = pos + 32" "pos + 32 + 32 = pos + 64" "pos + 64 + 32 = pos + 96" by simp_all
  note steps = steps [unfolded this(1)] this
  show ?thesis
    unfolding gf_3vect_dot_prod_avx2_32_def Let_def
    by (subst dot3_256_loop_32 [OF assms(1) loads [unfolded add_0_right] order_refl])
      (use steps in \<open>simp_all only: row_simps add_0_right\<close>)
qed

lemma dot3_256_loop_tail:
  assumes "gfni_tbls k 3 c g"
    and "\<And>j. j < k \<Longrightarrow> put (bz j) 0 (ld j) = bz (Suc j)" "\<And>j. j < k \<Longrightarrow> get (bz (Suc j)) 0 32 = map (x j) [0..<32]"
    and "bz 0 = replicate 32 0" "n \<le> k"
  shows "for_up 0 n (\<lambda>i (buf, p1, p2, p3, tbl). (put buf 0 (ld i),
      vxor p1 (AFFINE (get (put buf 0 (ld i)) 0 32) (get g (tbl + 0) 32)),
      vxor p2 (AFFINE (get (put buf 0 (ld i)) 0 32) (get g (tbl + (k * 32)) 32)),
      vxor p3 (AFFINE (get (put buf 0 (ld i)) 0 32) (get g (tbl + 2 * (k * 32)) 32)),
      tbl + 32))
      (replicate 32 0, replicate 32 0, replicate 32 0, replicate 32 0, 0) =
    (bz n, dotvec 32 (c 0) x n, dotvec 32 (c 1) x n, dotvec 32 (c 2) x n, 32 * n)"
  using assms(5)
proof (induction n)
  case (Suc n)
  then show ?case by (simp add: for_up_Suc assms(2,3,4) tbl_step [OF assms(1)])
qed (simp add: dotvec_0 assms(4))

lemma gf_3vect_dot_prod_avx2_tail_rows:
  assumes "gfni_tbls k 3 c g" "bufs_ok len k src [d1, d2, d3] m" "pos < len" "len < pos + 32"
  shows "gf_3vect_dot_prod_avx2_tail len k g src d1 d2 d3 pos (write_rows pos [d1, d2, d3] (\<lambda>r. dot k (c r) src m) m) =
    write_rows len [d1, d2, d3] (\<lambda>r. dot k (c r) src m) m"
  using chunk_step_tail [where c = c and w = 32, OF assms(2,3) less_imp_le [OF assms(4)] upt_rows(3)]
  unfolding gf_3vect_dot_prod_avx2_tail_def Let_def
  by (subst dot3_256_loop_tail [where bz = "tail_buf src m pos len", OF assms(1) tail_buf_step [OF assms(2-4)] get_tail_buf tail_buf_0 order_refl])
    (simp_all only: row_simps get_put_tail)

interpretation dot3_256: dot_kernel 3 gf_3vect_dot_prod_avx2_gfni
proof
  fix k c g len src coding m
  assume a: "gfni_tbls k 3 c g" "bufs_ok len k src (take 3 coding) m" "3 \<le> length coding"
  have t: "take 3 coding = [coding ! 0, coding ! 1, coding ! 2]" using a(3) by (rule take_3)
  note ok = a(1) a(2) [unfolded t]
  show "gf_3vect_dot_prod_avx2_gfni len k g src coding m = write_rows len (take 3 coding) (\<lambda>r. dot k (c r) src m) m"
    unfolding gf_3vect_dot_prod_avx2_gfni_def Let_def t
    by (rule chunks256)
      (rule gf_3vect_dot_prod_avx2_96_rows [OF ok] gf_3vect_dot_prod_avx2_64_rows [OF ok] gf_3vect_dot_prod_avx2_32_rows [OF ok] gf_3vect_dot_prod_avx2_tail_rows [OF ok]; assumption)+
qed

end
