(* ===== verification/ISAL_Mad.thy ===== *)
theory ISAL_Mad
  imports ISAL_Dot512 ISAL_Dot256
begin

text \<open>
  The multiply-accumulate kernels of ISA-L (\<^verbatim>\<open>gf_vect_mad_avx2_gfni\<close>, \<^verbatim>\<open>gf_2vect_mad_avx2_gfni\<close>,
  \<^verbatim>\<open>gf_2vect_mad_avx512_gfni\<close>), which add one source, times its coefficient, to one or two rows of parity in
  place. Each interprets \<open>mad_kernel\<close>.
\<close>

section \<open>The code\<close>

definition gf_vect_mad_avx2_96 :: "u8 list \<Rightarrow> addr \<Rightarrow> addr \<Rightarrow> nat \<Rightarrow> mem \<Rightarrow> mem" where
  "gf_vect_mad_avx2_96 gft src dest pos m =
     (let x0l = LOAD256 src (pos + 0) m;
          x0h = LOAD256 src (pos + 32) m;
          x0x = LOAD256 src (pos + 64) m;
          d0l = LOAD256 dest (pos + 0) m;
          d0h = LOAD256 dest (pos + 32) m;
          d0x = LOAD256 dest (pos + 64) m;
          d0l = vxor d0l (AFFINE x0l gft);
          d0h = vxor d0h (AFFINE x0h gft);
          d0x = vxor d0x (AFFINE x0x gft);
          m = storeu dest (pos + 0) d0l m;
          m = storeu dest (pos + 32) d0h m;
          m = storeu dest (pos + 64) d0x m
      in m)"

definition gf_vect_mad_avx2_64 :: "u8 list \<Rightarrow> addr \<Rightarrow> addr \<Rightarrow> nat \<Rightarrow> mem \<Rightarrow> mem" where
  "gf_vect_mad_avx2_64 gft src dest pos m =
     (let x0l = LOAD256 src (pos + 0) m;
          x0h = LOAD256 src (pos + 32) m;
          d0l = LOAD256 dest (pos + 0) m;
          d0h = LOAD256 dest (pos + 32) m;
          d0l = vxor d0l (AFFINE x0l gft);
          d0h = vxor d0h (AFFINE x0h gft);
          m = storeu dest (pos + 0) d0l m;
          m = storeu dest (pos + 32) d0h m
      in m)"

definition gf_vect_mad_avx2_32 :: "u8 list \<Rightarrow> addr \<Rightarrow> addr \<Rightarrow> nat \<Rightarrow> mem \<Rightarrow> mem" where
  "gf_vect_mad_avx2_32 gft src dest pos m =
     (let x0 = LOAD256 src pos m;
          d0 = LOAD256 dest pos m;
          d0 = vxor d0 (AFFINE x0 gft);
          m = storeu dest pos d0 m
      in m)"

definition gf_vect_mad_avx2_tail :: "nat \<Rightarrow> u8 list \<Rightarrow> addr \<Rightarrow> addr \<Rightarrow> nat \<Rightarrow> mem \<Rightarrow> mem" where
  "gf_vect_mad_avx2_tail len gft src dest pos m =
     (let rem = len - pos;
          sbuf = replicate 32 0;
          dbuf = replicate 32 0;
          sbuf = put sbuf 0 (get (m src) pos rem);
          dbuf = put dbuf 0 (get (m dest) pos rem);
          x0 = get sbuf 0 32;
          d0 = get dbuf 0 32;
          d0 = vxor d0 (AFFINE x0 gft);
          dbuf = put dbuf 0 d0;
          m = storeu dest pos (get dbuf 0 rem) m
      in m)"

definition gf_vect_mad_avx2_gfni :: "nat \<Rightarrow> nat \<Rightarrow> nat \<Rightarrow> u8 list \<Rightarrow> addr \<Rightarrow> addr \<Rightarrow> mem \<Rightarrow> mem" where
  "gf_vect_mad_avx2_gfni len vec vec_i gftbls src dest m =
     (let gft = BCAST_GF8 32 gftbls (vec_i * 32);
          (pos, m) = for_chunks 96 0 len (gf_vect_mad_avx2_96 gft src dest) m;
          (pos, m) = (if pos + 64 \<le> len then (pos + 64, gf_vect_mad_avx2_64 gft src dest pos m) else (pos, m));
          (pos, m) = (if pos + 32 \<le> len then (pos + 32, gf_vect_mad_avx2_32 gft src dest pos m) else (pos, m))
      in if pos < len then gf_vect_mad_avx2_tail len gft src dest pos m else m)"

definition gf_2vect_mad_avx2_96 :: "u8 list \<Rightarrow> u8 list \<Rightarrow> addr \<Rightarrow> addr \<Rightarrow> addr \<Rightarrow> nat \<Rightarrow> mem \<Rightarrow> mem" where
  "gf_2vect_mad_avx2_96 gft1 gft2 src dp1 dp2 pos m =
     (let xl = LOAD256 src (pos + 0) m;
          xh = LOAD256 src (pos + 32) m;
          xx = LOAD256 src (pos + 64) m;
          d1l = LOAD256 dp1 (pos + 0) m;
          d2l = LOAD256 dp2 (pos + 0) m;
          d1l = vxor d1l (AFFINE xl gft1);
          d2l = vxor d2l (AFFINE xl gft2);
          m = storeu dp1 (pos + 0) d1l m;
          m = storeu dp2 (pos + 0) d2l m;
          d1h = LOAD256 dp1 (pos + 32) m;
          d2h = LOAD256 dp2 (pos + 32) m;
          d1h = vxor d1h (AFFINE xh gft1);
          d2h = vxor d2h (AFFINE xh gft2);
          m = storeu dp1 (pos + 32) d1h m;
          m = storeu dp2 (pos + 32) d2h m;
          d1x = LOAD256 dp1 (pos + 64) m;
          d2x = LOAD256 dp2 (pos + 64) m;
          d1x = vxor d1x (AFFINE xx gft1);
          d2x = vxor d2x (AFFINE xx gft2);
          m = storeu dp1 (pos + 64) d1x m;
          m = storeu dp2 (pos + 64) d2x m
      in m)"

definition gf_2vect_mad_avx2_64 :: "u8 list \<Rightarrow> u8 list \<Rightarrow> addr \<Rightarrow> addr \<Rightarrow> addr \<Rightarrow> nat \<Rightarrow> mem \<Rightarrow> mem" where
  "gf_2vect_mad_avx2_64 gft1 gft2 src dp1 dp2 pos m =
     (let xl = LOAD256 src (pos + 0) m;
          xh = LOAD256 src (pos + 32) m;
          d1l = LOAD256 dp1 (pos + 0) m;
          d2l = LOAD256 dp2 (pos + 0) m;
          d1l = vxor d1l (AFFINE xl gft1);
          d2l = vxor d2l (AFFINE xl gft2);
          m = storeu dp1 (pos + 0) d1l m;
          m = storeu dp2 (pos + 0) d2l m;
          d1h = LOAD256 dp1 (pos + 32) m;
          d2h = LOAD256 dp2 (pos + 32) m;
          d1h = vxor d1h (AFFINE xh gft1);
          d2h = vxor d2h (AFFINE xh gft2);
          m = storeu dp1 (pos + 32) d1h m;
          m = storeu dp2 (pos + 32) d2h m
      in m)"

definition gf_2vect_mad_avx2_32 :: "u8 list \<Rightarrow> u8 list \<Rightarrow> addr \<Rightarrow> addr \<Rightarrow> addr \<Rightarrow> nat \<Rightarrow> mem \<Rightarrow> mem" where
  "gf_2vect_mad_avx2_32 gft1 gft2 src dp1 dp2 pos m =
     (let x = LOAD256 src pos m;
          d1 = LOAD256 dp1 (pos + 0) m;
          d2 = LOAD256 dp2 (pos + 0) m;
          d1 = vxor d1 (AFFINE x gft1);
          d2 = vxor d2 (AFFINE x gft2);
          m = storeu dp1 (pos + 0) d1 m;
          m = storeu dp2 (pos + 0) d2 m
      in m)"

definition gf_2vect_mad_avx2_tail :: "nat \<Rightarrow> u8 list \<Rightarrow> u8 list \<Rightarrow> addr \<Rightarrow> addr \<Rightarrow> addr \<Rightarrow> nat \<Rightarrow> mem \<Rightarrow> mem" where
  "gf_2vect_mad_avx2_tail len gft1 gft2 src dp1 dp2 pos m =
     (let rem = len - pos;
          sbuf = replicate 32 0;
          sbuf = put sbuf 0 (get (m src) pos rem);
          x = get sbuf 0 32;
          dbuf = replicate 32 0;
          dbuf = put dbuf 0 (get (m dp1) pos rem);
          d = get dbuf 0 32;
          d = vxor d (AFFINE x gft1);
          dbuf = put dbuf 0 d;
          m = storeu dp1 pos (get dbuf 0 rem) m;
          dbuf = replicate 32 0;
          dbuf = put dbuf 0 (get (m dp2) pos rem);
          d = get dbuf 0 32;
          d = vxor d (AFFINE x gft2);
          dbuf = put dbuf 0 d;
          m = storeu dp2 pos (get dbuf 0 rem) m
      in m)"

definition gf_2vect_mad_avx2_gfni :: "nat \<Rightarrow> nat \<Rightarrow> nat \<Rightarrow> u8 list \<Rightarrow> addr \<Rightarrow> addr list \<Rightarrow> mem \<Rightarrow> mem" where
  "gf_2vect_mad_avx2_gfni len vec vec_i gftbls src dest m =
     (let row_stride = vec * 32;
          base = vec_i * 32;
          dp1 = dest ! 0; dp2 = dest ! 1;
          gft1 = BCAST_GF8 32 gftbls (base + 0 * row_stride);
          gft2 = BCAST_GF8 32 gftbls (base + 1 * row_stride);
          (pos, m) = for_chunks 96 0 len (gf_2vect_mad_avx2_96 gft1 gft2 src dp1 dp2) m;
          (pos, m) = (if pos + 64 \<le> len then (pos + 64, gf_2vect_mad_avx2_64 gft1 gft2 src dp1 dp2 pos m) else (pos, m));
          (pos, m) = (if pos + 32 \<le> len then (pos + 32, gf_2vect_mad_avx2_32 gft1 gft2 src dp1 dp2 pos m) else (pos, m))
      in if pos < len then gf_2vect_mad_avx2_tail len gft1 gft2 src dp1 dp2 pos m else m)"

definition gf_2vect_mad_avx512_turn :: "u8 list \<Rightarrow> u8 list \<Rightarrow> addr \<Rightarrow> addr \<Rightarrow> addr \<Rightarrow> nat \<Rightarrow> mem \<Rightarrow> mem" where
  "gf_2vect_mad_avx512_turn gft1 gft2 src d1_p d2_p pos m =
     (let s = LOAD512 src pos m;
          d1 = LOAD512 d1_p pos m;
          d2 = LOAD512 d2_p pos m;
          d1 = vxor d1 (AFFINE s gft1);
          d2 = vxor d2 (AFFINE s gft2);
          m = storeu d1_p pos d1 m;
          m = storeu d2_p pos d2 m
      in m)"

definition gf_2vect_mad_avx512_tail :: "nat \<Rightarrow> u8 list \<Rightarrow> u8 list \<Rightarrow> addr \<Rightarrow> addr \<Rightarrow> addr \<Rightarrow> nat \<Rightarrow> mem \<Rightarrow> mem" where
  "gf_2vect_mad_avx512_tail len gft1 gft2 src d1_p d2_p pos m =
     (let msk = TAIL_MASK len pos;
          s = maskz_loadu msk src pos m;
          d1 = maskz_loadu msk d1_p pos m;
          d2 = maskz_loadu msk d2_p pos m;
          d1 = vxor d1 (AFFINE s gft1);
          d2 = vxor d2 (AFFINE s gft2);
          m = mask_storeu d1_p pos msk d1 m;
          m = mask_storeu d2_p pos msk d2 m
      in m)"

definition gf_2vect_mad_avx512_gfni :: "nat \<Rightarrow> nat \<Rightarrow> nat \<Rightarrow> u8 list \<Rightarrow> addr \<Rightarrow> addr list \<Rightarrow> mem \<Rightarrow> mem" where
  "gf_2vect_mad_avx512_gfni len vec vec_i gftbls src dest m =
     (let row_stride = vec * 32;
          base = vec_i * 32;
          d1_p = dest ! 0; d2_p = dest ! 1;
          gft1 = BCAST_GF8 64 gftbls (base + 0 * row_stride);
          gft2 = BCAST_GF8 64 gftbls (base + 1 * row_stride);
          (pos, m) = for_chunks 64 0 len (gf_2vect_mad_avx512_turn gft1 gft2 src d1_p d2_p) m
      in if pos < len then gf_2vect_mad_avx512_tail len gft1 gft2 src d1_p d2_p pos m else m)"

section \<open>One chunk of one row\<close>

definition mad :: "(nat \<Rightarrow> u8) \<Rightarrow> addr \<Rightarrow> addr list \<Rightarrow> mem \<Rightarrow> nat \<Rightarrow> nat \<Rightarrow> u8" where
  "mad c src ds m r i = m (ds ! r) ! i XOR gfmul (c r) (m src ! i)"

definition mad_chunk :: "(nat \<Rightarrow> u8) \<Rightarrow> addr \<Rightarrow> addr list \<Rightarrow> mem \<Rightarrow> nat \<Rightarrow> nat \<Rightarrow> nat \<Rightarrow> u8 list" where
  "mad_chunk c src ds m w pos r = map (\<lambda>i. mad c src ds m r (pos + i)) [0..<w]"

text \<open>A vector that multiplies by a coefficient, as \<open>AFFINE\<close> sees it.\<close>

definition multiplier :: "nat \<Rightarrow> u8 list \<Rightarrow> u8 \<Rightarrow> bool" where
  "multiplier w g c \<longleftrightarrow> (\<forall>s. length s = w \<longrightarrow> AFFINE s g = map (gfmul c) s)"

lemma multiplier_bcast:
  "gfni_tbls k rows c g \<Longrightarrow> r < rows \<Longrightarrow> j < k \<Longrightarrow> p = j * 32 + r * (k * 32) \<Longrightarrow> 8 dvd w \<Longrightarrow>
   multiplier w (BCAST_GF8 w g p) (c r j)"
  using gfni_tblsD(2) [of k rows c g r j] by (simp add: multiplier_def AFFINE_bcast mult.commute)

lemma write_rows_rest:
  assumes "bufs_ok len k src ds m" "r < length ds" "p \<le> len" "p \<le> i" "i < length (m (ds ! r))"
  shows "write_rows p ds f m (ds ! r) ! i = m (ds ! r) ! i"
  using assms bufs_okD(2,4) [OF assms(1)]
  by (subst write_rows_nth) (auto simp: nth_put intro: order_trans)

lemma mad_row:
  assumes "bufs_ok len 1 [src] ds m" "r < length ds" "p \<le> pos" "pos + w \<le> len" "multiplier w g (c r)"
  shows "vxor (get (write_rows p ds f m (ds ! r)) pos w) (AFFINE (get (write_rows p' ds f' m src) pos w) g) =
    mad_chunk c src ds m w pos r"
proof -
  note ok = bufs_okD [OF assms(1)]
  have s: "write_rows p' ds f' m src = m src" "pos + w \<le> length (m src)"
    using bufs_ok_src [OF assms(1), of 0] ok(1) [of 0] assms(4) by (simp_all add: write_rows_other)
  have d: "pos + w \<le> length (m (ds ! r))" using ok(2) [of "ds ! r"] assms(2,4) by simp
  then have l: "length (write_rows p ds f m (ds ! r)) = length (m (ds ! r))"
    using ok(2) assms(3,4) by (intro length_write_rows) fastforce
  have "write_rows p ds f m (ds ! r) ! (pos + i) = m (ds ! r) ! (pos + i)" if "i < w" for i
    using that assms d by (intro write_rows_rest [OF assms(1,2)]) auto
  then show ?thesis
    using s d l assms(5) by (auto simp: multiplier_def vxor_def list_eq_iff_nth_eq mad_def mad_chunk_def)
qed

lemma mad_row_tail:
  assumes "bufs_ok len 1 [src] ds m" "r < length ds" "pos < len" "len \<le> pos + w" "multiplier w g (c r)"
    and "length x = w" "length y = w"
    and "\<And>i. i < len - pos \<Longrightarrow> x ! i = m (ds ! r) ! (pos + i)" "\<And>i. i < len - pos \<Longrightarrow> y ! i = m src ! (pos + i)"
  shows "take (len - pos) (vxor x (AFFINE y g)) = mad_chunk c src ds m (len - pos) pos r"
  using assms by (auto simp: multiplier_def vxor_def list_eq_iff_nth_eq mad_def mad_chunk_def)

text \<open>Storing the chunks of one or two rows.\<close>

lemma mad_store:
  assumes "bufs_ok len k [src] ds m" "pos + w \<le> len" "rs = [0..<length ds]"
  shows "store_rows pos (zip ds (map (mad_chunk c src ds m w pos) rs)) (write_rows pos ds (mad c src ds m) m) =
    write_rows (pos + w) ds (mad c src ds m) m"
  using bufs_okD(2,4) [OF assms(1)] assms(2,3)
  by (intro store_advance) (auto simp: mad_chunk_def intro: order_trans)

lemmas mad_store1 = mad_store [where ds = "[d1]" and rs = "[0]" for d1, OF _ _ upt_rows(1), unfolded row_simps]
lemmas mad_store2 = mad_store [where ds = "[d1, d2]" and rs = "[0, 1]" for d1 d2, OF _ _ upt_rows(2), unfolded row_simps]

lemma mad_load:
  assumes "bufs_ok len 1 [src] ds m" "multiplier w g (c r)" "d = ds ! r" "r < length ds" "p \<le> pos" "pos + w \<le> len"
  shows "vxor (get (write_rows p ds f m d) pos w) (AFFINE (get (write_rows p' ds f' m src) pos w) g) =
    mad_chunk c src ds m w pos r"
  using mad_row [where c = c and r = r, OF assms(1,4,5,6,2)] assms(3) by simp

lemma mad_tail_buf:
  assumes "bufs_ok len 1 [src] ds m" "multiplier 32 g (c r)" "d = ds ! r" "r < length ds" "pos < len" "len < pos + 32"
    and "m' d = write_rows pos ds f m d" "m'' src = m src"
  shows "get (put dbuf 0 (vxor (get (put (replicate 32 0) 0 (get (m' d) pos (len - pos))) 0 32)
      (AFFINE (get (put (replicate 32 0) 0 (get (m'' src) pos (len - pos))) 0 32) g))) 0 (len - pos) =
    mad_chunk c src ds m (len - pos) pos r"
proof -
  note ok = bufs_okD [OF assms(1)]
  have len: "len \<le> length (m d)" "len \<le> length (m src)" using ok(1) [of 0] ok(2) [of d] assms(3,4) by simp_all
  have ld: "length (m' d) = length (m d)"
    unfolding assms(7) using ok(2) assms(5) by (intro length_write_rows) fastforce
  have pad: "length (get (put (replicate 32 0) 0 (get xs pos (len - pos))) 0 32) = 32"
    "i < len - pos \<Longrightarrow> get (put (replicate 32 0) 0 (get xs pos (len - pos))) 0 32 ! i = xs ! (pos + i)"
    if "len \<le> length xs" for xs i
    using that assms(5,6) by (simp_all add: nth_put)
  have "take (len - pos) (vxor (get (put (replicate 32 0) 0 (get (m' d) pos (len - pos))) 0 32)
      (AFFINE (get (put (replicate 32 0) 0 (get (m'' src) pos (len - pos))) 0 32) g)) =
    mad_chunk c src ds m (len - pos) pos r"
  proof (rule mad_row_tail [where c = c, OF assms(1,4,5)])
    fix i assume i: "i < len - pos"
    have "m' d ! (pos + i) = m (ds ! r) ! (pos + i)"
      using write_rows_rest [OF assms(1,4), of pos "pos + i" f] i assms(3,5) len by (simp add: assms(7) [unfolded assms(3)])
    then show "get (put (replicate 32 0) 0 (get (m' d) pos (len - pos))) 0 32 ! i = m (ds ! r) ! (pos + i)"
      using pad(2) [OF _ i, of "m' d"] ld len by simp
    show "get (put (replicate 32 0) 0 (get (m'' src) pos (len - pos))) 0 32 ! i = m src ! (pos + i)"
      using pad(2) [OF _ i, of "m'' src"] assms(8) len by simp
  qed (use assms ld len pad in auto)
  moreover have "get (put dbuf 0 v) 0 n = take n v" if "n \<le> length v" for v n
    using that by (simp add: get_def put_def)
  moreover have "length (vxor (get (put (replicate 32 0) 0 (get (m' d) pos (len - pos))) 0 32)
      (AFFINE (get (put (replicate 32 0) 0 (get (m'' src) pos (len - pos))) 0 32) g)) = 32"
    unfolding vxor_def length_map length_zip AFFINE_def using pad(1) ld len assms(8) by simp
  ultimately show ?thesis using assms(6) by simp
qed

section \<open>One row, AVX2\<close>

lemma gf_vect_mad_avx2_rows:
  assumes "multiplier 32 g (c 0)" "bufs_ok len 1 [src] [d] m"
  defines "M p \<equiv> write_rows p [d] (mad c src [d] m) m"
  shows "pos + 96 \<le> len \<Longrightarrow> gf_vect_mad_avx2_96 g src d pos (M pos) = M (pos + 96)"
    and "pos + 64 \<le> len \<Longrightarrow> gf_vect_mad_avx2_64 g src d pos (M pos) = M (pos + 64)"
    and "pos + 32 \<le> len \<Longrightarrow> gf_vect_mad_avx2_32 g src d pos (M pos) = M (pos + 32)"
    and "pos < len \<Longrightarrow> len < pos + 32 \<Longrightarrow> gf_vect_mad_avx2_tail len g src d pos (M pos) = M len"
proof -
  have load: "vxor (LOAD256 d q (M p)) (AFFINE (LOAD256 src q (M p')) g) = mad_chunk c src [d] m 32 q 0"
    if "p \<le> q" "q + 32 \<le> len" for p p' q
    unfolding M_def LOAD256_def by (rule mad_load [where c = c and r = 0, OF assms(2,1)]) (use that in auto)
  have store: "storeu d q (mad_chunk c src [d] m w q 0) (M q) = M p" if "q + w = p" "p \<le> len" for q w p
    unfolding M_def using mad_store1 [OF assms(2), of q w c] that by auto
  have "src \<noteq> d" using assms(2) by (simp add: bufs_ok_def)
  then have src: "M p src = m src" for p by (simp add: M_def)
  show "gf_vect_mad_avx2_96 g src d pos (M pos) = M (pos + 96)" if "pos + 96 \<le> len"
    using that store [of pos 32 "pos + 32"] store [of "pos + 32" 32 "pos + 64"] store [of "pos + 64" 32 "pos + 96"]
    by (simp add: gf_vect_mad_avx2_96_def Let_def load)
  show "gf_vect_mad_avx2_64 g src d pos (M pos) = M (pos + 64)" if "pos + 64 \<le> len"
    using that store [of pos 32 "pos + 32"] store [of "pos + 32" 32 "pos + 64"]
    by (simp add: gf_vect_mad_avx2_64_def Let_def load)
  show "gf_vect_mad_avx2_32 g src d pos (M pos) = M (pos + 32)" if "pos + 32 \<le> len"
    using that store [of pos 32 "pos + 32"] by (simp add: gf_vect_mad_avx2_32_def Let_def load)
  show "gf_vect_mad_avx2_tail len g src d pos (M pos) = M len" if "pos < len" "len < pos + 32"
    unfolding gf_vect_mad_avx2_tail_def Let_def
    using that store [of pos "len - pos" len] M_def src
    by (subst mad_tail_buf [where c = c and r = 0, OF assms(2,1), of d]) auto
qed

section \<open>Two rows\<close>

lemma gf_2vect_mad_avx2_rows:
  assumes "multiplier 32 g1 (c 0)" "multiplier 32 g2 (c 1)" "bufs_ok len 1 [src] [d1, d2] m"
  defines "M p \<equiv> write_rows p [d1, d2] (mad c src [d1, d2] m) m"
  shows "pos + 96 \<le> len \<Longrightarrow> gf_2vect_mad_avx2_96 g1 g2 src d1 d2 pos (M pos) = M (pos + 96)"
    and "pos + 64 \<le> len \<Longrightarrow> gf_2vect_mad_avx2_64 g1 g2 src d1 d2 pos (M pos) = M (pos + 64)"
    and "pos + 32 \<le> len \<Longrightarrow> gf_2vect_mad_avx2_32 g1 g2 src d1 d2 pos (M pos) = M (pos + 32)"
    and "pos < len \<Longrightarrow> len < pos + 32 \<Longrightarrow> gf_2vect_mad_avx2_tail len g1 g2 src d1 d2 pos (M pos) = M len"
proof -
  let ?V = "mad_chunk c src [d1, d2] m"
  have load: "vxor (LOAD256 d1 q (M p)) (AFFINE (LOAD256 src q (M p')) g1) = ?V 32 q 0"
    "vxor (LOAD256 d2 q (M p)) (AFFINE (LOAD256 src q (M p')) g2) = ?V 32 q 1"
    if "p \<le> q" "q + 32 \<le> len" for p p' q
    unfolding M_def LOAD256_def
    by (rule mad_load [where c = c and r = 0, OF assms(3,1)] mad_load [where c = c and r = 1, OF assms(3,2)];
        use that in simp)+
  have store: "storeu d2 q (?V w q 1) (storeu d1 q (?V w q 0) (M q)) = M p" if "q + w = p" "p \<le> len" for q w p
    unfolding M_def using mad_store2 [OF assms(3), of q w c] that by auto
  have ne: "src \<noteq> d1" "src \<noteq> d2" "d1 \<noteq> d2" using assms(3) by (simp_all add: bufs_ok_def)
  then have src: "M p src = m src" for p by (simp add: M_def)
  show "gf_2vect_mad_avx2_96 g1 g2 src d1 d2 pos (M pos) = M (pos + 96)" if "pos + 96 \<le> len"
    using that store [of pos 32 "pos + 32"] store [of "pos + 32" 32 "pos + 64"] store [of "pos + 64" 32 "pos + 96"]
    by (simp add: gf_2vect_mad_avx2_96_def Let_def load)
  show "gf_2vect_mad_avx2_64 g1 g2 src d1 d2 pos (M pos) = M (pos + 64)" if "pos + 64 \<le> len"
    using that store [of pos 32 "pos + 32"] store [of "pos + 32" 32 "pos + 64"]
    by (simp add: gf_2vect_mad_avx2_64_def Let_def load)
  show "gf_2vect_mad_avx2_32 g1 g2 src d1 d2 pos (M pos) = M (pos + 32)" if "pos + 32 \<le> len"
    using that store [of pos 32 "pos + 32"] by (simp add: gf_2vect_mad_avx2_32_def Let_def load)
  show "gf_2vect_mad_avx2_tail len g1 g2 src d1 d2 pos (M pos) = M len" if t: "pos < len" "len < pos + 32"
  proof -
    let ?f = "mad c src [d1, d2] m"
    have c: "d1 = [d1, d2] ! 0" "0 < length [d1, d2]" "d2 = [d1, d2] ! 1" "1 < length [d1, d2]"
      "M pos d1 = write_rows pos [d1, d2] ?f m d1" by (simp_all only: M_def) simp_all
    have d2: "storeu d1 pos v (M pos) d2 = write_rows pos [d1, d2] ?f m d2" for v
      using ne by (simp only: storeu_def M_def) simp
    note row1 = mad_tail_buf [where c = c and r = 0 and m' = "M pos" and m'' = "M pos", OF assms(3,1) c(1,2) t c(5) src]
      and row2 = mad_tail_buf [where c = c and r = 1 and m' = "storeu d1 pos v (M pos)" and m'' = "M pos" for v, OF assms(3,2) c(3,4) t d2 src]
    show ?thesis
      unfolding gf_2vect_mad_avx2_tail_def Let_def row1 row2
      using t store [of pos "len - pos" len] by simp
  qed
qed

lemma gf_2vect_mad_avx512_rows:
  assumes "multiplier 64 g1 (c 0)" "multiplier 64 g2 (c 1)" "bufs_ok len 1 [src] [d1, d2] m"
  defines "M p \<equiv> write_rows p [d1, d2] (mad c src [d1, d2] m) m"
  shows "pos + 64 \<le> len \<Longrightarrow> gf_2vect_mad_avx512_turn g1 g2 src d1 d2 pos (M pos) = M (pos + 64)"
    and "pos < len \<Longrightarrow> len < pos + 64 \<Longrightarrow> gf_2vect_mad_avx512_tail len g1 g2 src d1 d2 pos (M pos) = M len"
proof -
  let ?V = "mad_chunk c src [d1, d2] m"
  have load: "vxor (LOAD512 d1 q (M p)) (AFFINE (LOAD512 src q (M p')) g1) = ?V 64 q 0"
    "vxor (LOAD512 d2 q (M p)) (AFFINE (LOAD512 src q (M p')) g2) = ?V 64 q 1"
    if "p \<le> q" "q + 64 \<le> len" for p p' q
    unfolding M_def LOAD512_def
    by (rule mad_load [where c = c and r = 0, OF assms(3,1)] mad_load [where c = c and r = 1, OF assms(3,2)];
        use that in simp)+
  have store: "storeu d2 q (?V w q 1) (storeu d1 q (?V w q 0) (M q)) = M p" if "q + w = p" "p \<le> len" for q w p
    unfolding M_def using mad_store2 [OF assms(3), of q w c] that by auto
  have ne: "src \<noteq> d1" "src \<noteq> d2" "d1 \<noteq> d2" using assms(3) by (simp_all add: bufs_ok_def)
  then have src: "M p src = m src" for p by (simp add: M_def)
  show "gf_2vect_mad_avx512_turn g1 g2 src d1 d2 pos (M pos) = M (pos + 64)" if "pos + 64 \<le> len"
    using that store [of pos 64 "pos + 64"] by (simp add: gf_2vect_mad_avx512_turn_def Let_def load)
  show "gf_2vect_mad_avx512_tail len g1 g2 src d1 d2 pos (M pos) = M len" if t: "pos < len" "len < pos + 64"
  proof -
    let ?msk = "TAIL_MASK len pos"
    have rest: "M pos d1 ! (pos + i) = m d1 ! (pos + i)" "M pos d2 ! (pos + i) = m d2 ! (pos + i)" if "i < len - pos" for i
      unfolding M_def
      using write_rows_rest [OF assms(3), of 0 pos "pos + i"] write_rows_rest [OF assms(3), of 1 pos "pos + i"] that t
        bufs_okD(2) [OF assms(3), of d1] bufs_okD(2) [OF assms(3), of d2] by auto
    have nth: "i < len - pos \<Longrightarrow> maskz_loadu ?msk a pos m' ! i = m' a ! (pos + i)"
      "length (maskz_loadu ?msk a pos m') = 64" for i a m'
      using t by (auto simp: maskz_loadu_def bit_TAIL_MASK)
    have row: "take (len - pos) (vxor (maskz_loadu ?msk d1 pos (M pos)) (AFFINE (maskz_loadu ?msk src pos (M pos)) g1)) =
        ?V (len - pos) pos 0"
      "take (len - pos) (vxor (maskz_loadu ?msk d2 pos (M pos)) (AFFINE (maskz_loadu ?msk src pos (M pos)) g2)) =
        ?V (len - pos) pos 1"
      by (rule mad_row_tail [where c = c and r = 0, OF assms(3) _ t(1) less_imp_le [OF t(2)] assms(1)]
          mad_row_tail [where c = c and r = 1, OF assms(3) _ t(1) less_imp_le [OF t(2)] assms(2)];
          simp add: nth rest src)+
    have lens: "length (M pos d1) = length (m d1)" "length (M pos d2) = length (m d2)"
      unfolding M_def using bufs_okD(2) [OF assms(3)] t by (intro length_write_rows; fastforce)+
    have "length (vxor (maskz_loadu ?msk d pos (M pos)) (AFFINE (maskz_loadu ?msk src pos (M pos)) g)) = 64" for d g
      by (simp add: maskz_loadu_def vxor_def AFFINE_def)
    then show ?thesis
      unfolding gf_2vect_mad_avx512_tail_def Let_def
      using t store [of pos "len - pos" len] lens ne bufs_okD(2) [OF assms(3), of d1] bufs_okD(2) [OF assms(3), of d2]
      by (simp add: mask_storeu_tail row storeu_def)
  qed
qed

section \<open>The contract of a multiply-accumulate kernel\<close>

lemma write_rows_mad_take:
  "n \<le> length coding \<Longrightarrow> write_rows len (take n coding) (mad c src (take n coding) m) m =
    write_rows len (take n coding) (mad c src coding m) m"
  by (rule write_rows_cong) (simp add: mad_def)

locale mad_kernel =
  fixes rows :: nat and kern :: "nat \<Rightarrow> nat \<Rightarrow> nat \<Rightarrow> u8 list \<Rightarrow> addr \<Rightarrow> addr list \<Rightarrow> mem \<Rightarrow> mem"
  assumes kern_rows: "gfni_tbls k rows c g \<Longrightarrow> vec_i < k \<Longrightarrow> bufs_ok len 1 [src] (take rows coding) m \<Longrightarrow>
    rows \<le> length coding \<Longrightarrow>
    kern len k vec_i g src coding m = write_rows len (take rows coding) (mad (\<lambda>r. c r vec_i) src coding m) m"
begin

lemma peel:
  assumes "gfni_tbls k (rows + n) c g" "vec_i < k" "bufs_ok len 1 [src] (take (rows + n) coding) m"
    "rows + n \<le> length coding"
  shows "bufs_ok len 1 [src] (take n (drop rows coding)) (kern len k vec_i g src coding m)"
    "gfni_tbls k n (\<lambda>r. c (rows + r)) (drop (rows * k * 32) g)"
    "write_rows len (take n (drop rows coding)) (mad (\<lambda>r. c (rows + r) vec_i) src (drop rows coding) (kern len k vec_i g src coding m))
       (kern len k vec_i g src coding m) = write_rows len (take (rows + n) coding) (mad (\<lambda>r. c r vec_i) src coding m) m"
proof -
  note ok = assms(3) [unfolded take_add]
  have len: "length (take rows coding) = rows" using assms(4) by simp
  let ?f = "mad (\<lambda>r. c r vec_i) src coding m"
  have kern: "kern len k vec_i g src coding m = write_rows len (take rows coding) ?f m"
    using assms bufs_ok_split(1) [OF ok] by (intro kern_rows) (auto intro: gfni_tbls_mono)
  show "bufs_ok len 1 [src] (take n (drop rows coding)) (kern len k vec_i g src coding m)"
    unfolding kern by (rule bufs_ok_split(2) [OF ok])
  show "gfni_tbls k n (\<lambda>r. c (rows + r)) (drop (rows * k * 32) g)"
    by (rule gfni_tbls_drop [OF assms(1)])
  have src: "write_rows len (take rows coding) ?f m src = m src"
    using bufs_ok_split(3) [OF ok, of 0] by simp
  have "write_rows len (take rows coding) ?f m (coding ! (rows + r)) = m (coding ! (rows + r))" if "r < n" for r
  proof (rule write_rows_other)
    have "drop rows coding ! r \<in> set (take n (drop rows coding))"
      using that assms(4) by (auto simp: in_set_conv_nth intro!: exI [of _ r])
    then show "coding ! (rows + r) \<notin> set (take rows coding)"
      using bufs_okD(4) [OF ok] assms(4) that by (auto simp: disjoint_iff)
  qed
  with src have "mad (\<lambda>r. c (rows + r) vec_i) src (drop rows coding) (write_rows len (take rows coding) ?f m) r i =
      ?f (rows + r) i" if "r < n" for r i
    using that assms(4) by (simp add: mad_def)
  then show "write_rows len (take n (drop rows coding)) (mad (\<lambda>r. c (rows + r) vec_i) src (drop rows coding) (kern len k vec_i g src coding m))
       (kern len k vec_i g src coding m) = write_rows len (take (rows + n) coding) ?f m"
    unfolding kern take_add write_rows_append len by (intro write_rows_cong) simp
qed

end

interpretation mad1_256: mad_kernel 1 "\<lambda>len k vec_i g src coding. gf_vect_mad_avx2_gfni len k vec_i g src (coding ! 0)"
proof
  fix k c g vec_i len src coding m
  assume a: "gfni_tbls k 1 c g" "vec_i < k" "bufs_ok len 1 [src] (take 1 coding) m" "1 \<le> length coding"
  have t: "take 1 coding = [coding ! 0]" using a(4) by (rule take_1)
  have g: "multiplier 32 (BCAST_GF8 32 g (vec_i * 32)) (c 0 vec_i)"
    by (rule multiplier_bcast [OF a(1) _ a(2)]) simp_all
  note rows = gf_vect_mad_avx2_rows [where c = "\<lambda>r. c r vec_i", OF g a(3) [unfolded t]]
  show "gf_vect_mad_avx2_gfni len k vec_i g src (coding ! 0) m =
      write_rows len (take 1 coding) (mad (\<lambda>r. c r vec_i) src coding m) m"
    unfolding write_rows_mad_take [OF a(4), symmetric]
    unfolding gf_vect_mad_avx2_gfni_def Let_def t
    by (rule chunks256) (rule rows; assumption)+
qed

lemma multipliers:
  assumes "gfni_tbls k 2 c g" "vec_i < k" "8 dvd w"
  shows "multiplier w (BCAST_GF8 w g (vec_i * 32 + 0 * (k * 32))) (c 0 vec_i)"
    "multiplier w (BCAST_GF8 w g (vec_i * 32 + 1 * (k * 32))) (c 1 vec_i)"
  by (rule multiplier_bcast [OF assms(1) _ assms(2) _ assms(3)]; simp)+

interpretation mad2_256: mad_kernel 2 gf_2vect_mad_avx2_gfni
proof
  fix k c g vec_i len src coding m
  assume a: "gfni_tbls k 2 c g" "vec_i < k" "bufs_ok len 1 [src] (take 2 coding) m" "2 \<le> length coding"
  have t: "take 2 coding = [coding ! 0, coding ! 1]" using a(4) by (rule take_2)
  have w: "8 dvd (32 :: nat)" by simp
  note rows = gf_2vect_mad_avx2_rows [where c = "\<lambda>r. c r vec_i", OF multipliers [OF a(1,2) w] a(3) [unfolded t]]
  show "gf_2vect_mad_avx2_gfni len k vec_i g src coding m =
      write_rows len (take 2 coding) (mad (\<lambda>r. c r vec_i) src coding m) m"
    unfolding write_rows_mad_take [OF a(4), symmetric]
    unfolding gf_2vect_mad_avx2_gfni_def Let_def t
    by (rule chunks256) (rule rows; assumption)+
qed

interpretation mad2_512: mad_kernel 2 gf_2vect_mad_avx512_gfni
proof
  fix k c g vec_i len src coding m
  assume a: "gfni_tbls k 2 c g" "vec_i < k" "bufs_ok len 1 [src] (take 2 coding) m" "2 \<le> length coding"
  have t: "take 2 coding = [coding ! 0, coding ! 1]" using a(4) by (rule take_2)
  have w: "8 dvd (64 :: nat)" by simp
  note rows = gf_2vect_mad_avx512_rows [where c = "\<lambda>r. c r vec_i", OF multipliers [OF a(1,2) w] a(3) [unfolded t]]
  show "gf_2vect_mad_avx512_gfni len k vec_i g src coding m =
      write_rows len (take 2 coding) (mad (\<lambda>r. c r vec_i) src coding m) m"
    unfolding write_rows_mad_take [OF a(4), symmetric]
    unfolding gf_2vect_mad_avx512_gfni_def Let_def t
    by (rule chunks512) (rule rows; assumption)+
qed

end
