(* ===== verification/ISAL_Glue.thy ===== *)
theory ISAL_Glue
  imports ISAL_Mad Raid6_Algos
begin

text \<open>
  The kernel-side glue \<^verbatim>\<open>isa-l/gfni_glue.c\<close>: the CPU feature tests, the single dot product, and the
  dispatchers that peel parity rows off in groups and hand each group to a vector kernel. The whole
  encode (and update) is equal to the portable code of \<^verbatim>\<open>ec_base.c\<close> on tables built from the same
  coefficient matrix. \<^verbatim>\<open>kernel_fpu_begin\<close> and \<^verbatim>\<open>kernel_fpu_end\<close> save and restore the vector registers; the
  kernels read no register they have not written, so the pair leaves no trace in the model.
\<close>

section \<open>The code\<close>

text \<open>\<open>boot_cpu_has\<close> gives the features of the processor.\<close>

definition isal_have_gfni :: "cpu \<Rightarrow> bool" where
  "isal_have_gfni boot_cpu_has \<longleftrightarrow> boot_cpu_has GFNI \<and> boot_cpu_has AVX \<and> boot_cpu_has AVX2"

definition isal_have_avx512_gfni :: "cpu \<Rightarrow> bool" where
  "isal_have_avx512_gfni boot_cpu_has \<longleftrightarrow> boot_cpu_has GFNI \<and> boot_cpu_has AVX512F \<and> boot_cpu_has AVX512BW"

definition gf_vect_dot_prod_gfni :: "nat \<Rightarrow> nat \<Rightarrow> u8 list \<Rightarrow> addr list \<Rightarrow> addr \<Rightarrow> mem \<Rightarrow> mem" where
  "gf_vect_dot_prod_gfni len vec g_tbls src dest m = gf_vect_dot_prod_avx2_gfni len vec g_tbls src dest m"

text \<open>
  The peeling loops. Advancing the pointer \<^verbatim>\<open>g_tbls\<close> or \<^verbatim>\<open>coding\<close> drops a prefix. A negative
  \<^verbatim>\<open>rows\<close> does nothing in the C code, as 0 does here.
\<close>

function ec_encode_data_avx2_gfni ::
    "nat \<Rightarrow> nat \<Rightarrow> nat \<Rightarrow> u8 list \<Rightarrow> addr list \<Rightarrow> addr list \<Rightarrow> mem \<Rightarrow> mem" where
  "ec_encode_data_avx2_gfni len k rows g_tbls data coding m =
     (if rows \<ge> 3 then
        ec_encode_data_avx2_gfni len k (rows - 3) (drop (3 * k * 32) g_tbls) data (drop 3 coding)
          (gf_3vect_dot_prod_avx2_gfni len k g_tbls data coding m)
      else if rows = 2 then gf_2vect_dot_prod_avx2_gfni len k g_tbls data coding m
      else if rows = 1 then gf_vect_dot_prod_avx2_gfni len k g_tbls data (coding ! 0) m
      else m)"
  by pat_completeness auto
termination
  by (relation "measure (\<lambda>(len, k, rows, _). rows)") auto

function ec_encode_data_avx512_gfni ::
    "nat \<Rightarrow> nat \<Rightarrow> nat \<Rightarrow> u8 list \<Rightarrow> addr list \<Rightarrow> addr list \<Rightarrow> mem \<Rightarrow> mem" where
  "ec_encode_data_avx512_gfni len k rows g_tbls data coding m =
     (if rows \<ge> 6 then
        ec_encode_data_avx512_gfni len k (rows - 6) (drop (6 * k * 32) g_tbls) data (drop 6 coding)
          (gf_6vect_dot_prod_avx512_gfni len k g_tbls data coding m)
      else if rows = 5 then gf_5vect_dot_prod_avx512_gfni len k g_tbls data coding m
      else if rows = 4 then gf_4vect_dot_prod_avx512_gfni len k g_tbls data coding m
      else if rows = 3 then gf_3vect_dot_prod_avx512_gfni len k g_tbls data coding m
      else if rows = 2 then gf_2vect_dot_prod_avx512_gfni len k g_tbls data coding m
      else if rows = 1 then gf_vect_dot_prod_avx512_gfni len k g_tbls data (coding ! 0) m
      else m)"
  by pat_completeness auto
termination
  by (relation "measure (\<lambda>(len, k, rows, _). rows)") auto

function ec_encode_data_update_avx2_gfni ::
    "nat \<Rightarrow> nat \<Rightarrow> nat \<Rightarrow> nat \<Rightarrow> u8 list \<Rightarrow> addr \<Rightarrow> addr list \<Rightarrow> mem \<Rightarrow> mem" where
  "ec_encode_data_update_avx2_gfni len k rows vec_i g_tbls data coding m =
     (if rows \<ge> 2 then
        ec_encode_data_update_avx2_gfni len k (rows - 2) vec_i (drop (2 * k * 32) g_tbls) data (drop 2 coding)
          (gf_2vect_mad_avx2_gfni len k vec_i g_tbls data coding m)
      else if rows = 1 then gf_vect_mad_avx2_gfni len k vec_i g_tbls data (coding ! 0) m
      else m)"
  by pat_completeness auto
termination
  by (relation "measure (\<lambda>(len, k, rows, _). rows)") auto

function ec_encode_data_update_avx512_gfni ::
    "nat \<Rightarrow> nat \<Rightarrow> nat \<Rightarrow> nat \<Rightarrow> u8 list \<Rightarrow> addr \<Rightarrow> addr list \<Rightarrow> mem \<Rightarrow> mem" where
  "ec_encode_data_update_avx512_gfni len k rows vec_i g_tbls data coding m =
     (if rows \<ge> 2 then
        ec_encode_data_update_avx512_gfni len k (rows - 2) vec_i (drop (2 * k * 32) g_tbls) data (drop 2 coding)
          (gf_2vect_mad_avx512_gfni len k vec_i g_tbls data coding m)
      else if rows = 1 then gf_vect_mad_avx2_gfni len k vec_i g_tbls data (coding ! 0) m
      else m)"
  by pat_completeness auto
termination
  by (relation "measure (\<lambda>(len, k, rows, _). rows)") auto

declare ec_encode_data_avx2_gfni.simps [simp del] ec_encode_data_avx512_gfni.simps [simp del]
  ec_encode_data_update_avx2_gfni.simps [simp del] ec_encode_data_update_avx512_gfni.simps [simp del]

section \<open>The dispatchers write the dot products\<close>

lemma ec_encode_data_avx2_gfni_rows:
  assumes "gfni_tbls k rows c g" "bufs_ok len k data (take rows coding) m" "rows \<le> length coding"
  shows "ec_encode_data_avx2_gfni len k rows g data coding m =
    write_rows len (take rows coding) (\<lambda>r. dot k (c r) data m) m"
  using assms
proof (induction len k rows g data coding m arbitrary: c rule: ec_encode_data_avx2_gfni.induct)
  case (1 len k rows g data coding m)
  consider "3 \<le> rows" | "rows = 2" | "rows = 1" | "rows = 0"
    by arith
  then show ?case
  proof cases
    case 1
    then obtain n where n: "rows = 3 + n" using le_Suc_ex by blast
    note peel = dot3_256.peel [OF "1.prems" [unfolded n]]
    show ?thesis
      using "1.IH" [where c = "\<lambda>r. c (3 + r)"] peel "1.prems"(3)
      by (subst ec_encode_data_avx2_gfni.simps) (simp add: n)
  qed (use "1.prems" dot2_256.kern_rows dot1_256.kern_rows in \<open>subst ec_encode_data_avx2_gfni.simps; simp\<close>)+
qed

lemma ec_encode_data_avx512_gfni_rows:
  assumes "gfni_tbls k rows c g" "bufs_ok len k data (take rows coding) m" "rows \<le> length coding"
  shows "ec_encode_data_avx512_gfni len k rows g data coding m =
    write_rows len (take rows coding) (\<lambda>r. dot k (c r) data m) m"
  using assms
proof (induction len k rows g data coding m arbitrary: c rule: ec_encode_data_avx512_gfni.induct)
  case (1 len k rows g data coding m)
  consider "6 \<le> rows" | "rows = 5" | "rows = 4" | "rows = 3" | "rows = 2" | "rows = 1" | "rows = 0"
    by arith
  then show ?case
  proof cases
    case 1
    then obtain n where n: "rows = 6 + n" using le_Suc_ex by blast
    note peel = dot6_512.peel [OF "1.prems" [unfolded n]]
    show ?thesis
      using "1.IH" [where c = "\<lambda>r. c (6 + r)"] peel "1.prems"(3)
      by (subst ec_encode_data_avx512_gfni.simps) (simp add: n)
  qed (use "1.prems" dot5_512.kern_rows dot4_512.kern_rows dot3_512.kern_rows dot2_512.kern_rows dot1_512.kern_rows
      in \<open>subst ec_encode_data_avx512_gfni.simps; simp\<close>)+
qed

lemma ec_encode_data_update_avx2_gfni_rows:
  assumes "gfni_tbls k rows c g" "vec_i < k" "bufs_ok len 1 [data] (take rows coding) m" "rows \<le> length coding"
  shows "ec_encode_data_update_avx2_gfni len k rows vec_i g data coding m =
    write_rows len (take rows coding) (mad (\<lambda>r. c r vec_i) data coding m) m"
  using assms
proof (induction len k rows vec_i g data coding m arbitrary: c rule: ec_encode_data_update_avx2_gfni.induct)
  case (1 len k rows vec_i g data coding m)
  consider "2 \<le> rows" | "rows = 1" | "rows = 0"
    by arith
  then show ?case
  proof cases
    case 1
    then obtain n where n: "rows = 2 + n" using le_Suc_ex by blast
    note peel = mad2_256.peel [OF "1.prems" [unfolded n]]
    show ?thesis
      using "1.IH" [where c = "\<lambda>r. c (2 + r)"] peel "1.prems"(2,4)
      by (subst ec_encode_data_update_avx2_gfni.simps) (simp add: n)
  qed (use "1.prems" mad1_256.kern_rows in \<open>subst ec_encode_data_update_avx2_gfni.simps; simp\<close>)+
qed

lemma ec_encode_data_update_avx512_gfni_rows:
  assumes "gfni_tbls k rows c g" "vec_i < k" "bufs_ok len 1 [data] (take rows coding) m" "rows \<le> length coding"
  shows "ec_encode_data_update_avx512_gfni len k rows vec_i g data coding m =
    write_rows len (take rows coding) (mad (\<lambda>r. c r vec_i) data coding m) m"
  using assms
proof (induction len k rows vec_i g data coding m arbitrary: c rule: ec_encode_data_update_avx512_gfni.induct)
  case (1 len k rows vec_i g data coding m)
  consider "2 \<le> rows" | "rows = 1" | "rows = 0"
    by arith
  then show ?case
  proof cases
    case 1
    then obtain n where n: "rows = 2 + n" using le_Suc_ex by blast
    note peel = mad2_512.peel [OF "1.prems" [unfolded n]]
    show ?thesis
      using "1.IH" [where c = "\<lambda>r. c (2 + r)"] peel "1.prems"(2,4)
      by (subst ec_encode_data_update_avx512_gfni.simps) (simp add: n)
  qed (use "1.prems" mad1_256.kern_rows in \<open>subst ec_encode_data_update_avx512_gfni.simps; simp\<close>)+
qed

section \<open>Tables of a coefficient matrix\<close>

lemma gfni_tbls_init:
  assumes "rows * k \<le> length a"
  shows "gfni_tbls k rows (\<lambda>r j. a ! (r * k + j)) (ec_init_tables_gfni k rows a)"
  unfolding gfni_tbls_def ec_init_tables_gfni_def ec_init_tables_eq [OF assms]
proof (intro allI impI)
  fix r j
  assume "r < rows" "j < k"
  then have i: "r * k + j < rows * k" by (rule table_index_less)
  have "32 * (r * k + j) + 32 \<le> 32 * (rows * k)" using i by simp
  moreover have "length (concat (map gf_vect_mul_init_gfni (take (rows * k) a))) = 32 * (rows * k)"
    using assms by (simp add: length_concat comp_def sum_list_triv)
  ultimately show "get (concat (map gf_vect_mul_init_gfni (take (rows * k) a))) (32 * (r * k + j)) 32 =
      gf_vect_mul_init_gfni (a ! (r * k + j))"
    using nth_concat_tables [of gf_vect_mul_init_gfni "r * k + j" "take (rows * k) a"] i assms
    by (intro nth_equalityI) (simp_all add: mult.commute)
qed

text \<open>The dot products of the rows of a matrix are the same whichever tables hold it.\<close>

lemma ec_encode_data_base_matrix:
  assumes "bufs_ok len k data (take rows coding) m" "rows \<le> length coding" "0 < k" "rows * k \<le> length a"
  shows "ec_encode_data_base len k rows (ec_init_tables_base k rows a) data coding m =
    write_rows len (take rows coding) (\<lambda>r. dot k (\<lambda>j. a ! (r * k + j)) data m) m"
  unfolding ec_encode_data_base_correct [OF assms(1-3)]
  using assms(2,4) by (intro write_rows_cong) (simp add: dot_def coef_ec_init_tables_base cong: xsum_cong)

lemma ec_encode_data_update_base_matrix:
  assumes "bufs_ok len 1 [data] (take rows coding) m" "rows \<le> length coding" "vec_i < k" "rows * k \<le> length a"
  shows "ec_encode_data_update_base len k rows vec_i (ec_init_tables_base k rows a) data coding m =
    write_rows len (take rows coding) (mad (\<lambda>r. a ! (r * k + vec_i)) data coding m) m"
  unfolding ec_encode_data_update_base_correct [OF assms(1-2)]
  using assms(2-4) by (intro write_rows_cong) (simp add: mad_def coef_ec_init_tables_base)

end
