(* ===== verification/ISAL_Raid6.thy ===== *)
theory ISAL_Raid6
  imports ISAL_Glue Raid6_System
begin

text \<open>
  The module \<^verbatim>\<open>isa-l/raid6_isal.c\<close>, which replaces the RAID-6 routines of the kernel by GFNI ones: the
  syndrome (P and Q as two rows of a dot product), the incremental syndrome, and the recovery by
  inverting the matrix of the surviving disks, with its per-CPU cache of decode tables. A call of
  \<^verbatim>\<open>kmalloc\<close> may fail; the argument \<open>alloc\<close> says at which places it succeeds.
\<close>

section \<open>Syndromes\<close>

datatype alloc_site = Tbls | Enc | Inv | Finish_Tbls | Buf

function alpha_pow_loop :: "nat \<Rightarrow> u8 \<Rightarrow> u8" where
  "alpha_pow_loop e r = (if e = 0 then r else alpha_pow_loop (e - 1) (gf_mul r 2))"
  by pat_completeness auto
termination
  by (relation "measure fst") auto

declare alpha_pow_loop.simps [simp del]

definition alpha_pow :: "nat \<Rightarrow> u8" where
  "alpha_pow e = alpha_pow_loop e 1"

definition syndrome_coefs :: "nat \<Rightarrow> u8 list" where
  "syndrome_coefs k = for_up 0 k (\<lambda>d coefs. coefs[d := 1, k + d := alpha_pow d]) (replicate (2 * 32) 0)"

text \<open>
  The cast \<^verbatim>\<open>(int)bytes\<close>, for a callee that returns at once when its length is not positive: a negative
  length is written \<open>0\<close>.
\<close>

definition int_len :: "nat \<Rightarrow> nat" where
  "int_len bytes = nat (sint (word_of_nat bytes :: 32 word))"

lemma int_len_eq: "bytes < 2 ^ 31 \<Longrightarrow> int_len bytes = bytes"
  by (simp add: int_len_def sint_uint uint_nat unat_of_nat signed_take_bit_int_eq_self)

definition isal_gen_syndrome :: "bool \<Rightarrow> (alloc_site \<Rightarrow> bool) \<Rightarrow> nat \<Rightarrow> nat \<Rightarrow> addr list \<Rightarrow> mem \<Rightarrow> mem" where
  "isal_gen_syndrome use_avx512 alloc disks bytes ptrs m =
     (let k = disks - 2
      in if k = 0 \<or> k > 32 then m
         else if \<not> alloc Tbls then m
         else let coefs = syndrome_coefs k;
                  tbls = ec_init_tables_gfni k 2 coefs;
                  dests = [ptrs ! k, ptrs ! (k + 1)]
              in if use_avx512 then gf_2vect_dot_prod_avx512_gfni (int_len bytes) k tbls ptrs dests m
                 else gf_2vect_dot_prod_avx2_gfni (int_len bytes) k tbls ptrs dests m)"

definition isal_xor_syndrome ::
    "bool \<Rightarrow> (alloc_site \<Rightarrow> bool) \<Rightarrow> nat \<Rightarrow> nat \<Rightarrow> nat \<Rightarrow> nat \<Rightarrow> addr list \<Rightarrow> mem \<Rightarrow> mem" where
  "isal_xor_syndrome use_avx512 alloc disks start stop bytes ptrs m =
     (let k = disks - 2
      in if k = 0 \<or> k > 32 \<or> stop \<ge> k \<or> start > stop then m
         else if \<not> alloc Tbls then m
         else let coefs = syndrome_coefs k;
                  tbls = ec_init_tables_gfni k 2 coefs;
                  dests = [ptrs ! k, ptrs ! (k + 1)]
              in for_up start (Suc stop) (\<lambda>z m.
                   if use_avx512 then gf_2vect_mad_avx512_gfni (int_len bytes) k z tbls (ptrs ! z) dests m
                   else gf_2vect_mad_avx2_gfni (int_len bytes) k z tbls (ptrs ! z) dests m) m)"

lemma alpha_pow_loop_eq: "alpha_pow_loop e (gexp i) = gexp (i + e)"
proof (induction e arbitrary: i)
  case (Suc e)
  have "gf_mul (gexp i) 2 = gexp (Suc i)" by (simp add: gfmul_2_right)
  with Suc [of "Suc i"] show ?case by (subst alpha_pow_loop.simps) simp
qed (simp add: alpha_pow_loop.simps)

lemma alpha_pow_eq [simp]: "alpha_pow e = gexp e"
  using alpha_pow_loop_eq [of e 0] by (simp add: alpha_pow_def)

lemma syndrome_coefs:
  assumes "k \<le> 32"
  shows "length (syndrome_coefs k) = 64" "j < k \<Longrightarrow> syndrome_coefs k ! j = 1" "j < k \<Longrightarrow> syndrome_coefs k ! (k + j) = gexp j"
proof -
  have "length (syndrome_coefs k) = 64 \<and> (\<forall>j<k. syndrome_coefs k ! j = 1 \<and> syndrome_coefs k ! (k + j) = gexp j)"
    unfolding syndrome_coefs_def
  proof (rule for_up_invariant [where I = "\<lambda>d cs. length cs = 64 \<and> (\<forall>j<d. cs ! j = 1 \<and> cs ! (k + j) = gexp j)"])
    show "length (cs[d := 1, k + d := alpha_pow d]) = 64 \<and>
        (\<forall>j<Suc d. cs[d := 1, k + d := alpha_pow d] ! j = 1 \<and> cs[d := 1, k + d := alpha_pow d] ! (k + j) = gexp j)"
      if "0 \<le> d" "d < k" "length cs = 64 \<and> (\<forall>j<d. cs ! j = 1 \<and> cs ! (k + j) = gexp j)" for d cs
      using that assms by (auto simp: nth_list_update less_Suc_eq)
  qed auto
  then show "length (syndrome_coefs k) = 64" "j < k \<Longrightarrow> syndrome_coefs k ! j = 1"
    "j < k \<Longrightarrow> syndrome_coefs k ! (k + j) = gexp j" by auto
qed

text \<open>The P and Q rows as coefficients.\<close>

definition pq_coef :: "nat \<Rightarrow> nat \<Rightarrow> u8" where
  "pq_coef r j = (if r = 0 then 1 else gexp j)"

lemma syndrome_tbls: "k \<le> 32 \<Longrightarrow> gfni_tbls k 2 pq_coef (ec_init_tables_gfni k 2 (syndrome_coefs k))"
  using gfni_tbls_init [of 2 k "syndrome_coefs k"] syndrome_coefs [of k]
  by (auto simp: gfni_tbls_def pq_coef_def less_2_cases_iff)

lemma stripe_bufs_ok:
  assumes "stripe_ok disks bytes ptrs m" "k = disks - 2"
  shows "bufs_ok bytes k ptrs [ptrs ! k, ptrs ! (k + 1)] m"
proof -
  have k: "disks - 1 = k + 1" "k + 1 < length ptrs" "length ptrs = disks"
    using assms(2) stripe_ok_disks [OF assms(1)] by auto
  have len: "bytes \<le> length (m (ptrs ! k))" "bytes \<le> length (m (ptrs ! (k + 1)))"
    using stripe_ok_length [OF assms(1)] k by auto
  show ?thesis
    using assms k len by (auto simp: bufs_ok_def stripe_ok_def in_set_conv_nth dest: in_set_takeD)
qed

lemma dot_pq: "dot k (pq_coef 0) ptrs m = pbyte 0 k ptrs m" "dot k (pq_coef (Suc 0)) ptrs m = qbyte 0 k ptrs m"
  by (simp_all add: fun_eq_iff dot_def pq_coef_def pbyte_def qbyte_def)

lemma write_rows_two:
  assumes "bytes \<le> length (m p)" "bytes \<le> length (m q)" "p \<noteq> q"
  shows "write_rows bytes [p, q] f m =
    m(p := put (m p) 0 (map (f 0) [0..<bytes]), q := put (m q) 0 (map (f 1) [0..<bytes]))"
  using assms by (simp add: write_row_def)

lemma isal_gen_syndrome_correct:
  assumes "stripe_ok disks bytes ptrs m" "disks \<le> 34" "alloc Tbls"
  shows "isal_gen_syndrome use_avx512 alloc disks bytes ptrs m = gen_syndrome_spec disks bytes ptrs m"
proof -
  define k where "k = disks - 2"
  have k: "0 < k" "k \<le> 32" "disks - 1 = k + 1" "k + 1 < length ptrs"
    using assms(2) stripe_ok_disks [OF assms(1)] by (auto simp: k_def)
  have ds: "take 2 [ptrs ! k, ptrs ! (k + 1)] = [ptrs ! k, ptrs ! (k + 1)]" by simp
  note ok = stripe_bufs_ok [OF assms(1) k_def]
  have "isal_gen_syndrome use_avx512 alloc disks bytes ptrs m =
      write_rows bytes [ptrs ! k, ptrs ! (k + 1)] (\<lambda>r. dot k (pq_coef r) ptrs m) m"
    using k assms(3) dot2_512.kern_rows [OF syndrome_tbls [OF k(2)], of bytes ptrs "[ptrs ! k, ptrs ! (k + 1)]" m]
      dot2_256.kern_rows [OF syndrome_tbls [OF k(2)], of bytes ptrs "[ptrs ! k, ptrs ! (k + 1)]" m] ok
    by (simp only: isal_gen_syndrome_def Let_def k_def [symmetric] ds int_len_eq [OF stripe_ok_bytes [OF assms(1)]]) simp
  also have "\<dots> = gen_syndrome_spec disks bytes ptrs m"
    using bufs_okD(2,4) [OF ok] k
    by (subst write_rows_two)
      (simp_all add: gen_syndrome_spec_def Let_def k_def [symmetric] dot_pq)
  finally show ?thesis .
qed

lemma put_same_length: "length ys = length zs \<Longrightarrow> length ys \<le> length xs \<Longrightarrow> put (put xs 0 ys) 0 zs = put xs 0 zs"
  by (simp add: put_def)

lemma put_self: "n \<le> length xs \<Longrightarrow> put xs 0 (map ((!) xs) [0..<n]) = xs"
  by (auto simp: list_eq_iff_nth_eq nth_put)

lemma isal_xor_syndrome_correct:
  assumes ok: "stripe_ok disks bytes ptrs m" and "disks \<le> 34" "alloc Tbls" "start \<le> stop" "stop < disks - 2"
  shows "isal_xor_syndrome use_avx512 alloc disks start stop bytes ptrs m =
    xor_syndrome_spec disks start stop bytes ptrs m"
proof -
  define k where "k = disks - 2"
  define p q where "p = ptrs ! k" and "q = ptrs ! Suc k"
  have k: "0 < k" "k \<le> 32" "disks - 1 = k + 1" "k + 1 < length ptrs"
    using assms(2) stripe_ok_disks [OF ok] by (auto simp: k_def)
  have pq: "p \<noteq> q" "bytes \<le> length (m p)" "bytes \<le> length (m q)" "z < k \<Longrightarrow> ptrs ! z \<noteq> p" "z < k \<Longrightarrow> ptrs ! z \<noteq> q"
    "z < k \<Longrightarrow> bytes \<le> length (m (ptrs ! z))" for z
    using bufs_okD [OF stripe_bufs_ok [OF ok k_def]] by (auto simp: p_def q_def)
  let ?tbls = "ec_init_tables_gfni k 2 (syndrome_coefs k)"
  define M where "M z = m(p := put (m p) 0 (map (\<lambda>i. m p ! i XOR pbyte start z ptrs m i) [0..<bytes]),
    q := put (m q) 0 (map (\<lambda>i. m q ! i XOR qbyte start z ptrs m i) [0..<bytes]))" for z
  have step: "write_rows bytes [p, q] (mad (\<lambda>r. pq_coef r z) (ptrs ! z) [p, q] (M z)) (M z) = M (Suc z)"
    if "start \<le> z" "z < k" for z
  proof -
    have "pbyte start (Suc z) ptrs m i = pbyte start z ptrs m i XOR m (ptrs ! z) ! i"
      "qbyte start (Suc z) ptrs m i = qbyte start z ptrs m i XOR gfmul (gexp z) (m (ptrs ! z) ! i)" for i
      using that by (simp_all add: pbyte_def qbyte_def xsum_range_def)
    then show ?thesis
      using pq that by (subst write_rows_two) (auto simp: M_def mad_def pq_coef_def fun_eq_iff put_same_length nth_put ac_simps intro!: arg_cong [where f = "put _ 0"])
  qed
  have kern: "gf_2vect_mad_avx512_gfni bytes k z ?tbls (ptrs ! z) [p, q] (M z) = M (Suc z)"
    "gf_2vect_mad_avx2_gfni bytes k z ?tbls (ptrs ! z) [p, q] (M z) = M (Suc z)" if "start \<le> z" "z < k" for z
  proof -
    have b: "bufs_ok bytes 1 [ptrs ! z] (take 2 [p, q]) (M z)"
      using pq that by (auto simp: bufs_ok_def M_def)
    show "gf_2vect_mad_avx512_gfni bytes k z ?tbls (ptrs ! z) [p, q] (M z) = M (Suc z)"
      "gf_2vect_mad_avx2_gfni bytes k z ?tbls (ptrs ! z) [p, q] (M z) = M (Suc z)"
      using mad2_512.kern_rows [OF syndrome_tbls [OF k(2)] that(2) b] mad2_256.kern_rows [OF syndrome_tbls [OF k(2)] that(2) b]
        step [OF that] by simp_all
  qed
  have "for_up start (Suc stop) (\<lambda>z m. if use_avx512 then gf_2vect_mad_avx512_gfni bytes k z ?tbls (ptrs ! z) [p, q] m
      else gf_2vect_mad_avx2_gfni bytes k z ?tbls (ptrs ! z) [p, q] m) m = M (Suc stop)"
  proof (rule for_up_invariant [where I = "\<lambda>z m'. m' = M z"])
    show "m = M start" using pq by (simp add: M_def pbyte_def qbyte_def put_self)
  qed (use assms kern k_def in auto)
  then show ?thesis
    using k assms(3-5) unfolding isal_xor_syndrome_def int_len_eq [OF stripe_ok_bytes [OF assms(1)]]
    by (simp add: Let_def k_def [symmetric] p_def [symmetric] q_def [symmetric]
        xor_syndrome_spec_def M_def)
qed

text \<open>Beyond 32 data disks, or without memory for the tables, nothing is written.\<close>

lemma isal_gen_syndrome_none:
  "34 < disks \<or> \<not> alloc Tbls \<Longrightarrow> isal_gen_syndrome use_avx512 alloc disks bytes ptrs m = m"
  by (auto simp: isal_gen_syndrome_def Let_def)

end
