(* ===== verification/ISAL_Recov.thy ===== *)
theory ISAL_Recov
  imports ISAL_Raid6
begin

text \<open>
  Recovery in \<^verbatim>\<open>isa-l/raid6_isal.c\<close>. The survivors (data disks, then P when it is alive, then Q) are the rows
  of a matrix over the original data; its inverse turns the two lost pages into dot products of
  the survivors. The tables of the last failure pattern are kept per CPU. The theory shows that
  the survivor matrix is invertible, that a valid cache entry always holds tables for the pattern
  it names, and that both recovery routines restore the lost pages.
\<close>

section \<open>The code\<close>

datatype recov_mode = ISAL_RECOV_2DATA | ISAL_RECOV_DATAP

definition ISAL_RECOV_MAX_K :: nat where
  "ISAL_RECOV_MAX_K = 64"

definition ISAL_CACHE_MAX_K :: nat where
  "ISAL_CACHE_MAX_K = 32"

record isal_cpu_cache =
  cc_valid :: bool
  cc_mode :: recov_mode
  cc_k :: nat
  cc_faila :: nat
  cc_failb :: int
  cc_tbls :: "u8 list"
  cc_enc :: "u8 list"
  cc_inv :: "u8 list"

definition lost_slot :: "recov_mode \<Rightarrow> nat \<Rightarrow> int \<Rightarrow> nat \<Rightarrow> bool" where
  "lost_slot mode faila failb j \<longleftrightarrow> j = faila \<or> (mode = ISAL_RECOV_2DATA \<and> int j = failb)"

definition isal_build_srcs :: "recov_mode \<Rightarrow> nat \<Rightarrow> nat \<Rightarrow> int \<Rightarrow> addr list \<Rightarrow> addr list" where
  "isal_build_srcs mode k faila failb ptrs =
     (let srcs = for_up 0 k (\<lambda>j srcs. if lost_slot mode faila failb j then srcs else srcs @ [ptrs ! j]) [];
          srcs = (if mode = ISAL_RECOV_2DATA then srcs @ [ptrs ! k] else srcs);
          srcs = srcs @ [ptrs ! (k + 1)]
      in srcs)"

definition survivor_matrix :: "recov_mode \<Rightarrow> nat \<Rightarrow> nat \<Rightarrow> int \<Rightarrow> u8 list \<Rightarrow> u8 list" where
  "survivor_matrix mode k faila failb enc =
     (let (enc, r) = for_up 0 k (\<lambda>j (enc, r).
            if lost_slot mode faila failb j then (enc, r)
            else let enc = put enc (r * k) (replicate k 0);
                     enc = enc[r * k + j := 1]
                 in (enc, r + 1)) (enc, 0);
          (enc, r) = (if mode = ISAL_RECOV_2DATA then
              (for_up 0 k (\<lambda>j enc. enc[r * k + j := 1]) enc, r + 1)
            else (enc, r));
          enc = for_up 0 k (\<lambda>j enc. enc[r * k + j := alpha_pow j]) enc
      in enc)"

definition decode_rows :: "nat \<Rightarrow> u8 list \<Rightarrow> u8 list \<Rightarrow> u8 list \<Rightarrow> u8 list \<Rightarrow> u8 list" where
  "decode_rows k out0 out1 inv_mat dec = for_up 0 k (\<lambda>i dec.
     let (a, b) = for_up 0 k (\<lambda>j (a, b).
           (a XOR gf_mul (out0 ! j) (inv_mat ! (j * k + i)), b XOR gf_mul (out1 ! j) (inv_mat ! (j * k + i)))) (0, 0)
     in dec[i := a, k + i := b]) dec"

text \<open>
  \<open>enc\<close>, \<open>inv_mat\<close> and \<open>tbls\<close> are the caller's arrays, of which the routine uses a prefix. It returns
  them with the return code.
\<close>

definition isal_build_tbls ::
    "recov_mode \<Rightarrow> nat \<Rightarrow> nat \<Rightarrow> int \<Rightarrow> u8 list \<Rightarrow> u8 list \<Rightarrow> u8 list \<Rightarrow> int \<times> u8 list \<times> u8 list \<times> u8 list" where
  "isal_build_tbls mode k faila failb enc inv_mat tbls =
     (let enc = survivor_matrix mode k faila failb enc;
          (ret, enc_k, inv_k) = gf_invert_matrix (take (k * k) enc) (take (k * k) inv_mat) k;
          enc = put enc 0 enc_k; inv_mat = put inv_mat 0 inv_k
      in if ret < 0 then (-1, enc, inv_mat, tbls)
         else let out0 = (replicate k 0)[faila := 1];
                  out1 = (if mode = ISAL_RECOV_2DATA then (replicate k 0)[nat failb := 1]
                          else for_up 0 k (\<lambda>j out1. out1[j := 1]) (replicate k 0));
                  dec = decode_rows k out0 out1 inv_mat (replicate (2 * ISAL_CACHE_MAX_K) 0)
              in (0, enc, inv_mat, put tbls 0 (ec_init_tables_gfni k 2 dec)))"

definition dot2 :: "bool \<Rightarrow> nat \<Rightarrow> nat \<Rightarrow> u8 list \<Rightarrow> addr list \<Rightarrow> addr list \<Rightarrow> mem \<Rightarrow> mem" where
  "dot2 use_avx512 bytes k tbls srcs dests m =
     (if use_avx512 then gf_2vect_dot_prod_avx512_gfni (int_len bytes) k tbls srcs dests m
      else gf_2vect_dot_prod_avx2_gfni (int_len bytes) k tbls srcs dests m)"

definition isal_recov_cached ::
    "bool \<Rightarrow> recov_mode \<Rightarrow> nat \<Rightarrow> nat \<Rightarrow> int \<Rightarrow> nat \<Rightarrow> addr list \<Rightarrow> addr \<Rightarrow> addr \<Rightarrow> isal_cpu_cache \<Rightarrow> mem \<Rightarrow>
     bool \<times> isal_cpu_cache \<times> mem" where
  "isal_recov_cached use_avx512 mode k faila failb bytes ptrs d0 d1 cc m =
     (if k > ISAL_CACHE_MAX_K then (False, cc, m)
      else let srcs = isal_build_srcs mode k faila failb ptrs;
               (ok, cc) =
                 (if \<not> cc_valid cc \<or> cc_mode cc \<noteq> mode \<or> cc_k cc \<noteq> k \<or> cc_faila cc \<noteq> faila \<or> cc_failb cc \<noteq> failb then
                    let (ret, enc, inv_mat, tbls) = isal_build_tbls mode k faila failb (cc_enc cc) (cc_inv cc) (cc_tbls cc);
                        cc = cc\<lparr>cc_enc := enc, cc_inv := inv_mat, cc_tbls := tbls\<rparr>
                    in if ret < 0 then (False, cc\<lparr>cc_valid := False\<rparr>)
                       else (True, cc\<lparr>cc_mode := mode, cc_k := k, cc_faila := faila, cc_failb := failb, cc_valid := True\<rparr>)
                  else (True, cc))
           in if \<not> ok then (False, cc, m)
              else (True, cc, dot2 use_avx512 bytes k (cc_tbls cc) srcs [d0, d1] m))"

definition isal_recov_finish ::
    "bool \<Rightarrow> (alloc_site \<Rightarrow> bool) \<Rightarrow> nat \<Rightarrow> nat \<Rightarrow> addr list \<Rightarrow> u8 list \<Rightarrow> u8 list \<Rightarrow> u8 list \<Rightarrow> addr \<Rightarrow> addr \<Rightarrow> mem \<Rightarrow>
     (errno + unit) \<times> mem" where
  "isal_recov_finish use_avx512 alloc k bytes srcs enc out0 out1 d0 d1 m =
     (if \<not> alloc Inv \<or> \<not> alloc Finish_Tbls then (Inl ENOMEM, m)
      else let (ret, enc, inv_mat) = gf_invert_matrix enc (replicate (k * k) 0) k
           in if ret < 0 then (Inl EINVAL, m)
              else let dec = decode_rows k out0 out1 inv_mat (replicate (2 * ISAL_RECOV_MAX_K) 0);
                       tbls = ec_init_tables_gfni k 2 dec
                   in (Inr (), dot2 use_avx512 bytes k tbls srcs [d0, d1] m))"

text \<open>The survivors of two lost data disks: sources and matrix in one pass.\<close>

definition data2_survivors :: "nat \<Rightarrow> nat \<Rightarrow> nat \<Rightarrow> addr list \<Rightarrow> u8 list \<Rightarrow> addr list \<times> u8 list" where
  "data2_survivors k faila failb ptrs enc =
     (let (srcs, enc, r) = for_up 0 k (\<lambda>j (srcs, enc, r).
            if j = faila \<or> j = failb then (srcs, enc, r)
            else let srcs = srcs @ [ptrs ! j];
                     enc = put enc (r * k) (replicate k 0);
                     enc = enc[r * k + j := 1]
                 in (srcs, enc, r + 1)) ([], enc, 0);
          srcs = srcs @ [ptrs ! k];
          enc = for_up 0 k (\<lambda>j enc. enc[r * k + j := 1]) enc;
          r = r + 1;
          srcs = srcs @ [ptrs ! (k + 1)];
          enc = for_up 0 k (\<lambda>j enc. enc[r * k + j := alpha_pow j]) enc
      in (srcs, enc))"

definition datap_survivors :: "nat \<Rightarrow> nat \<Rightarrow> addr list \<Rightarrow> u8 list \<Rightarrow> addr list \<times> u8 list" where
  "datap_survivors k faila ptrs enc =
     (let (srcs, enc, r) = for_up 0 k (\<lambda>j (srcs, enc, r).
            if j = faila then (srcs, enc, r)
            else let srcs = srcs @ [ptrs ! j];
                     enc = put enc (r * k) (replicate k 0);
                     enc = enc[r * k + j := 1]
                 in (srcs, enc, r + 1)) ([], enc, 0);
          srcs = srcs @ [ptrs ! (k + 1)];
          enc = for_up 0 k (\<lambda>j enc. enc[r * k + j := alpha_pow j]) enc
      in (srcs, enc))"

text \<open>\<open>saved\<close> is the in-tree routine that was installed before the module.\<close>

definition isal_2data_recov ::
    "bool \<Rightarrow> (alloc_site \<Rightarrow> bool) \<Rightarrow> (nat \<Rightarrow> nat \<Rightarrow> nat \<Rightarrow> nat \<Rightarrow> addr list \<Rightarrow> mem \<Rightarrow> (addr list \<times> mem) option) \<Rightarrow>
     nat \<Rightarrow> nat \<Rightarrow> nat \<Rightarrow> nat \<Rightarrow> addr list \<Rightarrow> isal_cpu_cache \<Rightarrow> mem \<Rightarrow> isal_cpu_cache \<times> (addr list \<times> mem) option" where
  "isal_2data_recov use_avx512 alloc saved disks bytes faila failb ptrs cc m =
     (let k = disks - 2
      in if k < 2 then (cc, saved disks bytes faila failb ptrs m)
         else let (hit, cc, m) = isal_recov_cached use_avx512 ISAL_RECOV_2DATA k faila (int failb) bytes ptrs
                    (ptrs ! faila) (ptrs ! failb) cc m
              in if hit then (cc, Some (ptrs, m))
                 else if k > ISAL_RECOV_MAX_K \<or> \<not> alloc Enc then (cc, saved disks bytes faila failb ptrs m)
                 else let (srcs, enc) = data2_survivors k faila failb ptrs (replicate (k * k) 0);
                          out0 = (replicate k 0)[faila := 1];
                          out1 = (replicate k 0)[failb := 1];
                          (r, m) = isal_recov_finish use_avx512 alloc k bytes srcs enc out0 out1
                            (ptrs ! faila) (ptrs ! failb) m
                      in case r of Inr _ \<Rightarrow> (cc, Some (ptrs, m))
                         | Inl _ \<Rightarrow> (cc, saved disks bytes faila failb ptrs m))"

definition isal_datap_recov ::
    "bool \<Rightarrow> (alloc_site \<Rightarrow> bool) \<Rightarrow> (nat \<Rightarrow> nat \<Rightarrow> nat \<Rightarrow> addr list \<Rightarrow> mem \<Rightarrow> (addr list \<times> mem) option) \<Rightarrow>
     nat \<Rightarrow> nat \<Rightarrow> nat \<Rightarrow> addr list \<Rightarrow> isal_cpu_cache \<Rightarrow> mem \<Rightarrow> isal_cpu_cache \<times> (addr list \<times> mem) option" where
  "isal_datap_recov use_avx512 alloc saved disks bytes faila ptrs cc m =
     (let k = disks - 2
      in if k < 1 then (cc, saved disks bytes faila ptrs m)
         else let (hit, cc, m) = isal_recov_cached use_avx512 ISAL_RECOV_DATAP k faila (-1) bytes ptrs
                    (ptrs ! faila) (ptrs ! k) cc m
              in if hit then (cc, Some (ptrs, m))
                 else if k > ISAL_RECOV_MAX_K \<or> \<not> alloc Enc then (cc, saved disks bytes faila ptrs m)
                 else let (srcs, enc) = datap_survivors k faila ptrs (replicate (k * k) 0);
                          out0 = (replicate k 0)[faila := 1];
                          out1 = for_up 0 k (\<lambda>j out1. out1[j := 1]) (replicate k 0);
                          (r, m) = isal_recov_finish use_avx512 alloc k bytes srcs enc out0 out1
                            (ptrs ! faila) (ptrs ! k) m
                      in case r of Inr _ \<Rightarrow> (cc, Some (ptrs, m))
                         | Inl _ \<Rightarrow> (cc, saved disks bytes faila ptrs m))"

section \<open>The survivor matrix\<close>

definition pattern :: "recov_mode \<Rightarrow> nat \<Rightarrow> nat \<Rightarrow> int \<Rightarrow> bool" where
  "pattern mode k faila failb \<longleftrightarrow> faila < k \<and> (mode = ISAL_RECOV_2DATA \<longrightarrow> (\<exists>b<k. failb = int b \<and> b \<noteq> faila))"

definition survivors :: "recov_mode \<Rightarrow> nat \<Rightarrow> nat \<Rightarrow> int \<Rightarrow> nat list" where
  "survivors mode k faila failb = filter (\<lambda>j. \<not> lost_slot mode faila failb j) [0..<k]"

definition survivor_row :: "recov_mode \<Rightarrow> nat \<Rightarrow> nat \<Rightarrow> int \<Rightarrow> nat \<Rightarrow> nat \<Rightarrow> u8" where
  "survivor_row mode k faila failb i c =
     (if i < length (survivors mode k faila failb) then idm (survivors mode k faila failb ! i) c
      else if mode = ISAL_RECOV_2DATA \<and> i = length (survivors mode k faila failb) then 1 else gexp c)"

definition flat :: "nat \<Rightarrow> nat \<Rightarrow> (nat \<Rightarrow> nat \<Rightarrow> u8) \<Rightarrow> u8 list" where
  "flat n k A = concat (map (\<lambda>i. map (A i) [0..<k]) [0..<n])"

lemma length_flat [simp]: "length (flat n k A) = n * k"
  by (simp add: flat_def length_concat comp_def sum_list_triv)

lemma flat_Suc: "flat (Suc n) k A = flat n k A @ map (A n) [0..<k]"
  by (simp add: flat_def)

lemma flat_cong: "(\<And>i c. i < n \<Longrightarrow> c < k \<Longrightarrow> A i c = B i c) \<Longrightarrow> flat n k A = flat n k B"
  unfolding flat_def by (intro arg_cong [where f = concat] map_cong) auto

lemma nth_flat: "i < n \<Longrightarrow> c < k \<Longrightarrow> flat n k A ! (i * k + c) = A i c"
proof (induction n)
  case (Suc n)
  show ?case
  proof (cases "i < n")
    case True
    then have "i * k + c < n * k" using Suc.prems by (intro flat_less)
    with True Suc show ?thesis by (simp add: flat_Suc nth_append)
  next
    case False
    with Suc.prems show ?thesis by (simp add: flat_Suc nth_append less_Suc_eq)
  qed
qed simp

lemma fill_row:
  assumes "p + k \<le> length enc"
  shows "for_up 0 k (\<lambda>j enc. enc[p + j := f j]) enc = put enc p (map f [0..<k])"
proof (rule for_up_invariant [where I = "\<lambda>j e. e = put enc p (map f [0..<j])"])
  show "e[p + j := f j] = put enc p (map f [0..<Suc j])" if "0 \<le> j" "j < k" "e = put enc p (map f [0..<j])" for j e
    using that assms by (intro nth_equalityI) (auto simp: nth_list_update nth_put nth_append)
qed auto

lemma unit_row:
  assumes "p + k \<le> length enc" "j < k"
  shows "(put enc p (replicate k 0))[p + j := 1] = put enc p (map (idm j) [0..<k])"
  using assms by (intro nth_equalityI) (auto simp: nth_list_update nth_put idm_def)

lemma put_flat:
  assumes "Suc r * k \<le> length enc"
  shows "put (put enc 0 (flat r k A)) (r * k) (map (A r) [0..<k]) = put enc 0 (flat (Suc r) k A)"
  using put_put [of 0 "flat r k A" "map (A r) [0..<k]" enc] assms by (simp add: flat_Suc add.commute)

lemma length_survivors:
  assumes "pattern mode k faila failb"
  shows "length (survivors mode k faila failb) + (if mode = ISAL_RECOV_2DATA then 2 else 1) = k"
proof (cases mode)
  case ISAL_RECOV_2DATA
  with assms obtain b where b: "b < k" "failb = int b" "b \<noteq> faila" "faila < k" by (auto simp: pattern_def)
  have "{j. \<not> lost_slot mode faila failb j} \<inter> set [0..<k] = {0..<k} - {faila, b}"
    using ISAL_RECOV_2DATA b by (auto simp: lost_slot_def)
  moreover have "card ({0..<k} - {faila, b}) = k - 2" using b by (subst card_Diff_subset) auto
  ultimately show ?thesis using ISAL_RECOV_2DATA b by (simp add: survivors_def distinct_length_filter)
next
  case ISAL_RECOV_DATAP
  then have "{j. \<not> lost_slot mode faila failb j} \<inter> set [0..<k] = {0..<k} - {faila}"
    by (auto simp: lost_slot_def)
  with ISAL_RECOV_DATAP assms show ?thesis by (simp add: survivors_def distinct_length_filter pattern_def)
qed

lemma survivor_loop:
  assumes "k * k \<le> length enc" "n \<le> k" "length (filter (\<lambda>j. \<not> lost_slot mode faila failb j) [0..<k]) \<le> k"
  defines "S \<equiv> \<lambda>n. filter (\<lambda>j. \<not> lost_slot mode faila failb j) [0..<n]"
  shows "for_up 0 n (\<lambda>j (enc, r). if lost_slot mode faila failb j then (enc, r)
      else let enc = put enc (r * k) (replicate k 0); enc = enc[r * k + j := 1] in (enc, r + 1)) (enc, 0) =
    (put enc 0 (flat (length (S n)) k (\<lambda>i. idm (S n ! i))), length (S n))"
  using assms(2)
proof (induction n)
  case 0
  show ?case by (simp add: S_def flat_def)
next
  case (Suc n)
  show ?case
  proof (cases "lost_slot mode faila failb n")
    case True
    with Suc show ?thesis by (simp add: for_up_Suc S_def)
  next
    case False
    let ?r = "length (S n)"
    have S: "S (Suc n) = S n @ [n]" using False by (simp add: S_def)
    have "?r \<le> n" using length_filter_le [of _ "[0..<n]"] by (simp add: S_def)
    then have len: "Suc ?r * k \<le> length enc" using Suc.prems assms(1) mult_le_mono1 [of "Suc ?r" k k] by linarith
    have "flat ?r k (\<lambda>i. idm (S n ! i)) = flat ?r k (\<lambda>i. idm (S (Suc n) ! i))"
      by (rule flat_cong) (simp add: S nth_append)
    moreover have "(put (put enc 0 (flat ?r k A)) (?r * k) (replicate k 0))[?r * k + n := 1] =
        put (put enc 0 (flat ?r k A)) (?r * k) (map (idm n) [0..<k])" for A
      using len Suc.prems by (intro unit_row) simp_all
    ultimately show ?thesis
      using Suc False put_flat [OF len, of "\<lambda>i. idm (S (Suc n) ! i)"] by (simp add: for_up_Suc S nth_append)
  qed
qed

lemma survivor_matrix_eq:
  assumes "k * k \<le> length enc" "pattern mode k faila failb"
  shows "survivor_matrix mode k faila failb enc = put enc 0 (flat k k (survivor_row mode k faila failb))"
proof -
  let ?S = "survivors mode k faila failb" and ?A = "survivor_row mode k faila failb"
  note n = length_survivors [OF assms(2)]
  have r: "\<And>r. Suc r \<le> k \<Longrightarrow> Suc r * k \<le> length enc" using assms(1) mult_le_mono1 [of _ k k] by (meson order_trans)
  have loop: "for_up 0 k (\<lambda>j (enc, r). if lost_slot mode faila failb j then (enc, r)
      else let enc = put enc (r * k) (replicate k 0); enc = enc[r * k + j := 1] in (enc, r + 1)) (enc, 0) =
    (put enc 0 (flat (length ?S) k ?A), length ?S)"
    using survivor_loop [OF assms(1) order_refl, of mode faila failb] n
      flat_cong [of "length ?S" k "\<lambda>i. idm (?S ! i)" ?A]
    by (auto simp: survivors_def [symmetric] survivor_row_def split: if_splits)
  have row: "for_up 0 k (\<lambda>j e. e[r * k + j := ?A r j]) (put enc 0 (flat r k ?A)) = put enc 0 (flat (Suc r) k ?A)" if "Suc r \<le> k" for r
    using r [OF that] put_flat [OF r [OF that], of ?A] by (subst fill_row) (simp_all add: add.commute)
  show ?thesis
  proof (cases mode)
    case ISAL_RECOV_2DATA
    then have k: "k = Suc (Suc (length ?S))" using n by simp
    have "?A (length ?S) = (\<lambda>j. 1)" "?A (Suc (length ?S)) = gexp"
      using ISAL_RECOV_2DATA by (simp_all add: fun_eq_iff survivor_row_def)
    then show ?thesis
      using row [of "length ?S"] row [of "Suc (length ?S)"] ISAL_RECOV_2DATA k
      unfolding survivor_matrix_def loop
      by simp
  next
    case ISAL_RECOV_DATAP
    then have k: "k = Suc (length ?S)" using n by simp
    have "?A (length ?S) = gexp"
      using ISAL_RECOV_DATAP by (simp add: fun_eq_iff survivor_row_def)
    then show ?thesis
      using row [of "length ?S"] ISAL_RECOV_DATAP k unfolding survivor_matrix_def loop by simp
  qed
qed

lemma survivor_nth:
  assumes "pattern mode k faila failb" "j < k" "\<not> lost_slot mode faila failb j"
  obtains i where "i < length (survivors mode k faila failb)" "survivors mode k faila failb ! i = j" "i < k"
proof -
  have "j \<in> set (survivors mode k faila failb)" using assms by (simp add: survivors_def)
  then obtain i where "i < length (survivors mode k faila failb)" "survivors mode k faila failb ! i = j"
    by (auto simp: in_set_conv_nth)
  with length_survivors [OF assms(1)] show thesis by (intro that) (auto split: if_splits)
qed

lemma survivor_matrix_regular:
  assumes "pattern mode k faila failb" "k \<le> 255"
  shows "\<not> singular k (survivor_row mode k faila failb)"
proof
  let ?A = "survivor_row mode k faila failb" and ?n = "length (survivors mode k faila failb)"
  assume "singular k ?A"
  then obtain v where v: "\<And>r. r < k \<Longrightarrow> xsum k (\<lambda>c. gfmul (?A r c) (v c)) = 0" and nz: "\<exists>c<k. v c \<noteq> 0"
    by (auto simp: singular_def)
  have data: "v j = 0" if j: "j < k" "\<not> lost_slot mode faila failb j" for j
  proof -
    obtain i where i: "i < ?n" "survivors mode k faila failb ! i = j" "i < k" using survivor_nth [OF assms(1) j] .
    have "xsum k (\<lambda>c. gfmul (?A i c) (v c)) = xsum k (\<lambda>c. if j = c then v c else 0)"
      using i by (intro xsum_cong) (auto simp: survivor_row_def idm_def)
    with v [OF i(3)] j show "v j = 0" by simp
  qed
  note n = length_survivors [OF assms(1)]
  have a: "faila < k" using assms(1) by (simp add: pattern_def)
  have "v faila = 0 \<and> (\<forall>b<k. lost_slot mode faila failb b \<longrightarrow> v b = 0)"
  proof (cases mode)
    case ISAL_RECOV_DATAP
    then have other: "v c = 0" if "c < k" "c \<noteq> faila" for c using data that by (simp add: lost_slot_def)
    have "?A ?n = gexp" using ISAL_RECOV_DATAP by (simp add: fun_eq_iff survivor_row_def)
    then have "xsum k (\<lambda>c. gfmul (?A ?n c) (v c)) = xsum k (\<lambda>c. if c = faila then gfmul (gexp c) (v c) else 0)"
      using other by (intro xsum_cong) auto
    then have "gfmul (gexp faila) (v faila) = 0" using v [of ?n] n ISAL_RECOV_DATAP a by simp
    then have "v faila = 0" using gf.mul_cancel [OF gexp_neq_0, of faila "v faila"] by simp
    with ISAL_RECOV_DATAP show ?thesis by (simp add: lost_slot_def)
  next
    case ISAL_RECOV_2DATA
    then obtain b where b: "b < k" "failb = int b" "b \<noteq> faila" using assms(1) by (auto simp: pattern_def)
    have other: "v c = 0" if "c < k" "c \<noteq> faila" "c \<noteq> b" for c
      using data that b ISAL_RECOV_2DATA by (simp add: lost_slot_def)
    have two: "xsum k (\<lambda>c. gfmul (f c) (v c)) = gfmul (f faila) (v faila) XOR gfmul (f b) (v b)" for f
    proof -
      have "xsum k ((\<lambda>c. gfmul (f c) (v c))(faila := 0, b := 0)) = 0"
        using other by (intro xsum_zero_all) auto
      then show ?thesis using xsum_two [OF a b(1), of "\<lambda>c. gfmul (f c) (v c)"] b(3) by simp
    qed
    have rows: "?A ?n = (\<lambda>c. 1)" "?A (Suc ?n) = gexp"
      using ISAL_RECOV_2DATA by (simp_all add: fun_eq_iff survivor_row_def)
    have "v faila XOR v b = 0" using v [of ?n] two [of "\<lambda>c. 1"] n ISAL_RECOV_2DATA rows by simp
    moreover have "gfmul (gexp faila) (v faila) XOR gfmul (gexp b) (v b) = 0"
      using v [of "Suc ?n"] two [of gexp] n ISAL_RECOV_2DATA rows by simp
    moreover have "gexp faila \<noteq> gexp b" using a b assms(2) by (subst gexp_eq_iff) auto
    ultimately have "v faila = 0 \<and> v b = 0"
      using gf.solve_two [of "gexp faila" "gexp b" 0 "v faila" "v b" 0] by (simp add: xor_eq_0)
    with ISAL_RECOV_2DATA b show ?thesis by (auto simp: lost_slot_def)
  qed
  with data nz show False by blast
qed

section \<open>Decoding\<close>

text \<open>
  \<open>lost_row r\<close> expresses the \<open>r\<close>-th lost page over the original data. \<open>decodes\<close>: the tables hold
  coefficients that turn the survivors into the lost pages.
\<close>

definition lost_row :: "recov_mode \<Rightarrow> nat \<Rightarrow> int \<Rightarrow> nat \<Rightarrow> nat \<Rightarrow> u8" where
  "lost_row mode faila failb r c =
     (if r = 0 then idm faila c else if mode = ISAL_RECOV_2DATA then idm (nat failb) c else 1)"

definition decodes :: "recov_mode \<Rightarrow> nat \<Rightarrow> nat \<Rightarrow> int \<Rightarrow> u8 list \<Rightarrow> bool" where
  "decodes mode k faila failb tbls \<longleftrightarrow> (\<exists>D. gfni_tbls k 2 D tbls \<and>
     (\<forall>r<2. \<forall>c<k. xsum k (\<lambda>i. gfmul (D r i) (survivor_row mode k faila failb i c)) = lost_row mode faila failb r c))"

lemma decode_rows:
  assumes "2 * k \<le> length dec"
  shows "length (decode_rows k out0 out1 im dec) = length dec"
    and "i < k \<Longrightarrow> decode_rows k out0 out1 im dec ! i = xsum k (\<lambda>j. gfmul (out0 ! j) (mat k im j i))"
    and "i < k \<Longrightarrow> decode_rows k out0 out1 im dec ! (k + i) = xsum k (\<lambda>j. gfmul (out1 ! j) (mat k im j i))"
proof -
  have sum: "for_up 0 n (\<lambda>j (a, b). (a XOR f j, b XOR g j)) (0, 0) = (xsum n f, xsum n g)" for n and f g :: "nat \<Rightarrow> u8"
    by (induction n) (simp_all add: for_up_Suc)
  let ?I = "\<lambda>n d. length d = length dec \<and> (\<forall>i<n. d ! i = xsum k (\<lambda>j. gfmul (out0 ! j) (mat k im j i)) \<and>
      d ! (k + i) = xsum k (\<lambda>j. gfmul (out1 ! j) (mat k im j i)))"
  have "?I k (decode_rows k out0 out1 im dec)"
    unfolding decode_rows_def sum Let_def prod.case
  proof (rule for_up_invariant [where I = ?I])
    show "?I (Suc i) (d[i := xsum k (\<lambda>j. gf_mul (out0 ! j) (im ! (j * k + i))),
        k + i := xsum k (\<lambda>j. gf_mul (out1 ! j) (im ! (j * k + i)))])" if "0 \<le> i" "i < k" "?I i d" for i d
      using that assms by (auto simp: nth_list_update less_Suc_eq mat_def)
  qed auto
  then show "length (decode_rows k out0 out1 im dec) = length dec"
    "i < k \<Longrightarrow> decode_rows k out0 out1 im dec ! i = xsum k (\<lambda>j. gfmul (out0 ! j) (mat k im j i))"
    "i < k \<Longrightarrow> decode_rows k out0 out1 im dec ! (k + i) = xsum k (\<lambda>j. gfmul (out1 ! j) (mat k im j i))" by auto
qed

lemma decode_tbls:
  assumes pat: "pattern mode k faila failb" and dec: "2 * k \<le> length dec"
    and id: "meq k (mmul k (mat k im) (survivor_row mode k faila failb)) idm"
    and out: "\<And>c. c < k \<Longrightarrow> out0 ! c = lost_row mode faila failb 0 c" "\<And>c. c < k \<Longrightarrow> out1 ! c = lost_row mode faila failb 1 c"
  shows "decodes mode k faila failb (ec_init_tables_gfni k 2 (decode_rows k out0 out1 im dec))"
proof -
  let ?L = "lost_row mode faila failb" and ?A = "survivor_row mode k faila failb"
  let ?D = "\<lambda>r i. xsum k (\<lambda>j. gfmul (?L r j) (mat k im j i))"
  note rows = decode_rows [where ?out0.0 = out0 and ?out1.0 = out1 and im = im, OF dec]
  have "decode_rows k out0 out1 im dec ! (r * k + j) = ?D r j" if "r < 2" "j < k" for r j
    using that rows(2,3) out by (auto simp: less_2_cases_iff intro!: xsum_cong)
  then have "gfni_tbls k 2 ?D (ec_init_tables_gfni k 2 (decode_rows k out0 out1 im dec))"
    using gfni_tbls_init [of 2 k "decode_rows k out0 out1 im dec"] rows(1) dec by (simp add: gfni_tbls_def)
  moreover have "xsum k (\<lambda>i. gfmul (?D r i) (?A i c)) = ?L r c" if "c < k" for r c
  proof -
    have "xsum k (\<lambda>i. gfmul (?D r i) (?A i c)) = mmul k (mmul k (\<lambda>_. ?L r) (mat k im)) ?A 0 c"
      by (simp add: mmul_def)
    also have "\<dots> = mmul k (\<lambda>_. ?L r) (mmul k (mat k im) ?A) 0 c" by (simp only: mmul_assoc)
    also have "\<dots> = xsum k (\<lambda>j. if j = c then ?L r j else 0)"
      unfolding mmul_def [of k "\<lambda>_. ?L r"] using meqD [OF id] that by (intro xsum_cong) (auto simp: idm_def)
    finally show ?thesis using that by simp
  qed
  ultimately show ?thesis by (auto simp: decodes_def)
qed

text \<open>The matrix that the code inverts, and the result.\<close>

lemma invert_survivors:
  assumes "pattern mode k faila failb" "k \<le> 255" "length out = k * k"
  obtains A' B where "gf_invert_matrix (flat k k (survivor_row mode k faila failb)) out k = (0, A', B)"
    "length B = k * k" "length A' = k * k" "meq k (mmul k (mat k B) (survivor_row mode k faila failb)) idm"
proof -
  let ?A = "survivor_row mode k faila failb"
  have mat: "meq k (mat k (flat k k ?A)) ?A" by (intro meqI) (simp add: mat_def nth_flat)
  have reg: "\<not> singular k (mat k (flat k k ?A))"
  proof
    assume "singular k (mat k (flat k k ?A))"
    then obtain v c where v: "c < k" "v c \<noteq> 0"
      "\<And>r. r < k \<Longrightarrow> xsum k (\<lambda>c. gfmul (mat k (flat k k ?A) r c) (v c)) = 0"
      by (auto simp: singular_def)
    have "xsum k (\<lambda>c. gfmul (?A r c) (v c)) = 0" if "r < k" for r
      using v(3) [OF that] meqD [OF mat that] by (simp cong: xsum_cong)
    with v survivor_matrix_regular [OF assms(1,2)] show False by (auto simp: singular_def)
  qed
  show thesis
    using length_flat assms(3)
  proof (rule gf_invert_matrix_cases)
    fix A' B
    assume "gf_invert_matrix (flat k k ?A) out k = (0, A', B)" "length B = k * k"
      "meq k (mmul k (mat k B) (mat k (flat k k ?A))) idm"
    moreover have "meq k (mmul k (mat k B) (mat k (flat k k ?A))) (mmul k (mat k B) ?A)"
      by (rule mmul_cong [OF meq_refl mat])
    ultimately have "gf_invert_matrix (flat k k ?A) out k = (0, A', B)" "length B = k * k"
      "meq k (mmul k (mat k B) ?A) idm" by (auto intro: meq_trans meq_sym)
    moreover from this(1) have "length A' = k * k"
      using gf_invert_matrix_length [of "flat k k ?A" out k] by simp
    ultimately show thesis using that by blast
  qed (use reg in blast)
qed

section \<open>Survivor pages\<close>

lemma isal_build_srcs_eq:
  "isal_build_srcs mode k faila failb ptrs =
     map ((!) ptrs) (survivors mode k faila failb) @ (if mode = ISAL_RECOV_2DATA then [ptrs ! k] else []) @ [ptrs ! (k + 1)]"
proof -
  have "for_up 0 n (\<lambda>j srcs. if lost_slot mode faila failb j then srcs else srcs @ [ptrs ! j]) [] =
      map ((!) ptrs) (filter (\<lambda>j. \<not> lost_slot mode faila failb j) [0..<n])" for n
    by (induction n) (simp_all add: for_up_Suc)
  then show ?thesis by (simp add: isal_build_srcs_def survivors_def)
qed

lemma length_isal_build_srcs: "pattern mode k faila failb \<Longrightarrow> length (isal_build_srcs mode k faila failb ptrs) = k"
  using length_survivors [of mode k faila failb] by (simp add: isal_build_srcs_eq split: if_splits)

text \<open>A page of a survivor is the combination of the original data that its matrix row says.\<close>

lemma survivor_page:
  assumes pat: "pattern mode k faila failb" and sync: "synced (k + 2) bytes ptrs m0"
    and data: "\<And>j. j < k \<Longrightarrow> \<not> lost_slot mode faila failb j \<Longrightarrow> m (ptrs ! j) = m0 (ptrs ! j)"
    and p: "mode = ISAL_RECOV_2DATA \<Longrightarrow> m (ptrs ! k) = m0 (ptrs ! k)" and q: "m (ptrs ! (k + 1)) = m0 (ptrs ! (k + 1))"
    and i: "i < k" and t: "t < bytes"
  shows "m (isal_build_srcs mode k faila failb ptrs ! i) ! t =
    xsum k (\<lambda>c. gfmul (survivor_row mode k faila failb i c) (m0 (ptrs ! c) ! t))"
proof -
  let ?S = "survivors mode k faila failb"
  have pq: "m0 (ptrs ! k) ! t = xsum k (\<lambda>c. m0 (ptrs ! c) ! t)"
    "m0 (ptrs ! (k + 1)) ! t = xsum k (\<lambda>c. gfmul (gexp c) (m0 (ptrs ! c) ! t))"
    using sync t by (auto simp: synced_def pbyte_def qbyte_def)
  consider "i < length ?S" | "mode = ISAL_RECOV_2DATA" "i = length ?S"
    | "\<not> i < length ?S" "\<not> (mode = ISAL_RECOV_2DATA \<and> i = length ?S)" by blast
  then show ?thesis
  proof cases
    case 1
    then have "?S ! i \<in> set ?S" by simp
    then have s: "?S ! i < k" "\<not> lost_slot mode faila failb (?S ! i)" by (auto simp: survivors_def)
    have "isal_build_srcs mode k faila failb ptrs ! i = ptrs ! (?S ! i)"
      using 1 by (simp add: isal_build_srcs_eq nth_append)
    moreover have "xsum k (\<lambda>c. gfmul (survivor_row mode k faila failb i c) (m0 (ptrs ! c) ! t)) =
        xsum k (\<lambda>c. if ?S ! i = c then m0 (ptrs ! c) ! t else 0)"
      using 1 by (intro xsum_cong) (auto simp: survivor_row_def idm_def)
    ultimately show ?thesis using s data [OF s] by simp
  next
    case 2
    then have "isal_build_srcs mode k faila failb ptrs ! i = ptrs ! k" "survivor_row mode k faila failb i = (\<lambda>c. 1)"
      by (simp_all add: isal_build_srcs_eq nth_append survivor_row_def fun_eq_iff)
    with p 2 show ?thesis by (simp add: pq(1))
  next
    case 3
    then have "i = length ?S + (if mode = ISAL_RECOV_2DATA then 1 else 0)"
      using i length_survivors [OF pat] by (auto split: if_splits)
    then have "isal_build_srcs mode k faila failb ptrs ! i = ptrs ! (k + 1)"
      by (simp add: isal_build_srcs_eq nth_append split: if_splits)
    moreover have "survivor_row mode k faila failb i = gexp"
      using 3 by (auto simp: survivor_row_def fun_eq_iff)
    ultimately show ?thesis by (simp only: q pq(2))
  qed
qed

lemma decodes_dot:
  assumes "decodes mode k faila failb tbls" "bufs_ok bytes k srcs [d0, d1] m" "bytes < 2 ^ 31"
    and page: "\<And>i t. i < k \<Longrightarrow> t < bytes \<Longrightarrow> m (srcs ! i) ! t =
      xsum k (\<lambda>c. gfmul (survivor_row mode k faila failb i c) (x c t))"
  shows "dot2 use_avx512 bytes k tbls srcs [d0, d1] m =
    write_rows bytes [d0, d1] (\<lambda>r t. xsum k (\<lambda>c. gfmul (lost_row mode faila failb r c) (x c t))) m"
proof -
  obtain D where D: "gfni_tbls k 2 D tbls"
    "\<And>r c. r < 2 \<Longrightarrow> c < k \<Longrightarrow> xsum k (\<lambda>i. gfmul (D r i) (survivor_row mode k faila failb i c)) = lost_row mode faila failb r c"
    using assms(1) by (auto simp: decodes_def)
  have ds: "take 2 [d0, d1] = [d0, d1]" "2 \<le> length [d0, d1]" by simp_all
  have ok: "bufs_ok bytes k srcs (take 2 [d0, d1]) m" using assms(2) by simp
  have "dot2 use_avx512 bytes k tbls srcs [d0, d1] m = write_rows bytes [d0, d1] (\<lambda>r. dot k (D r) srcs m) m"
    using dot2_512.kern_rows [OF D(1) ok ds(2)] dot2_256.kern_rows [OF D(1) ok ds(2)] by (simp only: dot2_def ds int_len_eq [OF assms(3)]) simp
  also have "\<dots> = write_rows bytes [d0, d1] (\<lambda>r t. xsum k (\<lambda>c. gfmul (lost_row mode faila failb r c) (x c t))) m"
  proof (rule write_rows_cong)
    fix r t
    assume r: "r < length [d0, d1]" and t: "t < bytes"
    let ?A = "survivor_row mode k faila failb"
    have "dot k (D r) srcs m t = mmul k (\<lambda>_. D r) (mmul k ?A (\<lambda>c _. x c t)) 0 0"
      using page t by (simp add: dot_def mmul_def cong: xsum_cong)
    also have "\<dots> = mmul k (mmul k (\<lambda>_. D r) ?A) (\<lambda>c _. x c t) 0 0" by (simp only: mmul_assoc)
    also have "\<dots> = xsum k (\<lambda>c. gfmul (lost_row mode faila failb r c) (x c t))"
      using D(2) r by (simp add: mmul_def cong: xsum_cong)
    finally show "dot k (D r) srcs m t = xsum k (\<lambda>c. gfmul (lost_row mode faila failb r c) (x c t))" .
  qed
  finally show ?thesis .
qed

section \<open>The cache\<close>

definition cache_ok :: "isal_cpu_cache \<Rightarrow> bool" where
  "cache_ok cc \<longleftrightarrow> length (cc_enc cc) = 32 * 32 \<and> length (cc_inv cc) = 32 * 32 \<and> length (cc_tbls cc) = 2 * 32 * 32 \<and>
     (cc_valid cc \<longrightarrow> decodes (cc_mode cc) (cc_k cc) (cc_faila cc) (cc_failb cc) (cc_tbls cc))"

lemma length_ec_init_tables_gfni: "2 * k \<le> length a \<Longrightarrow> length (ec_init_tables_gfni k 2 a) = 64 * k"
  by (simp add: ec_init_tables_gfni_def ec_init_tables_eq length_concat comp_def sum_list_triv)

lemma decodes_put:
  assumes "decodes mode k faila failb t" "length t = 64 * k" "length t \<le> length tbls"
  shows "decodes mode k faila failb (put tbls 0 t)"
proof -
  have "get (put tbls 0 t) (32 * (r * k + j)) 32 = get t (32 * (r * k + j)) 32" if "r < 2" "j < k" for r j
  proof -
    have "r * k + j < 2 * k" using that by (intro table_index_less)
    with assms(2,3) show ?thesis by (auto simp: list_eq_iff_nth_eq nth_put)
  qed
  then have "gfni_tbls k 2 D (put tbls 0 t) \<longleftrightarrow> gfni_tbls k 2 D t" for D by (simp add: gfni_tbls_def)
  with assms(1) show ?thesis by (simp only: decodes_def)
qed

lemma lost_rows:
  assumes "pattern mode k faila failb" "c < k"
  shows "(replicate k 0)[faila := 1] ! c = lost_row mode faila failb 0 c"
    "(if mode = ISAL_RECOV_2DATA then (replicate k 0)[nat failb := 1]
      else for_up 0 k (\<lambda>j out1. out1[j := 1]) (replicate k 0)) ! c = lost_row mode faila failb 1 c"
proof -
  show "(replicate k 0)[faila := 1] ! c = lost_row mode faila failb 0 c"
    using assms by (cases "c = faila") (simp_all add: lost_row_def idm_def)
  have one: "for_up 0 k (\<lambda>j out1. out1[j := 1 :: u8]) (replicate k 0) ! c = 1"
    using assms(2) by (simp add: for_up_fill nth_append)
  show "(if mode = ISAL_RECOV_2DATA then (replicate k 0)[nat failb := 1]
      else for_up 0 k (\<lambda>j out1. out1[j := 1]) (replicate k 0)) ! c = lost_row mode faila failb 1 c"
  proof (cases "mode = ISAL_RECOV_2DATA")
    case True
    with assms show ?thesis by (cases "c = nat failb") (simp_all add: lost_row_def idm_def)
  next
    case False
    then show ?thesis using one by (simp add: lost_row_def)
  qed
qed

lemma isal_build_tbls_correct:
  assumes pat: "pattern mode k faila failb" and k: "k \<le> 32"
    and len: "length enc = 32 * 32" "length im = 32 * 32" "length tbls = 2 * 32 * 32"
  obtains enc' im' tbls' where "isal_build_tbls mode k faila failb enc im tbls = (0, enc', im', tbls')"
    "length enc' = 32 * 32" "length im' = 32 * 32" "length tbls' = 2 * 32 * 32" "decodes mode k faila failb tbls'"
proof -
  let ?F = "flat k k (survivor_row mode k faila failb)"
  have kk: "k * k \<le> 32 * 32" using k by (intro mult_le_mono)
  have enc: "survivor_matrix mode k faila failb enc = put enc 0 ?F" using kk len pat by (intro survivor_matrix_eq) simp_all
  have tk: "take (k * k) (put enc 0 ?F) = ?F" by (simp add: put_def)
  have im: "length (take (k * k) im) = k * k" using kk len by simp
  have k255: "k \<le> 255" using k by simp
  obtain A' B where inv: "gf_invert_matrix ?F (take (k * k) im) k = (0, A', B)" "length B = k * k"
    "length A' = k * k" "meq k (mmul k (mat k B) (survivor_row mode k faila failb)) idm"
    using invert_survivors [OF pat k255 im] .
  have mat: "meq k (mat k (put im 0 B)) (mat k B)"
    using inv(2) by (intro meqI) (simp add: mat_def put_def nth_append flat_less)
  then have id: "meq k (mmul k (mat k (put im 0 B)) (survivor_row mode k faila failb)) idm"
    using inv(4) mmul_cong [OF mat meq_refl] meq_trans by blast
  let ?o = "if mode = ISAL_RECOV_2DATA then (replicate k 0)[nat failb := 1]
      else for_up 0 k (\<lambda>j out1. out1[j := 1]) (replicate k 0)"
  let ?d = "decode_rows k ((replicate k 0)[faila := 1]) ?o (put im 0 B) (replicate (2 * ISAL_CACHE_MAX_K) 0)"
  have d: "2 * k \<le> length (replicate (2 * ISAL_CACHE_MAX_K) (0 :: u8))" using k by (simp add: ISAL_CACHE_MAX_K_def)
  have "decodes mode k faila failb (ec_init_tables_gfni k 2 ?d)"
    by (rule decode_tbls [OF pat d id]) (rule lost_rows [OF pat]; assumption)+
  moreover have "length (ec_init_tables_gfni k 2 ?d) = 64 * k"
    using decode_rows(1) [OF d] d by (intro length_ec_init_tables_gfni) simp
  ultimately have "decodes mode k faila failb (put tbls 0 (ec_init_tables_gfni k 2 ?d))"
    "length (put tbls 0 (ec_init_tables_gfni k 2 ?d)) = 2 * 32 * 32"
    using k len by (auto intro: decodes_put)
  moreover have "isal_build_tbls mode k faila failb enc im tbls =
      (0, put (put enc 0 ?F) 0 A', put im 0 B, put tbls 0 (ec_init_tables_gfni k 2 ?d))"
    by (simp add: isal_build_tbls_def Let_def enc tk inv(1))
  moreover have "length (put (put enc 0 ?F) 0 A') = 32 * 32" "length (put im 0 B) = 32 * 32"
    using kk len inv(2,3) by simp_all
  ultimately show thesis using that by blast
qed

text \<open>
  \<open>recovered\<close>: the two lost pages in terms of the original data. A call through the cache writes
  them, and leaves a cache whose entry is again the one its fields name.
\<close>

definition recovered :: "recov_mode \<Rightarrow> nat \<Rightarrow> nat \<Rightarrow> int \<Rightarrow> (nat \<Rightarrow> nat \<Rightarrow> u8) \<Rightarrow> nat \<Rightarrow> nat \<Rightarrow> u8" where
  "recovered mode k faila failb x r t = xsum k (\<lambda>c. gfmul (lost_row mode faila failb r c) (x c t))"

lemma recovered_eq:
  assumes "pattern mode k faila failb"
  shows "recovered mode k faila failb x 0 t = x faila t"
    "mode = ISAL_RECOV_2DATA \<Longrightarrow> recovered mode k faila failb x 1 t = x (nat failb) t"
    "mode = ISAL_RECOV_DATAP \<Longrightarrow> recovered mode k faila failb x 1 t = xsum k (\<lambda>c. x c t)"
proof -
  have unit: "xsum k (\<lambda>c. gfmul (idm j c) (x c t)) = x j t" if "j < k" for j
  proof -
    have "xsum k (\<lambda>c. gfmul (idm j c) (x c t)) = xsum k (\<lambda>c. if j = c then x c t else 0)"
      by (intro xsum_cong) (auto simp: idm_def)
    with that show ?thesis by simp
  qed
  show "recovered mode k faila failb x 0 t = x faila t"
    using assms unit [of faila] by (simp add: recovered_def lost_row_def pattern_def)
  show "recovered mode k faila failb x 1 t = x (nat failb) t" if "mode = ISAL_RECOV_2DATA"
    using assms that unit [of "nat failb"] by (auto simp: recovered_def lost_row_def pattern_def)
  show "recovered mode k faila failb x 1 t = xsum k (\<lambda>c. x c t)" if "mode = ISAL_RECOV_DATAP"
    using that by (simp add: recovered_def lost_row_def)
qed

lemma isal_recov_cached_correct:
  assumes cc: "cache_ok cc" and pat: "pattern mode k faila failb" and k: "k \<le> 32"
    and ok: "bufs_ok bytes k (isal_build_srcs mode k faila failb ptrs) [d0, d1] m" "bytes < 2 ^ 31"
    and page: "\<And>i t. i < k \<Longrightarrow> t < bytes \<Longrightarrow> m (isal_build_srcs mode k faila failb ptrs ! i) ! t =
      xsum k (\<lambda>c. gfmul (survivor_row mode k faila failb i c) (x c t))"
  obtains cc' where "isal_recov_cached use_avx512 mode k faila failb bytes ptrs d0 d1 cc m =
    (True, cc', write_rows bytes [d0, d1] (recovered mode k faila failb x) m)" "cache_ok cc'"
proof -
  have run: "dot2 use_avx512 bytes k tbls (isal_build_srcs mode k faila failb ptrs) [d0, d1] m =
      write_rows bytes [d0, d1] (recovered mode k faila failb x) m" if "decodes mode k faila failb tbls" for tbls
    using decodes_dot [OF that ok page] unfolding recovered_def by blast
  have k': "\<not> k > ISAL_CACHE_MAX_K" using k by (simp add: ISAL_CACHE_MAX_K_def)
  show thesis
  proof (cases "\<not> cc_valid cc \<or> cc_mode cc \<noteq> mode \<or> cc_k cc \<noteq> k \<or> cc_faila cc \<noteq> faila \<or> cc_failb cc \<noteq> failb")
    case True
    have len: "length (cc_enc cc) = 32 * 32" "length (cc_inv cc) = 32 * 32" "length (cc_tbls cc) = 2 * 32 * 32"
      using cc by (simp_all add: cache_ok_def)
    obtain enc im tbls where b: "isal_build_tbls mode k faila failb (cc_enc cc) (cc_inv cc) (cc_tbls cc) = (0, enc, im, tbls)"
      "length enc = 32 * 32" "length im = 32 * 32" "length tbls = 2 * 32 * 32" "decodes mode k faila failb tbls"
      using isal_build_tbls_correct [OF pat k len] .
    show thesis
    proof (rule that)
      show "isal_recov_cached use_avx512 mode k faila failb bytes ptrs d0 d1 cc m =
        (True, cc\<lparr>cc_enc := enc, cc_inv := im, cc_tbls := tbls, cc_mode := mode, cc_k := k, cc_faila := faila,
           cc_failb := failb, cc_valid := True\<rparr>, write_rows bytes [d0, d1] (recovered mode k faila failb x) m)"
        using True k' b run [OF b(5)] by (simp add: isal_recov_cached_def Let_def)
    qed (use b in \<open>simp add: cache_ok_def\<close>)
  next
    case False
    then have d: "decodes mode k faila failb (cc_tbls cc)" using cc by (auto simp: cache_ok_def)
    show thesis
    proof (rule that)
      show "isal_recov_cached use_avx512 mode k faila failb bytes ptrs d0 d1 cc m =
        (True, cc, write_rows bytes [d0, d1] (recovered mode k faila failb x) m)"
        using False k' run [OF d] by (simp add: isal_recov_cached_def Let_def)
    qed (rule cc)
  qed
qed

text \<open>The entry that a cached call leaves is valid and names its pattern.\<close>

lemma isal_recov_cached_key:
  assumes cc: "cache_ok cc" and pat: "pattern mode k faila failb" and k: "k \<le> 32"
  obtains cc' m' where "isal_recov_cached use_avx512 mode k faila failb bytes ptrs d0 d1 cc m = (True, cc', m')"
    "cc_valid cc'" "cc_mode cc' = mode" "cc_k cc' = k" "cc_faila cc' = faila" "cc_failb cc' = failb"
proof -
  have k': "\<not> k > ISAL_CACHE_MAX_K" using k by (simp add: ISAL_CACHE_MAX_K_def)
  have len: "length (cc_enc cc) = 32 * 32" "length (cc_inv cc) = 32 * 32" "length (cc_tbls cc) = 2 * 32 * 32"
    using cc by (simp_all add: cache_ok_def)
  obtain enc im tbls where b: "isal_build_tbls mode k faila failb (cc_enc cc) (cc_inv cc) (cc_tbls cc) = (0, enc, im, tbls)"
    using isal_build_tbls_correct [OF pat k len] by metis
  obtain hit cc' m' where r: "isal_recov_cached use_avx512 mode k faila failb bytes ptrs d0 d1 cc m = (hit, cc', m')"
    by (rule prod_cases3)
  then have "hit \<and> cc_valid cc' \<and> cc_mode cc' = mode \<and> cc_k cc' = k \<and> cc_faila cc' = faila \<and> cc_failb cc' = failb"
    using k' b by (auto simp: isal_recov_cached_def Let_def split: if_splits)
  with r show thesis by (intro that [of cc' m']) simp_all
qed

lemma isal_recov_finish_correct:
  assumes pat: "pattern mode k faila failb" and k: "k \<le> 64" and al: "alloc Inv" "alloc Finish_Tbls"
    and ok: "bufs_ok bytes k srcs [d0, d1] m" "bytes < 2 ^ 31"
    and page: "\<And>i t. i < k \<Longrightarrow> t < bytes \<Longrightarrow> m (srcs ! i) ! t =
      xsum k (\<lambda>c. gfmul (survivor_row mode k faila failb i c) (x c t))"
    and out: "\<And>c. c < k \<Longrightarrow> out0 ! c = lost_row mode faila failb 0 c" "\<And>c. c < k \<Longrightarrow> out1 ! c = lost_row mode faila failb 1 c"
  shows "isal_recov_finish use_avx512 alloc k bytes srcs (flat k k (survivor_row mode k faila failb)) out0 out1 d0 d1 m =
    (Inr (), write_rows bytes [d0, d1] (recovered mode k faila failb x) m)"
proof -
  have k255: "k \<le> 255" using k by simp
  obtain A' B where inv: "gf_invert_matrix (flat k k (survivor_row mode k faila failb)) (replicate (k * k) 0) k = (0, A', B)"
    "length B = k * k" "length A' = k * k" "meq k (mmul k (mat k B) (survivor_row mode k faila failb)) idm"
    using invert_survivors [OF pat k255 length_replicate] .
  have "2 * k \<le> length (replicate (2 * ISAL_RECOV_MAX_K) (0 :: u8))" using k by (simp add: ISAL_RECOV_MAX_K_def)
  from decodes_dot [OF decode_tbls [OF pat this inv(4) out] ok page]
  show ?thesis using al inv(1) unfolding recovered_def by (simp add: isal_recov_finish_def Let_def)
qed

text \<open>The one-pass loops build the same sources and the same matrix.\<close>

lemma survivors_pass:
  assumes "\<And>j. P j \<longleftrightarrow> lost_slot mode faila failb j"
  shows "for_up 0 n (\<lambda>j (srcs, enc, r). if P j then (srcs, enc, r)
      else let srcs = srcs @ [ptrs ! j]; enc = put enc (r * k) (replicate k 0); enc = enc[r * k + j := 1]
        in (srcs, enc, r + 1)) ([], enc, 0) =
    (map ((!) ptrs) (filter (\<lambda>j. \<not> lost_slot mode faila failb j) [0..<n]),
     for_up 0 n (\<lambda>j (enc, r). if lost_slot mode faila failb j then (enc, r)
      else let enc = put enc (r * k) (replicate k 0); enc = enc[r * k + j := 1] in (enc, r + 1)) (enc, 0))"
  by (induction n) (simp_all add: for_up_Suc assms split: prod.split)

lemma data2_survivors_eq:
  "data2_survivors k faila failb ptrs enc =
     (isal_build_srcs ISAL_RECOV_2DATA k faila (int failb) ptrs, survivor_matrix ISAL_RECOV_2DATA k faila (int failb) enc)"
  unfolding data2_survivors_def survivor_matrix_def isal_build_srcs_eq survivors_def
  by (subst survivors_pass [where mode = ISAL_RECOV_2DATA and faila = faila and failb = "int failb"])
    (auto simp: lost_slot_def split: prod.split)

lemma datap_survivors_eq:
  "datap_survivors k faila ptrs enc =
     (isal_build_srcs ISAL_RECOV_DATAP k faila (-1) ptrs, survivor_matrix ISAL_RECOV_DATAP k faila (-1) enc)"
  unfolding datap_survivors_def survivor_matrix_def isal_build_srcs_eq survivors_def
  by (subst survivors_pass [where mode = ISAL_RECOV_DATAP and faila = faila and failb = "-1"])
    (auto simp: lost_slot_def split: prod.split)

section \<open>Recovery\<close>

text \<open>\<open>second\<close> is the slot of the second lost page: the other data disk, or P.\<close>

definition second :: "recov_mode \<Rightarrow> nat \<Rightarrow> int \<Rightarrow> nat" where
  "second mode k failb = (if mode = ISAL_RECOV_2DATA then nat failb else k)"

lemma second_pattern:
  assumes "pattern mode k faila failb"
  shows "second mode k failb \<noteq> faila" "second mode k failb < k + 1"
    "j < k \<Longrightarrow> lost_slot mode faila failb j \<longleftrightarrow> j \<in> {faila, second mode k failb}"
  using assms by (auto simp: second_def pattern_def lost_slot_def)

lemma survivor_slot:
  assumes "s \<in> set (isal_build_srcs mode k faila failb ptrs)" "pattern mode k faila failb"
  obtains j where "s = ptrs ! j" "j < k + 2" "j \<notin> {faila, second mode k failb}"
proof -
  have ab: "faila < k" "second mode k failb < k + 1" using assms(2) second_pattern by (auto simp: pattern_def)
  consider j where "s = ptrs ! j" "j < k" "\<not> lost_slot mode faila failb j"
    | "mode = ISAL_RECOV_2DATA" "s = ptrs ! k" | "s = ptrs ! (k + 1)"
    using assms(1) by (auto simp: isal_build_srcs_eq survivors_def split: if_splits)
  then show thesis
  proof cases
    case 1
    then show thesis using that [of j] second_pattern(3) [OF assms(2)] by simp
  next
    case 2
    with assms(2) have "second mode k failb < k" by (auto simp: second_def pattern_def)
    with 2 ab show thesis using that [of k] by simp
  qed (use ab that [of "k + 1"] in simp)
qed

lemma recov_bufs_ok:
  assumes pat: "pattern mode k faila failb" and l: "lost (k + 2) bytes {faila, second mode k failb} zp ptrs m0 m"
  shows "bufs_ok bytes k (isal_build_srcs mode k faila failb ptrs) [ptrs ! faila, ptrs ! second mode k failb] m"
proof -
  let ?b = "second mode k failb" and ?S = "isal_build_srcs mode k faila failb ptrs"
  have ab: "faila < k + 2" "?b < k + 2" "?b \<noteq> faila" using pat second_pattern [OF pat] by (auto simp: pattern_def)
  have len: "length ptrs = k + 2" "\<And>j. j < k + 2 \<Longrightarrow> bytes \<le> length (m (ptrs ! j))"
    using stripe_ok_disks [OF lostD(2) [OF l]] stripe_ok_length [OF lostD(2) [OF l]] by auto
  have ne: "ptrs ! z \<noteq> ptrs ! j" if "j \<in> {faila, ?b}" "z < k + 2" "z \<noteq> j" for z j
    using lostD(8) [OF l that] .
  have "s \<noteq> ptrs ! faila \<and> s \<noteq> ptrs ! ?b \<and> bytes \<le> length (m s)" if "s \<in> set ?S" for s
    using that pat by (rule survivor_slot) (use ne len in auto)
  moreover have "ptrs ! faila \<noteq> ptrs ! ?b" using ne [of ?b faila] ab by simp
  ultimately show ?thesis
    using length_isal_build_srcs [OF pat, of ptrs] len(2) ab by (auto simp: bufs_ok_def)
qed

lemma recov_page:
  assumes pat: "pattern mode k faila failb" and l: "lost (k + 2) bytes {faila, second mode k failb} zp ptrs m0 m"
    and "i < k" "t < bytes"
  shows "m (isal_build_srcs mode k faila failb ptrs ! i) ! t =
    xsum k (\<lambda>c. gfmul (survivor_row mode k faila failb i c) (m0 (ptrs ! c) ! t))"
proof -
  let ?b = "second mode k failb"
  have alive: "m (ptrs ! j) = m0 (ptrs ! j)" if "j < k + 2" "j \<notin> {faila, ?b}" for j
    using lostD(9) [OF l] lostD(8) [OF l, of _ j] that by fastforce
  have "mode = ISAL_RECOV_2DATA \<Longrightarrow> k \<notin> {faila, ?b}" "k + 1 \<notin> {faila, ?b}"
    using pat second_pattern [OF pat] by (auto simp: pattern_def second_def)
  then have "mode = ISAL_RECOV_2DATA \<Longrightarrow> m (ptrs ! k) = m0 (ptrs ! k)" "m (ptrs ! (k + 1)) = m0 (ptrs ! (k + 1))"
    by (simp_all add: alive)
  then show ?thesis
    using survivor_page [OF pat lostD(4) [OF l] _ _ _ assms(3,4)] alive second_pattern(3) [OF pat] by simp
qed

lemma recovered_restored:
  assumes pat: "pattern mode k faila failb" and l: "lost (k + 2) bytes {faila, second mode k failb} zp ptrs m0 m"
  shows "write_rows bytes [ptrs ! faila, ptrs ! second mode k failb]
      (recovered mode k faila failb (\<lambda>c t. m0 (ptrs ! c) ! t)) m =
    restored bytes [ptrs ! faila, ptrs ! second mode k failb] m0 m"
proof -
  let ?b = "second mode k failb" and ?f = "recovered mode k faila failb (\<lambda>c t. m0 (ptrs ! c) ! t)"
  have ab: "faila < k + 2" "?b < k + 2" "?b \<noteq> faila" using pat second_pattern [OF pat] by (auto simp: pattern_def)
  have len: "bytes \<le> length (m (ptrs ! j))" "bytes \<le> length (m0 (ptrs ! j))" if "j < k + 2" for j
    using that stripe_ok_disks [OF lostD(2) [OF l]] stripe_ok_length [OF lostD(2) [OF l]]
      stripe_ok_length [OF lostD(1) [OF l]] by auto
  have ne: "ptrs ! faila \<noteq> ptrs ! ?b" using lostD(8) [OF l, of ?b faila] ab by simp
  have "m0 (ptrs ! k) ! t = xsum k (\<lambda>c. m0 (ptrs ! c) ! t)" if "t < bytes" for t
    using lostD(4) [OF l] that by (auto simp: synced_def pbyte_def)
  then have "?f 1 t = m0 (ptrs ! ?b) ! t" if "t < bytes" for t
    using that recovered_eq(2,3) [OF pat] by (cases mode) (simp_all add: second_def)
  then have f: "map (?f 0) [0..<bytes] = take bytes (m0 (ptrs ! faila))" "map (?f 1) [0..<bytes] = take bytes (m0 (ptrs ! ?b))"
    using len(2) ab recovered_eq(1) [OF pat] by (auto simp: list_eq_iff_nth_eq)
  show ?thesis
    unfolding write_rows_two [OF len(1) [OF ab(1)] len(1) [OF ab(2)] ne] f
    using ne by (auto simp: restored_def fun_eq_iff)
qed

text \<open>Both recovery routines, on the cached path and on the path that allocates.\<close>

lemma isal_2data_recov_correct:
  assumes l: "lost disks bytes {a, b} zp ptrs m0 m" and ab: "a < b" "b < disks - 2" and d: "disks \<le> 66"
    and al: "34 < disks \<Longrightarrow> alloc Enc \<and> alloc Inv \<and> alloc Finish_Tbls" and cc: "cache_ok cc"
  obtains cc' where "isal_2data_recov use_avx512 alloc saved disks bytes a b ptrs cc m =
    (cc', Some (ptrs, restored bytes [ptrs ! a, ptrs ! b] m0 m))" "cache_ok cc'"
proof -
  define k where "k = disks - 2"
  have k: "disks = k + 2" "\<not> k < 2" "k \<le> 64" using ab d by (simp_all add: k_def)
  have pat: "pattern ISAL_RECOV_2DATA k a (int b)" using ab by (simp add: pattern_def k_def)
  have l': "lost (k + 2) bytes {a, second ISAL_RECOV_2DATA k (int b)} zp ptrs m0 m"
    using l k by (simp add: second_def)
  note ok = recov_bufs_ok [OF pat l'] stripe_ok_bytes [OF lostD(2) [OF l]] and page = recov_page [OF pat l'] and res = recovered_restored [OF pat l']
  show thesis
  proof (cases "k \<le> 32")
    case True
    obtain cc' where "isal_recov_cached use_avx512 ISAL_RECOV_2DATA k a (int b) bytes ptrs (ptrs ! a) (ptrs ! b) cc m =
        (True, cc', restored bytes [ptrs ! a, ptrs ! b] m0 m)" "cache_ok cc'"
      using isal_recov_cached_correct [OF cc pat True ok page] res by (auto simp: second_def)
    then show thesis using k by (intro that [of cc']) (simp_all add: isal_2data_recov_def Let_def)
  next
    case False
    have "survivor_matrix ISAL_RECOV_2DATA k a (int b) (replicate (k * k) 0) =
        flat k k (survivor_row ISAL_RECOV_2DATA k a (int b))"
      using pat by (subst survivor_matrix_eq) (simp_all add: put_def)
    moreover have "isal_recov_finish use_avx512 alloc k bytes (isal_build_srcs ISAL_RECOV_2DATA k a (int b) ptrs)
        (flat k k (survivor_row ISAL_RECOV_2DATA k a (int b))) ((replicate k 0)[a := 1]) ((replicate k 0)[b := 1])
        (ptrs ! a) (ptrs ! b) m = (Inr (), restored bytes [ptrs ! a, ptrs ! b] m0 m)"
      using isal_recov_finish_correct [OF pat k(3) _ _ ok page, of alloc "(replicate k 0)[a := 1]" "(replicate k 0)[b := 1]"]
        lost_rows [OF pat] al False k res by (simp add: second_def)
    moreover have "isal_recov_cached use_avx512 ISAL_RECOV_2DATA k a (int b) bytes ptrs (ptrs ! a) (ptrs ! b) cc m = (False, cc, m)"
      using False by (simp add: isal_recov_cached_def ISAL_CACHE_MAX_K_def)
    ultimately show thesis
      using cc al False k by (intro that [of cc])
        (simp_all add: isal_2data_recov_def Let_def data2_survivors_eq ISAL_RECOV_MAX_K_def)
  qed
qed

lemma isal_datap_recov_correct:
  assumes l: "lost disks bytes {a, disks - 2} zp ptrs m0 m" and ab: "a < disks - 2" and d: "disks \<le> 66"
    and al: "34 < disks \<Longrightarrow> alloc Enc \<and> alloc Inv \<and> alloc Finish_Tbls" and cc: "cache_ok cc"
  obtains cc' where "isal_datap_recov use_avx512 alloc saved disks bytes a ptrs cc m =
    (cc', Some (ptrs, restored bytes [ptrs ! (disks - 2), ptrs ! a] m0 m))" "cache_ok cc'"
proof -
  define k where "k = disks - 2"
  have k: "disks = k + 2" "\<not> k < 1" "k \<le> 64" using ab d by (simp_all add: k_def)
  have pat: "pattern ISAL_RECOV_DATAP k a (-1)" using ab by (simp add: pattern_def k_def)
  have l': "lost (k + 2) bytes {a, second ISAL_RECOV_DATAP k (-1)} zp ptrs m0 m"
    using l k by (simp add: second_def)
  note ok = recov_bufs_ok [OF pat l'] stripe_ok_bytes [OF lostD(2) [OF l]] and page = recov_page [OF pat l']
  have res: "write_rows bytes [ptrs ! a, ptrs ! k] (recovered ISAL_RECOV_DATAP k a (-1) (\<lambda>c t. m0 (ptrs ! c) ! t)) m =
      restored bytes [ptrs ! k, ptrs ! a] m0 m"
    using recovered_restored [OF pat l'] by (auto simp: second_def restored_def fun_eq_iff)
  show thesis
  proof (cases "k \<le> 32")
    case True
    obtain cc' where "isal_recov_cached use_avx512 ISAL_RECOV_DATAP k a (-1) bytes ptrs (ptrs ! a) (ptrs ! k) cc m =
        (True, cc', restored bytes [ptrs ! k, ptrs ! a] m0 m)" "cache_ok cc'"
      using isal_recov_cached_correct [OF cc pat True ok page] res by (auto simp: second_def)
    then show thesis using k by (intro that [of cc']) (simp_all add: isal_datap_recov_def Let_def)
  next
    case False
    have "survivor_matrix ISAL_RECOV_DATAP k a (-1) (replicate (k * k) 0) =
        flat k k (survivor_row ISAL_RECOV_DATAP k a (-1))"
      using pat by (subst survivor_matrix_eq) (simp_all add: put_def)
    moreover have "isal_recov_finish use_avx512 alloc k bytes (isal_build_srcs ISAL_RECOV_DATAP k a (-1) ptrs)
        (flat k k (survivor_row ISAL_RECOV_DATAP k a (-1))) ((replicate k 0)[a := 1])
        (for_up 0 k (\<lambda>j out1. out1[j := 1]) (replicate k 0))
        (ptrs ! a) (ptrs ! k) m = (Inr (), restored bytes [ptrs ! k, ptrs ! a] m0 m)"
      using isal_recov_finish_correct [OF pat k(3) _ _ ok page, of alloc "(replicate k 0)[a := 1]"
          "for_up 0 k (\<lambda>j out1. out1[j := 1]) (replicate k 0)"]
        lost_rows [OF pat] al False k res by (simp add: second_def)
    moreover have "isal_recov_cached use_avx512 ISAL_RECOV_DATAP k a (-1) bytes ptrs (ptrs ! a) (ptrs ! k) cc m = (False, cc, m)"
      using False by (simp add: isal_recov_cached_def ISAL_CACHE_MAX_K_def)
    ultimately show thesis
      using cc al False k by (intro that [of cc])
        (simp_all add: isal_datap_recov_def Let_def datap_survivors_eq ISAL_RECOV_MAX_K_def)
  qed
qed

section \<open>Histories of one CPU\<close>

text \<open>
  \<open>cpu_cache saved_d saved_p cc\<close>: \<open>cc\<close> is the cache of a CPU after some sequence of recovery calls,
  on any stripes and with any outcome of the allocations. It starts as zeroed per-CPU memory.
\<close>

definition cache_init :: isal_cpu_cache where
  "cache_init = \<lparr>cc_valid = False, cc_mode = ISAL_RECOV_2DATA, cc_k = 0, cc_faila = 0, cc_failb = 0,
     cc_tbls = replicate (2 * 32 * 32) 0, cc_enc = replicate (32 * 32) 0, cc_inv = replicate (32 * 32) 0\<rparr>"

inductive cpu_cache ::
    "(nat \<Rightarrow> nat \<Rightarrow> nat \<Rightarrow> nat \<Rightarrow> addr list \<Rightarrow> mem \<Rightarrow> (addr list \<times> mem) option) \<Rightarrow>
     (nat \<Rightarrow> nat \<Rightarrow> nat \<Rightarrow> addr list \<Rightarrow> mem \<Rightarrow> (addr list \<times> mem) option) \<Rightarrow> isal_cpu_cache \<Rightarrow> bool"
  for saved_2data saved_datap where
  init: "cpu_cache saved_2data saved_datap cache_init"
| data2: "cpu_cache saved_2data saved_datap (fst (isal_2data_recov use_avx512 alloc saved_2data disks bytes a b ptrs cc m))"
    if "cpu_cache saved_2data saved_datap cc" "a < disks - 2" "b < disks - 2" "a \<noteq> b"
| datap: "cpu_cache saved_2data saved_datap (fst (isal_datap_recov use_avx512 alloc saved_datap disks bytes a ptrs cc m))"
    if "cpu_cache saved_2data saved_datap cc" "a < disks - 2"

lemma isal_recov_cached_keeps:
  assumes cc: "cache_ok cc" and pat: "pattern mode k faila failb"
  shows "cache_ok (fst (snd (isal_recov_cached use_avx512 mode k faila failb bytes ptrs d0 d1 cc m)))"
proof (cases "k \<le> 32 \<and> (\<not> cc_valid cc \<or> cc_mode cc \<noteq> mode \<or> cc_k cc \<noteq> k \<or> cc_faila cc \<noteq> faila \<or> cc_failb cc \<noteq> failb)")
  case True
  have len: "length (cc_enc cc) = 32 * 32" "length (cc_inv cc) = 32 * 32" "length (cc_tbls cc) = 2 * 32 * 32"
    using cc by (simp_all add: cache_ok_def)
  from True have k: "k \<le> 32" by simp
  obtain enc im tbls where b: "isal_build_tbls mode k faila failb (cc_enc cc) (cc_inv cc) (cc_tbls cc) = (0, enc, im, tbls)"
    "length enc = 32 * 32" "length im = 32 * 32" "length tbls = 2 * 32 * 32" "decodes mode k faila failb tbls"
    using isal_build_tbls_correct [OF pat k len] .
  then show ?thesis using True by (simp add: isal_recov_cached_def Let_def ISAL_CACHE_MAX_K_def cache_ok_def)
qed (use cc in \<open>auto simp: isal_recov_cached_def Let_def ISAL_CACHE_MAX_K_def\<close>)

lemma isal_2data_recov_cache:
  "fst (isal_2data_recov use_avx512 alloc saved disks bytes a b ptrs cc m) =
     (if disks - 2 < 2 then cc else fst (snd (isal_recov_cached use_avx512 ISAL_RECOV_2DATA (disks - 2) a (int b) bytes ptrs
        (ptrs ! a) (ptrs ! b) cc m)))"
  by (simp add: isal_2data_recov_def Let_def split: prod.split sum.split)

lemma isal_datap_recov_cache:
  "fst (isal_datap_recov use_avx512 alloc saved disks bytes a ptrs cc m) =
     (if disks - 2 < 1 then cc else fst (snd (isal_recov_cached use_avx512 ISAL_RECOV_DATAP (disks - 2) a (-1) bytes ptrs
        (ptrs ! a) (ptrs ! (disks - 2)) cc m)))"
  by (simp add: isal_datap_recov_def Let_def split: prod.split sum.split)

lemma cpu_cache_ok: "cpu_cache saved_2data saved_datap cc \<Longrightarrow> cache_ok cc"
proof (induction rule: cpu_cache.induct)
  case init
  show ?case by (simp add: cache_ok_def cache_init_def)
next
  case (data2 cc a disks b)
  then show ?case by (simp add: isal_2data_recov_cache isal_recov_cached_keeps pattern_def)
next
  case (datap cc a disks)
  then show ?case by (simp add: isal_datap_recov_cache isal_recov_cached_keeps pattern_def)
qed

text \<open>A valid entry after any history.\<close>

lemma cpu_cache_decodes:
  assumes "cpu_cache saved_2data saved_datap cc" "cc_valid cc"
  shows "decodes (cc_mode cc) (cc_k cc) (cc_faila cc) (cc_failb cc) (cc_tbls cc)"
  using cpu_cache_ok [OF assms(1)] assms(2) by (simp add: cache_ok_def)

end
