(* ===== verification/Spec2Isabelle.thy ===== *)
theory Spec2Isabelle
  imports Raid6_System ISAL_Recov
begin

text \<open>
  Verification of the RAID-6 arithmetic of the repository: the in-tree syndrome and recovery
  library (\<^verbatim>\<open>src/raid6\<close>), and the ISA-L erasure-code module with its GFNI override of the
  library (\<^verbatim>\<open>src/isa-l\<close>).

  \<^bold>\<open>How the parts interact.\<close> \<^verbatim>\<open>mktables.c\<close> prints the field tables. The syndrome kernels
  (\<^verbatim>\<open>int.uc\<close>, \<^verbatim>\<open>mmx.c\<close>, \<^verbatim>\<open>sse1.c\<close>, \<^verbatim>\<open>sse2.c\<close>, \<^verbatim>\<open>avx2.c\<close>, \<^verbatim>\<open>avx512.c\<close>) compute P and Q of a stripe, or
  update them for a range of disks. The recovery kernels (\<^verbatim>\<open>recov.c\<close>, \<^verbatim>\<open>recov_ssse3.c\<close>,
  \<^verbatim>\<open>recov_avx2.c\<close>, \<^verbatim>\<open>recov_avx512.c\<close>) call \<^verbatim>\<open>raid6_call.gen_syndrome\<close> on a stripe whose failed slots
  point to a zero page and solve for the lost pages. \<^verbatim>\<open>algos.c\<close> picks a pair at start-up.
  \<^verbatim>\<open>raid6_isal.c\<close> replaces the picked routines by GFNI ones, built on the ISA-L kernels and on
  \<^verbatim>\<open>ec_base.c\<close>.

  \<^bold>\<open>Theories.\<close>
  \<^item> \<open>Prelude\<close>: bytes, byte-list access (\<open>get\<close>, \<open>put\<close>), xor sums, and the loop forms of the C code
    (\<open>for_up\<close>, \<open>for_down\<close>, \<open>for_step\<close>, \<open>while_bytes\<close>) with their invariant rules.
  \<^item> \<open>GF256\<close> (\<^verbatim>\<open>mktables.c\<close>): \<open>gfmul\<close>, \<open>gfpow\<close> and the six tables; the field laws; the locale
    \<open>galois_field\<close>, interpreted for \<open>gfmul\<close> and, in \<open>ISAL_Tables\<close>, for \<open>gf_mul\<close>.
  \<^item> \<open>Raid6_Spec\<close>: what a syndrome routine has to do (\<open>gen_syndrome_spec\<close>, \<open>xor_syndrome_spec\<close>); the
    locales \<open>raid6_gen\<close> and \<open>raid6_xor\<close>, the contracts between kernels and their callers. Memory is a
    map from page addresses to byte lists, so pages do not overlap unless two slots of a stripe
    hold the same address, which the well-formedness \<open>stripe_ok\<close> restricts as the callers do.
  \<^item> \<open>Simd_Machine\<close>, \<open>Simd_Kernel\<close>, \<open>Simd_Recov\<close>: the vector instructions that the inline assembly
    uses, at any register width, and the locales that turn facts about one loop body into the
    contract of the kernel.
  \<^item> \<open>Raid6_Int\<close>, \<open>Raid6_MMX\<close>, \<open>Raid6_SSE1\<close>, \<open>Raid6_SSE2\<close>, \<open>Raid6_AVX2\<close>, \<open>Raid6_AVX512\<close>: the syndrome
    kernels, instruction by instruction in the order of the source.
  \<^item> \<open>Raid6_Recov\<close>, \<open>Raid6_Recov_SSSE3\<close>, \<open>Raid6_Recov_AVX2\<close>, \<open>Raid6_Recov_AVX512\<close>: the recovery
    routines, in their 32-bit and 64-bit variants, and the locale \<open>raid6_recov\<close>.
  \<^item> \<open>Raid6_Algos\<close> (\<^verbatim>\<open>algos.c\<close>): the tables of routines, the selection and its failures. The outcome
    of the benchmark (how often a routine ran) and the CPU features are arguments.
  \<^item> \<open>Raid6_System\<close>: sequences of operations through the installed routines.
  \<^item> \<open>ISAL_Tables\<close>, \<open>ISAL_Matrix\<close>, \<open>ISAL_Base\<close> (\<^verbatim>\<open>ec_base.c\<close>, \<^verbatim>\<open>ec_base.h\<close>): the log, antilog and affine
    tables as printed in the source, the coding matrices, Gauss-Jordan inversion, the byte-wise
    encoders.
  \<^item> \<open>ISAL_GFNI\<close>, \<open>ISAL_Dot512\<close>, \<open>ISAL_Dot256\<close>, \<open>ISAL_Mad\<close>: the affine instruction and the dot-product
    and multiply-add kernels with their tails; the locales \<open>dot_kernel\<close> and \<open>mad_kernel\<close>.
  \<^item> \<open>ISAL_Glue\<close> (\<^verbatim>\<open>gfni_glue.c\<close>): the dispatchers that peel rows over the kernels.
  \<^item> \<open>ISAL_Raid6\<close>, \<open>ISAL_Recov\<close> (\<^verbatim>\<open>raid6_isal.c\<close>): syndromes and recovery by GFNI, with the per-CPU
    cache as a state machine.

  \<^bold>\<open>What is shown.\<close> C1 and C2 join start-up, generation, loss and recovery. C3 to C7 relate each
  kernel to its contract. C8 to C13 cover selection, error paths and tables. C14 to C18 are about
  the GFNI override, C19 to C23 about the erasure-code library under it.

  \<^bold>\<open>Bounds.\<close> The kernels are proved for every disk count from 4 on (at least two data disks, as the
  pipelined kernels read slot \<^verbatim>\<open>z0-1\<close> first) and every length that is a multiple of their
  step; recovery for up to 257 disks, the limit of the field. The GFNI routines are proved for
  lengths that are no multiple of anything and, as the code guards it, for 32 data disks
  (syndromes) and 64 (recovery). Lengths are at most \<open>2 ^ 31 - 256\<close> (part of \<open>stripe_ok\<close>): the
  kernels count bytes in an \<^verbatim>\<open>int\<close>, written as a natural number, which does not overflow there, and
  the cast \<^verbatim>\<open>(int)bytes\<close> of the override (\<open>int_len\<close>) is exact. Kernel callers pass pages.
  The vector recovery loops count down in a \<^verbatim>\<open>size_t\<close> that wraps around; \<open>while_bytes\<close> has the wrap
  and ends with \<open>None\<close> in the turn that leaves the shortest page (\<open>shortest\<close>). All other loops of
  the library are total functions. No fuel is used.

  \<^bold>\<open>Parameters.\<close> CPU features, benchmark results, the success of each allocation, the content of the
  vector registers at entry. \<^verbatim>\<open>kernel_fpu_begin\<close> and \<^verbatim>\<open>kernel_fpu_end\<close> are modelled by the latter;
  prefetches and fences change no state of the model.

  \<^bold>\<open>Not modelled.\<close> The kernels for other architectures (\<^verbatim>\<open>altivec.uc\<close>, \<^verbatim>\<open>neon.uc\<close>, \<^verbatim>\<open>s390vx.uc\<close>,
  \<^verbatim>\<open>vpermxor.uc\<close>, \<^verbatim>\<open>loongarch_simd.c\<close> and their recovery files), whose instruction sets need machine
  models of their own; the micro-benchmarks and module glue; the md and device-mapper drivers
  under \<^verbatim>\<open>src/md\<close>, which are block-layer code over kernel interfaces that are not in the repository
  (bio, workqueues, locks, RCU).
\<close>

section \<open>Sample data for the concrete instances\<close>

definition demo_fpu :: "nat \<Rightarrow> simd" where
  "demo_fpu w = \<lparr>vreg = (\<lambda>_. replicate w 7), kreg = (\<lambda>_. []), dram = (\<lambda>_. [])\<rparr>"

definition demo_mem :: "nat \<Rightarrow> mem" where
  "demo_mem n a = replicate n (if a < 5 then of_nat (a + 1) else 0)"

definition demo_globals :: raid6_globals where
  "demo_globals = \<lparr>raid6_call = None, raid6_2data_recov = None, raid6_datap_recov = None\<rparr>"

definition demo_ptrs :: "addr list" where
  "demo_ptrs = [0, 1, 2, 3, 4]"

lemma less_5_cases: "i < 5 \<longleftrightarrow> i \<in> {0, 1, 2, 3, 4 :: nat}"
  by auto

lemma less_3_cases: "i < 3 \<longleftrightarrow> i \<in> {0, 1, 2 :: nat}"
  by auto

lemma demo_fpu [simp]: "any_fpu demo_fpu"
  by (simp add: any_fpu_def wf_regs_def demo_fpu_def)

lemma length_demo_mem [simp]: "length (demo_mem n a) = n"
  by (simp add: demo_mem_def)

lemma demo_stripe [simp]:
  "n \<le> 4096 \<Longrightarrow> stripe_ok 5 n demo_ptrs (demo_mem n)"
  by (auto simp: stripe_ok_def demo_ptrs_def less_5_cases less_3_cases)

lemma demo_zero_page [simp]: "zero_page n 9 demo_ptrs (demo_mem n)"
  by (simp add: zero_page_def demo_ptrs_def) (simp add: demo_mem_def)

lemma demo_overwritten:
  "length ys = length (m 0) \<Longrightarrow> length zs = length (m 1) \<Longrightarrow>
   overwritten 5 {0, 1} 9 demo_ptrs m (m(0 := ys, 1 := zs))"
  "length ys = length (m 0) \<Longrightarrow> length zs = length (m 3) \<Longrightarrow>
   overwritten 5 {0, 5 - 2} 9 demo_ptrs m (m(0 := ys, 3 := zs))"
  by (auto simp: overwritten_def demo_ptrs_def less_5_cases less_3_cases)

lemmas demo_overwritten_simps = demo_overwritten [simplified]

lemma demo_select:
  "raid6_select_algo False False (\<lambda>_. False) (\<lambda>_. 0) 0 demo_fpu (Some [0, 1, 2, 3, 4, 5, 6, 7])
     demo_globals m =
   (Inr (), demo_globals\<lparr>raid6_call := Some raid6_intx8, raid6_2data_recov := Some (data2 raid6_recov_intx1),
      raid6_datap_recov := Some (datap raid6_recov_intx1)\<rparr>,
    fill_pages [0, 1, 2, 3, 4, 5] 0 m)"
  by (simp add: raid6_select_algo_def raid6_choose_gen_def raid6_algos_defs raid6_choose_recov_def
      raid6_recov_algos_def Let_def usable_def calls_defs recov_defs RAID6_TEST_DISKS_def
      raid6_have_sse2_def raid6_have_avx2_def raid6_has_ssse3_def raid6_has_avx2_def)

lemma demo_intx8_length:
  "length (gen_syndrome raid6_intx8 demo_fpu 5 n demo_ptrs (demo_mem n) a) = n"
  if "256 dvd n" "n \<le> 4096"
proof -
  have "raid6_intx8 \<in> set (raid6_algos False)" by (simp add: raid6_algos_defs)
  then have "gen_syndrome raid6_intx8 demo_fpu 5 n demo_ptrs (demo_mem n) =
      gen_syndrome_spec 5 n demo_ptrs (demo_mem n)"
    using raid6_gen.gen_syndrome [OF calls_ok_gen [OF raid6_algos_ok]] demo_fpu demo_stripe [OF that(2)] that(1) by blast
  then show ?thesis using that(2) by (simp add: gen_syndrome_spec_length)
qed

lemma demo_lost:
  "lost 5 64 {0, 1} 9 demo_ptrs (gen_syndrome_spec 5 64 demo_ptrs (demo_mem 64))
     ((gen_syndrome_spec 5 64 demo_ptrs (demo_mem 64))(0 := replicate 64 0xee, 1 := replicate 64 0x33))"
  "lost 5 64 {0, 5 - 2} 9 demo_ptrs (gen_syndrome_spec 5 64 demo_ptrs (demo_mem 64))
     ((gen_syndrome_spec 5 64 demo_ptrs (demo_mem 64))(0 := replicate 64 0xee, 3 := replicate 64 0x55))"
  by (rule lost_generated; use demo_overwritten in \<open>simp add: gen_syndrome_spec_length\<close>)+

definition demo_wide :: mem where
  "demo_wide a = replicate 256 (if a = 33 then 1 else 0)"

lemma demo_wide: "stripe_ok 35 256 [0..<35] demo_wide" "\<not> synced 35 256 [0..<35] demo_wide"
proof -
  show "stripe_ok 35 256 [0..<35] demo_wide" by (auto simp: stripe_ok_def demo_wide_def)
  have "demo_wide ([0..<35] ! 33) ! 0 = 1" by (simp add: demo_wide_def)
  moreover have "pbyte 0 33 [0..<35] demo_wide 0 = 0"
    unfolding pbyte_def xsum_range_def by (rule xsum_zero_all) (simp add: demo_wide_def)
  ultimately show "\<not> synced 35 256 [0..<35] demo_wide" by (auto simp: synced_def intro!: exI [of _ 0])
qed

text \<open>
  C1. Whatever raid6_select_algo installs at start-up protects against two lost data pages:
  a stripe whose P and Q the installed gen_syndrome wrote is read back completely by the
  installed raid6_2data_recov after any two data pages were overwritten, the pointer table
  is as before, and neither depends on what the vector registers held.
\<close>

theorem startup_protects_data2:
  assumes "raid6_select_algo as_avx512 bench has perf xperf fpu dptrs g0 mem0 = (Inr (), g, mem1)"
    and "raid6_call g = Some c" "raid6_2data_recov g = Some recov"
    and "any_fpu f1" "any_fpu f2" "any_fpu f3"
    and "stripe_ok disks bytes ptrs m" "disks \<le> 257" "256 dvd bytes" "zero_page bytes zp ptrs m"
    and "a < b" "b < disks - 2"
    and "overwritten disks {a, b} zp ptrs (gen_syndrome c f1 disks bytes ptrs m) m'"
  shows "\<exists>r. recov (gen_syndrome c f2) zp f3 disks bytes a b ptrs m' = Some (ptrs, r) \<and>
    (\<forall>z<disks. take bytes (r (ptrs ! z)) =
       take bytes (gen_syndrome c f1 disks bytes ptrs m (ptrs ! z)))"
proof -
  obtain c' rc where "raid6_call g = Some c'" "raid6_2data_recov g = Some (data2 rc)"
    "raid6_datap_recov g = Some (datap rc)" "c' \<in> set (raid6_algos as_avx512)"
    "rc \<in> set (raid6_recov_algos as_avx512)"
    by (rule raid6_select_algo_inv [OF assms(1)])
  then have c: "c \<in> set (raid6_algos as_avx512)" and rc: "rc \<in> set (raid6_recov_algos as_avx512)"
    and recov: "recov = data2 rc"
    using assms(2,3) by simp_all
  show ?thesis
    unfolding recov
    by (rule protected_data2 [OF raid6_algos_ok [OF c] raid6_recov_algos_ok [OF rc] assms(4-13)]) blast
qed

theorem startup_protects_data2_witness:
  "let m = demo_mem 256; ptrs = demo_ptrs;
       g = gen_syndrome raid6_intx8 demo_fpu 5 256 ptrs m
   in \<exists>r. data2 raid6_recov_intx1 (gen_syndrome raid6_intx8 demo_fpu) 9 demo_fpu 5 256 0 1 ptrs
            (g(0 := replicate 256 0, 1 := replicate 256 1)) = Some (ptrs, r) \<and>
          (\<forall>z<5. take 256 (r (ptrs ! z)) = take 256 (g (ptrs ! z)))"
  unfolding Let_def
  by (rule startup_protects_data2 [OF demo_select [of "\<lambda>_. []"], where c = raid6_intx8 and
        recov = "data2 raid6_recov_intx1" and ?f1.0 = demo_fpu and ?f2.0 = demo_fpu and ?f3.0 = demo_fpu and
        m = "demo_mem 256" and disks = 5 and bytes = 256 and ptrs = demo_ptrs and zp = 9 and a = 0 and b = 1 ])
    (simp_all add: demo_overwritten_simps demo_intx8_length)

text \<open>
  C2. Whatever raid6_select_algo installs at start-up protects against the loss of one data
  page together with P: the installed raid6_datap_recov brings back both pages of a stripe
  written by the installed gen_syndrome.
\<close>

theorem startup_protects_datap:
  assumes "raid6_select_algo as_avx512 bench has perf xperf fpu dptrs g0 mem0 = (Inr (), g, mem1)"
    and "raid6_call g = Some c" "raid6_datap_recov g = Some recov"
    and "any_fpu f1" "any_fpu f2" "any_fpu f3"
    and "stripe_ok disks bytes ptrs m" "disks \<le> 257" "256 dvd bytes" "zero_page bytes zp ptrs m"
    and "a < disks - 2"
    and "overwritten disks {a, disks - 2} zp ptrs (gen_syndrome c f1 disks bytes ptrs m) m'"
  shows "\<exists>r. recov (gen_syndrome c f2) zp f3 disks bytes a ptrs m' = Some (ptrs, r) \<and>
    (\<forall>z<disks. take bytes (r (ptrs ! z)) =
       take bytes (gen_syndrome c f1 disks bytes ptrs m (ptrs ! z)))"
proof -
  obtain c' rc where "raid6_call g = Some c'" "raid6_2data_recov g = Some (data2 rc)"
    "raid6_datap_recov g = Some (datap rc)" "c' \<in> set (raid6_algos as_avx512)"
    "rc \<in> set (raid6_recov_algos as_avx512)"
    by (rule raid6_select_algo_inv [OF assms(1)])
  then have c: "c \<in> set (raid6_algos as_avx512)" and rc: "rc \<in> set (raid6_recov_algos as_avx512)"
    and recov: "recov = datap rc"
    using assms(2,3) by simp_all
  show ?thesis
    unfolding recov
    by (rule protected_datap [OF raid6_algos_ok [OF c] raid6_recov_algos_ok [OF rc] assms(4-12)]) blast
qed

theorem startup_protects_datap_witness:
  "let m = demo_mem 256; ptrs = demo_ptrs;
       g = gen_syndrome raid6_intx8 demo_fpu 5 256 ptrs m
   in \<exists>r. datap raid6_recov_intx1 (gen_syndrome raid6_intx8 demo_fpu) 9 demo_fpu 5 256 0 ptrs
            (g(0 := replicate 256 0, 3 := replicate 256 1)) = Some (ptrs, r) \<and>
          (\<forall>z<5. take 256 (r (ptrs ! z)) = take 256 (g (ptrs ! z)))"
  unfolding Let_def
  by (rule startup_protects_datap [OF demo_select [of "\<lambda>_. []"], where c = raid6_intx8 and
        recov = "datap raid6_recov_intx1" and ?f1.0 = demo_fpu and ?f2.0 = demo_fpu and ?f3.0 = demo_fpu and
        m = "demo_mem 256" and disks = 5 and bytes = 256 and ptrs = demo_ptrs and zp = 9 and a = 0 ])
    (simp_all add: demo_overwritten_simps demo_intx8_length)

text \<open>
  C3. Every gen_syndrome routine in the table raid6_algos (AVX-512, AVX2, SSE2 and integer
  kernels, at every unrolling) writes exactly the XOR of the data pages to P and their sum
  weighted with the powers of the generator to Q, whatever the vector registers held on
  entry, and changes nothing else.
\<close>

theorem raid6_algos_gen_syndrome:
  assumes "c \<in> set (raid6_algos as_avx512)" "any_fpu fpu" "stripe_ok disks bytes ptrs m" "256 dvd bytes"
  shows "gen_syndrome c fpu disks bytes ptrs m = gen_syndrome_spec disks bytes ptrs m"
  using raid6_gen.gen_syndrome [OF calls_ok_gen [OF raid6_algos_ok [OF assms(1)]]] assms(2-4) by blast

theorem raid6_algos_gen_syndrome_witness:
  "raid6_avx512x4 \<in> set (raid6_algos True) \<and>
   gen_syndrome raid6_avx512x4 demo_fpu 5 256 demo_ptrs (demo_mem 256) =
     gen_syndrome_spec 5 256 demo_ptrs (demo_mem 256)"
  using raid6_algos_gen_syndrome [of raid6_avx512x4 True demo_fpu 5 256 demo_ptrs "demo_mem 256"]
  by (simp add: raid6_algos_defs)

text \<open>
  C4. Every xor_syndrome routine in the table raid6_algos adds the contribution of the data
  pages start..stop to the P and Q already present, and changes nothing else.
\<close>

theorem raid6_algos_xor_syndrome:
  assumes "c \<in> set (raid6_algos as_avx512)" "any_fpu fpu" "stripe_ok disks bytes ptrs m" "256 dvd bytes"
    and "start \<le> stop" "stop < disks - 2"
  shows "\<exists>x. xor_syndrome c = Some x \<and>
    x fpu disks start stop bytes ptrs m = xor_syndrome_spec disks start stop bytes ptrs m"
  using raid6_algos_ok [OF assms(1)] raid6_xor.xor_syndrome [of "gen_syndrome c" any_fpu 256] assms(2-6)
  unfolding calls_ok_def by blast

theorem raid6_algos_xor_syndrome_witness:
  "\<exists>x. xor_syndrome raid6_sse2x4 = Some x \<and>
     x demo_fpu 5 1 2 256 demo_ptrs (demo_mem 256) =
     xor_syndrome_spec 5 1 2 256 demo_ptrs (demo_mem 256)"
  using raid6_algos_xor_syndrome [of raid6_sse2x4 False demo_fpu 5 256 demo_ptrs "demo_mem 256" 1 2]
  by (simp add: raid6_algos_defs)

text \<open>
  C5. Read-modify-write keeps a stripe in sync: calling xor_syndrome over a range of data
  pages, rewriting those pages with anything, and calling xor_syndrome again leaves P and Q
  equal to the syndromes of the new data, for every routine of the table.
\<close>

theorem raid6_rmw_keeps_sync:
  assumes "c \<in> set (raid6_algos as_avx512)" "any_fpu f1" "any_fpu f2" "xor_syndrome c = Some x"
    and "stripe_ok disks bytes ptrs m" "256 dvd bytes" "start \<le> stop" "stop < disks - 2"
    and "synced disks bytes ptrs m"
    and "rewritten disks start stop ptrs (x f1 disks start stop bytes ptrs m) m'"
  shows "synced disks bytes ptrs (x f2 disks start stop bytes ptrs m')"
proof -
  have spec: "x f disks start stop bytes ptrs m = xor_syndrome_spec disks start stop bytes ptrs m"
    if "any_fpu f" "stripe_ok disks bytes ptrs m" for f m
    using raid6_algos_ok [OF assms(1)] raid6_xor.xor_syndrome [of "gen_syndrome c" any_fpu 256 x] that assms(4,6-8)
    unfolding calls_ok_def by auto
  have "stripe_ok disks bytes ptrs (xor_syndrome_spec disks start stop bytes ptrs m)"
    by (rule stripe_ok_upd [OF assms(5)]) (rule xor_syndrome_spec_length [OF assms(5)])
  then show ?thesis
    using read_modify_write [OF assms(5,9,8), of start m'] assms(10) rewritten_stripe
    by (simp add: spec assms(2,3,5))
qed

theorem raid6_rmw_keeps_sync_witness:
  "let m = gen_syndrome_spec 5 256 demo_ptrs (demo_mem 256);
       x = (\<lambda>fpu. raid6_avx22_xor_syndrome (fpu 32));
       m' = (x demo_fpu 5 0 1 256 demo_ptrs m)(0 := replicate 256 99)
   in synced 5 256 demo_ptrs (x demo_fpu 5 0 1 256 demo_ptrs m')"
proof -
  let ?m = "gen_syndrome_spec 5 256 demo_ptrs (demo_mem 256)"
  let ?x = "\<lambda>fpu. raid6_avx22_xor_syndrome (fpu 32)"
  have c: "raid6_avx2x2 \<in> set (raid6_algos False)" "xor_syndrome raid6_avx2x2 = Some ?x"
    by (simp_all add: raid6_algos_defs raid6_avx2x2_def)
  have ok: "stripe_ok 5 256 demo_ptrs ?m"
    by (rule stripe_ok_upd [OF demo_stripe]) (simp_all add: gen_syndrome_spec_length)
  have "length (?x demo_fpu 5 0 1 256 demo_ptrs ?m a) = 256" for a
    using avx2x2.xor_syndrome [of "demo_fpu 32" 5 256 demo_ptrs ?m 0 1] ok demo_fpu
    by (simp add: any_fpu_def xor_syndrome_spec_length gen_syndrome_spec_length)
  then have "rewritten 5 0 1 demo_ptrs (?x demo_fpu 5 0 1 256 demo_ptrs ?m)
      ((?x demo_fpu 5 0 1 256 demo_ptrs ?m)(0 := replicate 256 99))"
    by (auto simp: rewritten_def demo_ptrs_def less_5_cases less_3_cases)
  then show ?thesis
    unfolding Let_def
    by (rule raid6_rmw_keeps_sync [OF c(1) demo_fpu demo_fpu c(2) ok, rotated -1])
      (simp_all add: gen_syndrome_spec_synced)
qed

text \<open>
  C6. The 32-bit forms of the SSSE3, AVX2 and AVX-512 two-page recoveries restore both lost
  data pages byte for byte, and the pointer table, over the gen_syndrome of every entry of
  the 64-bit table and every vector entry, MMX and SSE-1 included, of the 32-bit table;
  other data slots may share a page.
\<close>

theorem raid6_recov_32bit:
  assumes "c \<in> set (raid6_algos as_avx512) \<union> set (raid6_algos_i386 as_avx512)" "any_fpu r" "any_fpu fpu"
    and "lost disks bytes {a, b} zp ptrs m0 m" "a < b" "b < disks - 2" "256 dvd bytes"
    and "recov \<in> {raid6_2data_recov_ssse3_x1 (gen_syndrome c r) zp (fpu 16),
                   raid6_2data_recov_avx2_x1 (gen_syndrome c r) zp (fpu 32),
                   raid6_2data_recov_avx512_x1 (gen_syndrome c r) zp (fpu 64)}"
  shows "recov disks bytes a b ptrs m = Some (ptrs, restored bytes [ptrs ! a, ptrs ! b] m0 m)"
proof -
  have gen: "raid6_gen (gen_syndrome c) any_fpu 256"
    using assms(1) calls_ok_gen [OF raid6_algos_ok] raid6_algos_i386_gen by blast
  have "raid6_2data_recov_ssse3_x1 (gen_syndrome c r) zp (fpu 16) disks bytes a b ptrs m =
      Some (ptrs, restored bytes [ptrs ! a, ptrs ! b] m0 m)"
    using raid6_recov.data2 [OF raid6_gen.ssse3x1_recov [OF gen], of "(r, fpu 16)", OF _ assms(4-6)]
      assms(2,3,7) by (simp add: any_fpu_def)
  moreover have "raid6_2data_recov_avx2_x1 (gen_syndrome c r) zp (fpu 32) disks bytes a b ptrs m =
      Some (ptrs, restored bytes [ptrs ! a, ptrs ! b] m0 m)"
    using raid6_recov.data2 [OF raid6_gen.avx2x1_recov [OF gen], of "(r, fpu 32)", OF _ assms(4-6)]
      assms(2,3,7) by (simp add: any_fpu_def)
  moreover have "raid6_2data_recov_avx512_x1 (gen_syndrome c r) zp (fpu 64) disks bytes a b ptrs m =
      Some (ptrs, restored bytes [ptrs ! a, ptrs ! b] m0 m)"
    using raid6_recov.data2 [OF raid6_gen.avx512x1_recov [OF gen], of "(r, fpu 64)", OF _ assms(4-6)]
      assms(2,3,7) by (simp add: any_fpu_def)
  ultimately show ?thesis using assms(8) by auto
qed

theorem raid6_recov_32bit_witness:
  "let ptrs = demo_ptrs; m0 = gen_syndrome_spec 5 256 ptrs (demo_mem 256);
       m = m0(0 := replicate 256 0, 1 := replicate 256 1)
   in raid6_2data_recov_avx2_x1 (gen_syndrome raid6_mmxx1 demo_fpu) 9 (demo_fpu 32) 5 256 0 1 ptrs m =
      Some (ptrs, restored 256 [0, 1] m0 m)"
proof -
  let ?m0 = "gen_syndrome_spec 5 256 demo_ptrs (demo_mem 256)"
  have "lost 5 256 {0, 1} 9 demo_ptrs ?m0 (?m0(0 := replicate 256 0, 1 := replicate 256 1))"
    by (rule lost_generated) (simp_all add: demo_overwritten_simps gen_syndrome_spec_length)
  moreover have "raid6_mmxx1 \<in> set (raid6_algos False) \<union> set (raid6_algos_i386 False)" by (simp add: raid6_algos_i386_def)
  ultimately show ?thesis
    using raid6_recov_32bit [OF _ demo_fpu demo_fpu, of raid6_mmxx1 False 5 256 0 1 9 demo_ptrs ?m0
      "?m0(0 := replicate 256 0, 1 := replicate 256 1)" "raid6_2data_recov_avx2_x1 (gen_syndrome raid6_mmxx1 demo_fpu) 9 (demo_fpu 32)"]
    by (simp add: Let_def demo_ptrs_def)
qed

text \<open>
  C7. The MMX and SSE-1 gen_syndrome routines of the 32-bit table compute the same P and Q
  as the specification.
\<close>

theorem raid6_mmx_sse1_gen_syndrome:
  assumes "c \<in> {raid6_mmxx1, raid6_mmxx2, raid6_sse1x1, raid6_sse1x2}"
    and "any_fpu fpu" "stripe_ok disks bytes ptrs m" "256 dvd bytes"
  shows "gen_syndrome c fpu disks bytes ptrs m = gen_syndrome_spec disks bytes ptrs m"
  using raid6_gen.gen_syndrome [OF mmx_calls_gen [OF assms(1)]] assms(2-4) by blast

theorem raid6_mmx_sse1_gen_syndrome_witness:
  "gen_syndrome raid6_sse1x2 demo_fpu 5 256 demo_ptrs (demo_mem 256) =
   gen_syndrome_spec 5 256 demo_ptrs (demo_mem 256)"
  using raid6_mmx_sse1_gen_syndrome [of raid6_sse1x2 demo_fpu 5 256 demo_ptrs "demo_mem 256"]
  by simp

text \<open>
  C8. raid6_choose_recov always finds a recovery routine; the one it picks is in the table,
  is usable on this processor, and has the highest priority among the usable ones.
\<close>

theorem raid6_choose_recov_highest:
  "\<exists>rc. raid6_choose_recov as_avx512 has = Some rc \<and> rc \<in> set (raid6_recov_algos as_avx512) \<and>
     usable (rvalid rc) has \<and>
     (\<forall>a. a \<in> set (raid6_recov_algos as_avx512) \<and> usable (rvalid a) has \<longrightarrow> rpriority a \<le> rpriority rc)"
proof -
  obtain rc where "raid6_choose_recov as_avx512 has = Some rc"
    using raid6_choose_recov_some by blast
  with raid6_choose_recov_best [OF this] show ?thesis by blast
qed

theorem raid6_choose_recov_highest_witness:
  "\<exists>rc. raid6_choose_recov True (\<lambda>f. f \<noteq> AVX512F) = Some rc \<and> rpriority raid6_recov_avx2 \<le> rpriority rc"
proof -
  have "raid6_recov_avx2 \<in> set (raid6_recov_algos True)" by (simp add: raid6_recov_algos_def)
  moreover have "usable (rvalid raid6_recov_avx2) (\<lambda>f. f \<noteq> AVX512F)"
    by (simp add: usable_def raid6_recov_avx2_def raid6_has_avx2_def)
  ultimately show ?thesis
    using raid6_choose_recov_highest [of True "\<lambda>f. f \<noteq> AVX512F"] by blast
qed

text \<open>
  C9. raid6_select_algo fails in two ways only: with ENOMEM when the scratch pages cannot be
  allocated, leaving the globals and memory alone; or with EINVAL when the benchmark is on
  and no usable gen_syndrome routine completed a single run. In the second case raid6_call
  is unchanged, although both recovery pointers are set to the routines of the entry that
  raid6_choose_recov chose.
\<close>

theorem raid6_select_algo_failure:
  assumes "raid6_select_algo as_avx512 bench has perf xperf fpu dptrs g m = (Inl e, g', m')"
  shows "(dptrs = None \<and> e = ENOMEM \<and> g' = g \<and> m' = m) \<or>
    (dptrs \<noteq> None \<and> e = EINVAL \<and> bench \<and>
     (\<forall>a. a \<in> set (raid6_algos as_avx512) \<and> usable (valid a) has \<longrightarrow> perf a = 0) \<and>
     raid6_call g' = raid6_call g \<and>
     (\<exists>rc. raid6_choose_recov as_avx512 has = Some rc \<and> raid6_2data_recov g' = Some (data2 rc) \<and>
        raid6_datap_recov g' = Some (datap rc)))"
proof (cases dptrs)
  case None
  with assms show ?thesis by (simp add: raid6_select_algo_def)
next
  case (Some ds)
  obtain rc where rc: "raid6_choose_recov as_avx512 has = Some rc"
    using raid6_choose_recov_some by blast
  have "bench \<and> perf a = 0" if "a \<in> set (raid6_algos as_avx512)" "usable (valid a) has" for a
  proof (rule ccontr)
    assume "\<not> (bench \<and> perf a = 0)"
    then have "bench \<Longrightarrow> 0 < perf a" by simp
    then show False
      by (rule raid6_select_algo_installs [where bench = bench and perf = perf and xperf = xperf and fpu = fpu
            and dptrs = ds and g = g and m = m, OF that])
        (use assms Some in auto)
  qed
  moreover from this have bench using raid6_algos_int by blast
  ultimately show ?thesis
    using assms by (auto simp: raid6_select_algo_def Let_def Some rc split: prod.splits if_splits)
qed

theorem raid6_select_algo_failure_witness:
  "raid6_select_algo True True (\<lambda>_. True) (\<lambda>_. 0) 0 demo_fpu None demo_globals (demo_mem 8) =
     (Inl ENOMEM, demo_globals, demo_mem 8) \<and>
   (\<exists>g' m' rc. raid6_select_algo False True (\<lambda>_. False) (\<lambda>_. 0) 0 demo_fpu (Some [0, 1, 2, 3, 4, 5, 6, 7]) demo_globals (demo_mem 8) =
      (Inl EINVAL, g', m') \<and> raid6_call g' = raid6_call demo_globals \<and>
      raid6_choose_recov False (\<lambda>_. False) = Some rc \<and> raid6_2data_recov g' = Some (data2 rc) \<and> raid6_datap_recov g' = Some (datap rc))"
proof -
  have "\<exists>g' m'. raid6_select_algo False True (\<lambda>_. False) (\<lambda>_. 0) 0 demo_fpu (Some [0, 1, 2, 3, 4, 5, 6, 7]) demo_globals (demo_mem 8) =
      (Inl EINVAL, g', m')"
    by (simp add: raid6_select_algo_def raid6_choose_gen_def raid6_algos_defs Let_def usable_def calls_defs
        RAID6_TEST_DISKS_def raid6_have_sse2_def raid6_have_avx2_def)
  then obtain g' m' where r: "raid6_select_algo False True (\<lambda>_. False) (\<lambda>_. 0) 0 demo_fpu (Some [0, 1, 2, 3, 4, 5, 6, 7]) demo_globals
      (demo_mem 8) = (Inl EINVAL, g', m')" by blast
  have "raid6_select_algo True True (\<lambda>_. True) (\<lambda>_. 0) 0 demo_fpu None demo_globals (demo_mem 8) =
      (Inl ENOMEM, demo_globals, demo_mem 8)" by (simp add: raid6_select_algo_def)
  with raid6_select_algo_failure [OF r] r show ?thesis by blast
qed

text \<open>
  C10. raid6_dual_recov gives the same result for the two failed slots in either order: it
  restores two data pages, restores a data page and P, and recomputes P and Q from the data
  when both are lost; for a data page and Q it leaves the stripe as it is, the case its
  comment marks as not implemented.
\<close>

theorem raid6_dual_recov_slots:
  assumes "c \<in> set (raid6_algos as_avx512)" "rc \<in> set (raid6_recov_algos as_avx512)"
    and "any_fpu r" "any_fpu f" "256 dvd bytes" "stripe_ok disks bytes ptrs m"
    and "dual = raid6_dual_recov (gen_syndrome c r) (data2 rc (gen_syndrome c r) zp f)
           (datap rc (gen_syndrome c r) zp f)"
  shows "(lost disks bytes {a, b} zp ptrs m0 m \<and> a \<noteq> b \<and> a < disks - 2 \<and> b < disks - 2 \<longrightarrow>
      dual disks bytes a b ptrs m = Some (ptrs, restored bytes [ptrs ! a, ptrs ! b] m0 m) \<and>
      dual disks bytes b a ptrs m = Some (ptrs, restored bytes [ptrs ! a, ptrs ! b] m0 m)) \<and>
    (lost disks bytes {a, disks - 2} zp ptrs m0 m \<and> a < disks - 2 \<longrightarrow>
      dual disks bytes a (disks - 2) ptrs m = Some (ptrs, restored bytes [ptrs ! (disks - 2), ptrs ! a] m0 m) \<and>
      dual disks bytes (disks - 2) a ptrs m = Some (ptrs, restored bytes [ptrs ! (disks - 2), ptrs ! a] m0 m)) \<and>
    dual disks bytes (disks - 2) (disks - 1) ptrs m = Some (ptrs, gen_syndrome_spec disks bytes ptrs m) \<and>
    dual disks bytes (disks - 1) (disks - 2) ptrs m = Some (ptrs, gen_syndrome_spec disks bytes ptrs m) \<and>
    (a < disks - 2 \<longrightarrow> dual disks bytes a (disks - 1) ptrs m = Some (ptrs, m) \<and>
      dual disks bytes (disks - 1) a ptrs m = Some (ptrs, m))"
proof -
  note gen = calls_ok_gen [OF raid6_algos_ok [OF assms(1)]]
  note rok = raid6_recov_algos_ok [OF assms(2)]
  have d: "4 \<le> disks" using stripe_ok_disks [OF assms(6)] by simp
  have sym: "dual disks bytes x y ptrs m = dual disks bytes y x ptrs m" for x y
    unfolding assms(7) by (rule raid6_dual_recov_sym)
  have data2: "dual disks bytes x y ptrs m = Some (ptrs, restored bytes [ptrs ! x, ptrs ! y] m0 m)"
    if "lost disks bytes {x, y} zp ptrs m0 m" "x < y" "y < disks - 2" for x y
    using that recov_ok_data2 [OF rok gen assms(3,4), of disks bytes x y] assms(5)
    unfolding assms(7) by (auto simp: raid6_dual_recov_def)
  have "dual disks bytes a b ptrs m = Some (ptrs, restored bytes [ptrs ! a, ptrs ! b] m0 m)"
    if l: "lost disks bytes {a, b} zp ptrs m0 m" "a \<noteq> b" "a < disks - 2" "b < disks - 2"
  proof (cases "a < b")
    case False
    then have "dual disks bytes b a ptrs m = Some (ptrs, restored bytes [ptrs ! b, ptrs ! a] m0 m)"
      using l by (intro data2) (auto simp: insert_commute)
    then show ?thesis by (simp add: sym [of a b] restored_def disj_commute)
  qed (use l data2 in simp)
  moreover have "dual disks bytes (disks - 2) a ptrs m = Some (ptrs, restored bytes [ptrs ! (disks - 2), ptrs ! a] m0 m)"
    if "lost disks bytes {a, disks - 2} zp ptrs m0 m" "a < disks - 2"
    using that recov_ok_datap [OF rok gen assms(3,4), of disks bytes a] assms(5) d
    unfolding assms(7) by (auto simp: raid6_dual_recov_def)
  moreover have "dual disks bytes (disks - 1) (disks - 2) ptrs m = Some (ptrs, gen_syndrome_spec disks bytes ptrs m)"
    using raid6_gen.dual_recov_pq [OF gen] assms(3,5,6) unfolding assms(7) by blast
  moreover have "dual disks bytes a (disks - 1) ptrs m = Some (ptrs, m)" if "a < disks - 2"
    using that unfolding assms(7) by (auto simp: raid6_dual_recov_def)
  ultimately show ?thesis using sym by metis
qed

theorem raid6_dual_recov_slots_witness:
  "\<exists>m0 m. let gen = gen_syndrome raid6_intx1 demo_fpu;
       dual = raid6_dual_recov gen (data2 raid6_recov_avx2 gen 9 demo_fpu) (datap raid6_recov_avx2 gen 9 demo_fpu)
   in lost 5 256 {0, 1} 9 demo_ptrs m0 m \<and>
      dual 5 256 0 1 demo_ptrs m = Some (demo_ptrs, restored 256 [0, 1] m0 m) \<and>
      dual 5 256 1 0 demo_ptrs m = Some (demo_ptrs, restored 256 [0, 1] m0 m) \<and>
      dual 5 256 4 3 demo_ptrs m = Some (demo_ptrs, gen_syndrome_spec 5 256 demo_ptrs m) \<and>
      dual 5 256 4 0 demo_ptrs m = Some (demo_ptrs, m)"
proof -
  let ?old = "gen_syndrome_spec 5 256 demo_ptrs (demo_mem 256)" and ?gen = "gen_syndrome raid6_intx1 demo_fpu"
  let ?new = "?old(0 := replicate 256 0, 1 := replicate 256 1)"
  have l: "lost 5 256 {0, 1} 9 demo_ptrs ?old ?new"
    by (rule lost_generated) (simp_all add: demo_overwritten_simps gen_syndrome_spec_length)
  then have "stripe_ok 5 256 demo_ptrs ?new" by (simp add: lost_def)
  from raid6_dual_recov_slots [OF raid6_algos_int(1) [of False] _ demo_fpu demo_fpu _ this refl,
      where rc = raid6_recov_avx2 and zp = 9 and a = 0 and b = 1 and ?m0.0 = ?old] l
  show ?thesis
    by (intro exI [of _ ?old] exI [of _ ?new]) (simp add: raid6_recov_algos_def Let_def demo_ptrs_def)
qed



text \<open>
  C12. The word-wide arithmetic of the integer kernels multiplies all eight bytes of a
  64-bit word by the generator at once: SHLBYTE, MASK and the reduction constant together
  give, byte for byte, the shift-and-reduce step of gfmul.
\<close>

theorem int_shift_reduces_bytes:
  "le_bytes (SHLBYTE v XOR (MASK v AND NBYTES 0x1d)) = map (gfmul 2) (le_bytes v)"
  by (simp add: le_bytes_xtimes gfmul_commute [of 2] gfmul_2_right)

text \<open>
  C13. The tables printed by mktables are what their readers assume: raid6_gfmul is the
  product; raid6_gfinv the inverse of every non-zero byte; raid6_gfexp and raid6_gflog are
  inverse to each other between the exponents below 255 and the non-zero bytes; raid6_gfexi
  is the inverse of a power plus one, for the exponents from 1 to 254; and in a raid6_vgfmul
  row the first half holds the products with the low nibbles and the second half those with
  the high nibbles, so that the two looked up together give the product.
\<close>

theorem gf_tables_hold:
  "raid6_gfmul ! unat a ! unat b = gfmul a b \<and>
   (a \<noteq> 0 \<longrightarrow> gfmul a (raid6_gfinv ! unat a) = 1) \<and>
   (i < 255 \<longrightarrow> raid6_gfexp ! i \<noteq> 0 \<and> unat (raid6_gflog ! unat (raid6_gfexp ! i)) = i) \<and>
   (a \<noteq> 0 \<longrightarrow> unat (raid6_gflog ! unat a) < 255 \<and> raid6_gfexp ! unat (raid6_gflog ! unat a) = a) \<and>
   (0 < i \<and> i < 255 \<longrightarrow> gfmul (raid6_gfexp ! i XOR 1) (raid6_gfexi ! i) = 1) \<and>
   raid6_vgfmul ! unat a ! unat (b AND 15) = gfmul a (b AND 15) \<and>
   raid6_vgfmul ! unat a ! (16 + unat (drop_bit 4 b)) = gfmul a (b AND 0xf0) \<and>
   raid6_vgfmul ! unat a ! unat (b AND 15) XOR raid6_vgfmul ! unat a ! (16 + unat (drop_bit 4 b)) = gfmul a b"
proof (intro conjI impI)
  show "raid6_gfmul ! unat a ! unat b = gfmul a b" by simp
  show "gfmul a (raid6_gfinv ! unat a) = 1" if "a \<noteq> 0"
    using that by (simp add: nth_raid6_gfinv gf.mul_inv)
  show "raid6_gfexp ! i \<noteq> 0" "unat (raid6_gflog ! unat (raid6_gfexp ! i)) = i" if "i < 255"
    using that by (simp_all add: nth_raid6_gfexp nth_raid6_gflog)
  show "unat (raid6_gflog ! unat a) < 255" "raid6_gfexp ! unat (raid6_gflog ! unat a) = a" if nz: "a \<noteq> 0"
  proof -
    obtain j where "j < 255" "a = gexp j" using gexp_surj [OF nz] .
    then show "unat (raid6_gflog ! unat a) < 255" "raid6_gfexp ! unat (raid6_gflog ! unat a) = a"
      by (simp_all add: nth_raid6_gfexp nth_raid6_gflog)
  qed
  show "gfmul (raid6_gfexp ! i XOR 1) (raid6_gfexi ! i) = 1" if "0 < i \<and> i < 255"
    using that gexp_not_1 [of i] gf.mul_inv [of "gexp i XOR 1"]
    by (auto simp: nth_raid6_gfexp nth_raid6_gfexi xor_eq_0)
  show "raid6_vgfmul ! unat a ! unat (b AND 15) = gfmul a (b AND 15)"
    "raid6_vgfmul ! unat a ! (16 + unat (drop_bit 4 b)) = gfmul a (b AND 0xf0)" by (rule vgfmul_low vgfmul_high)+
  show "raid6_vgfmul ! unat a ! unat (b AND 15) XOR raid6_vgfmul ! unat a ! (16 + unat (drop_bit 4 b)) = gfmul a b"
    by (rule vgfmul_nibbles)
qed

theorem gf_tables_hold_witness:
  "gfmul 2 (raid6_gfinv ! unat (2 :: u8)) = 1 \<and> unat (raid6_gflog ! unat (raid6_gfexp ! 7)) = 7 \<and>
   raid6_gfexp ! unat (raid6_gflog ! unat (2 :: u8)) = 2"
  using gf_tables_hold [of 2 0 7] by simp

text \<open>
  C14. The GFNI gen_syndrome and xor_syndrome of raid6_isal.c are drop-in replacements up to
  32 data disks: given the memory for their tables, on either vector width they leave memory
  exactly as any routine of the in-tree table does, for full generation and for every update
  range.
\<close>

theorem isal_syndromes_equal_intree:
  assumes "c \<in> set (raid6_algos as_avx512)" "xor_syndrome c = Some x" "any_fpu r"
    and "stripe_ok disks bytes ptrs m" "disks \<le> 34" "256 dvd bytes" "alloc Tbls"
  shows "isal_gen_syndrome use_avx512 alloc disks bytes ptrs m = gen_syndrome c r disks bytes ptrs m \<and>
    (start \<le> stop \<and> stop < disks - 2 \<longrightarrow>
      isal_xor_syndrome use_avx512 alloc disks start stop bytes ptrs m = x r disks start stop bytes ptrs m)"
proof -
  have "calls_ok c" using raid6_algos_ok [OF assms(1)] .
  with assms(2) have xor: "raid6_xor (gen_syndrome c) any_fpu 256 x" by (simp add: calls_ok_def)
  show ?thesis
    using raid6_gen.gen_syndrome [OF raid6_xor.axioms(1) [OF xor]] raid6_xor.xor_syndrome [OF xor] assms(3-)
      isal_gen_syndrome_correct isal_xor_syndrome_correct by simp
qed

theorem isal_syndromes_equal_intree_witness:
  "isal_gen_syndrome True (\<lambda>_. True) 5 256 demo_ptrs (demo_mem 256) =
     gen_syndrome raid6_avx2x4 demo_fpu 5 256 demo_ptrs (demo_mem 256) \<and>
   isal_xor_syndrome True (\<lambda>_. True) 5 1 2 256 demo_ptrs (demo_mem 256) =
     the (xor_syndrome raid6_avx2x4) demo_fpu 5 1 2 256 demo_ptrs (demo_mem 256)"
proof -
  have "raid6_avx2x4 \<in> set (raid6_algos False)" by (simp add: raid6_algos_defs)
  moreover have "xor_syndrome raid6_avx2x4 = Some (the (xor_syndrome raid6_avx2x4))" by (simp add: raid6_avx2x4_def)
  ultimately show ?thesis
    using isal_syndromes_equal_intree [of raid6_avx2x4 False "the (xor_syndrome raid6_avx2x4)" demo_fpu 5 256 demo_ptrs
        "demo_mem 256" "\<lambda>_. True" True 1 2]
    by simp
qed

text \<open>
  C15. After any history of recovery calls on a CPU, isal_2data_recov restores two lost data
  pages byte for byte and changes nothing else, for up to 64 data disks, whether its tables
  come from the cache, are rebuilt in it, or are allocated for the call; the in-tree
  fallback is not needed when the allocations succeed.
\<close>

theorem isal_2data_recov_restores:
  assumes "cpu_cache saved_2data saved_datap cc"
    and "lost disks bytes {a, b} zp ptrs m0 m" "a < b" "b < disks - 2" "disks \<le> 66"
    and "34 < disks \<longrightarrow> alloc Enc \<and> alloc Inv \<and> alloc Finish_Tbls"
  shows "snd (isal_2data_recov use_avx512 alloc saved disks bytes a b ptrs cc m) =
    Some (ptrs, restored bytes [ptrs ! a, ptrs ! b] m0 m)"
proof -
  obtain cc' where "isal_2data_recov use_avx512 alloc saved disks bytes a b ptrs cc m =
      (cc', Some (ptrs, restored bytes [ptrs ! a, ptrs ! b] m0 m))"
    by (rule isal_2data_recov_correct [OF assms(2-5) _ cpu_cache_ok [OF assms(1)]]) (use assms(6) in auto)
  then show ?thesis by simp
qed

theorem isal_2data_recov_restores_witness:
  "snd (isal_2data_recov True (\<lambda>_. False) (\<lambda>_ _ _ _ _ _. None) 5 64 0 1 demo_ptrs cache_init
      ((gen_syndrome_spec 5 64 demo_ptrs (demo_mem 64))(0 := replicate 64 0xee, 1 := replicate 64 0x33))) =
   Some (demo_ptrs, restored 64 [0, 1] (gen_syndrome_spec 5 64 demo_ptrs (demo_mem 64))
     ((gen_syndrome_spec 5 64 demo_ptrs (demo_mem 64))(0 := replicate 64 0xee, 1 := replicate 64 0x33)))"
  using isal_2data_recov_restores [OF cpu_cache.init [of "\<lambda>_ _ _ _ _ _. None" "\<lambda>_ _ _ _ _. None"] demo_lost(1), of "\<lambda>_. False" True "\<lambda>_ _ _ _ _ _. None"]
  by (simp add: demo_ptrs_def)

text \<open>
  C16. After any history of recovery calls on a CPU, isal_datap_recov restores a lost data
  page and the lost P page byte for byte and changes nothing else, for up to 64 data disks,
  on every path that does not run out of memory.
\<close>

theorem isal_datap_recov_restores:
  assumes "cpu_cache saved_2data saved_datap cc"
    and "lost disks bytes {a, disks - 2} zp ptrs m0 m" "a < disks - 2" "disks \<le> 66"
    and "34 < disks \<longrightarrow> alloc Enc \<and> alloc Inv \<and> alloc Finish_Tbls"
  shows "snd (isal_datap_recov use_avx512 alloc saved disks bytes a ptrs cc m) =
    Some (ptrs, restored bytes [ptrs ! (disks - 2), ptrs ! a] m0 m)"
proof -
  obtain cc' where "isal_datap_recov use_avx512 alloc saved disks bytes a ptrs cc m =
      (cc', Some (ptrs, restored bytes [ptrs ! (disks - 2), ptrs ! a] m0 m))"
    by (rule isal_datap_recov_correct [OF assms(2-4) _ cpu_cache_ok [OF assms(1)]]) (use assms(5) in auto)
  then show ?thesis by simp
qed

theorem isal_datap_recov_restores_witness:
  "snd (isal_datap_recov False (\<lambda>_. False) (\<lambda>_ _ _ _ _. None) 5 64 0 demo_ptrs cache_init
      ((gen_syndrome_spec 5 64 demo_ptrs (demo_mem 64))(0 := replicate 64 0xee, 3 := replicate 64 0x55))) =
   Some (demo_ptrs, restored 64 [3, 0] (gen_syndrome_spec 5 64 demo_ptrs (demo_mem 64))
     ((gen_syndrome_spec 5 64 demo_ptrs (demo_mem 64))(0 := replicate 64 0xee, 3 := replicate 64 0x55)))"
  using isal_datap_recov_restores [OF cpu_cache.init [of "\<lambda>_ _ _ _ _ _. None" "\<lambda>_ _ _ _ _. None"], of 5 64 0 9 demo_ptrs _ _ "\<lambda>_. False" False "\<lambda>_ _ _ _ _. None"]
    demo_lost(2)
  by (simp add: demo_ptrs_def)

text \<open>
  C17. The per-CPU recovery cache never goes stale: after any sequence of two-data and data-
  plus-P recoveries, over any widths, failure patterns and allocation outcomes, a valid
  entry holds coefficient tables that turn the survivors of exactly the pattern named in the
  entry into its lost pages, and its arrays keep their sizes.
\<close>

theorem isal_cache_entry_sound:
  assumes "cpu_cache saved_2data saved_datap cc"
  shows "(cc_valid cc \<longrightarrow> decodes (cc_mode cc) (cc_k cc) (cc_faila cc) (cc_failb cc) (cc_tbls cc)) \<and>
    length (cc_tbls cc) = 2 * 32 * 32 \<and> length (cc_enc cc) = 32 * 32 \<and> length (cc_inv cc) = 32 * 32"
  using cpu_cache_decodes [OF assms] cpu_cache_ok [OF assms] by (simp add: cache_ok_def)

theorem isal_cache_entry_sound_witness:
  "let cc = fst (isal_2data_recov True (\<lambda>_. False) (\<lambda>_ _ _ _ _ _. None) 5 64 0 1 demo_ptrs cache_init (demo_mem 64))
   in cc_valid cc \<and> decodes ISAL_RECOV_2DATA 3 0 1 (cc_tbls cc) \<and> length (cc_tbls cc) = 2048"
proof -
  let ?r = "isal_2data_recov True (\<lambda>_. False) (\<lambda>_ _ _ _ _ _. None) 5 64 0 1 demo_ptrs cache_init (demo_mem 64)"
  have c: "cpu_cache (\<lambda>_ _ _ _ _ _. None) (\<lambda>_ _ _ _ _. None) (fst ?r)"
    by (intro cpu_cache.data2 cpu_cache.init) simp_all
  have i: "cache_ok cache_init" using cpu_cache_ok [OF cpu_cache.init] .
  have "pattern ISAL_RECOV_2DATA 3 0 1" by (simp add: pattern_def)
  then obtain cc' m' where h: "isal_recov_cached True ISAL_RECOV_2DATA 3 0 1 64 demo_ptrs (demo_ptrs ! 0) (demo_ptrs ! 1) cache_init (demo_mem 64) =
      (True, cc', m')" "cc_valid cc'" "cc_mode cc' = ISAL_RECOV_2DATA" "cc_k cc' = 3" "cc_faila cc' = 0" "cc_failb cc' = 1"
    by (rule isal_recov_cached_key [OF i]) simp_all
  have "fst ?r = cc'" using h(1) by (simp add: isal_2data_recov_def Let_def)
  with isal_cache_entry_sound [OF c] h show ?thesis unfolding Let_def by simp
qed

text \<open>
  C18. For more than 32 data disks, or without memory for its tables, isal_gen_syndrome
  returns without writing P and Q: a stripe that was out of sync stays out of sync, where
  every in-tree routine brings it into sync.
\<close>

theorem isal_gen_syndrome_wide:
  assumes "34 < disks \<or> \<not> alloc Tbls" "stripe_ok disks bytes ptrs m" "\<not> synced disks bytes ptrs m"
    and "c \<in> set (raid6_algos as_avx512)" "any_fpu r" "256 dvd bytes"
  shows "isal_gen_syndrome use_avx512 alloc disks bytes ptrs m = m \<and>
    \<not> synced disks bytes ptrs (isal_gen_syndrome use_avx512 alloc disks bytes ptrs m) \<and>
    synced disks bytes ptrs (gen_syndrome c r disks bytes ptrs m)"
proof -
  have "gen_syndrome c r disks bytes ptrs m = gen_syndrome_spec disks bytes ptrs m"
    using raid6_gen.gen_syndrome [OF calls_ok_gen [OF raid6_algos_ok [OF assms(4)]]] assms(2,5,6) by blast
  then show ?thesis
    using isal_gen_syndrome_none [where alloc = alloc, OF assms(1)] assms(2,3) by (simp add: gen_syndrome_spec_synced)
qed

theorem isal_gen_syndrome_wide_witness:
  "isal_gen_syndrome True (\<lambda>_. True) 35 256 [0..<35] demo_wide = demo_wide \<and>
   \<not> synced 35 256 [0..<35] demo_wide \<and>
   synced 35 256 [0..<35] (gen_syndrome raid6_intx1 demo_fpu 35 256 [0..<35] demo_wide)"
  using isal_gen_syndrome_wide [of 35 "\<lambda>_. True" 256 "[0..<35]" demo_wide raid6_intx1 False demo_fpu True]
    demo_wide raid6_algos_int(1) by simp

text \<open>
  C19. The GFNI encoders, which peel three (AVX2) or six (AVX-512) rows at a time over
  vector kernels with tails, leave memory exactly as the byte-wise reference encoder
  ec_encode_data_base does, each with its own table format built from the same coefficient
  matrix, for any number of rows and any length.
\<close>

theorem ec_encode_gfni_equals_base:
  assumes "bufs_ok len k data (take rows coding) m" "rows \<le> length coding" "0 < k" "rows * k \<le> length a"
  shows "ec_encode_data_avx2_gfni len k rows (ec_init_tables_gfni k rows a) data coding m =
      ec_encode_data_base len k rows (ec_init_tables_base k rows a) data coding m \<and>
    ec_encode_data_avx512_gfni len k rows (ec_init_tables_gfni k rows a) data coding m =
      ec_encode_data_base len k rows (ec_init_tables_base k rows a) data coding m"
  unfolding ec_encode_data_base_matrix [OF assms]
    ec_encode_data_avx2_gfni_rows [OF gfni_tbls_init [OF assms(4)] assms(1,2)]
    ec_encode_data_avx512_gfni_rows [OF gfni_tbls_init [OF assms(4)] assms(1,2)]
  by simp

theorem ec_encode_gfni_equals_base_witness:
  "ec_encode_data_avx512_gfni 70 3 2 (ec_init_tables_gfni 3 2 [1, 1, 1, 1, 2, 4]) demo_ptrs [3, 4] (demo_mem 70) =
   ec_encode_data_base 70 3 2 (ec_init_tables_base 3 2 [1, 1, 1, 1, 2, 4]) demo_ptrs [3, 4] (demo_mem 70)"
proof -
  have "bufs_ok 70 3 demo_ptrs (take 2 [3, 4]) (demo_mem 70)" by (simp add: bufs_ok_def demo_ptrs_def)
  then show ?thesis using ec_encode_gfni_equals_base [of 70 3 demo_ptrs 2 "[3, 4]" "demo_mem 70" "[1, 1, 1, 1, 2, 4]"] by simp
qed

text \<open>
  C20. The GFNI single-source update encoders, which peel two rows at a time, leave memory
  exactly as the byte-wise ec_encode_data_update_base does, for any number of rows and any
  length.
\<close>

theorem ec_update_gfni_equals_base:
  assumes "bufs_ok len 1 [data] (take rows coding) m" "rows \<le> length coding" "vec_i < k" "rows * k \<le> length a"
  shows "ec_encode_data_update_avx2_gfni len k rows vec_i (ec_init_tables_gfni k rows a) data coding m =
      ec_encode_data_update_base len k rows vec_i (ec_init_tables_base k rows a) data coding m \<and>
    ec_encode_data_update_avx512_gfni len k rows vec_i (ec_init_tables_gfni k rows a) data coding m =
      ec_encode_data_update_base len k rows vec_i (ec_init_tables_base k rows a) data coding m"
  unfolding ec_encode_data_update_base_matrix [OF assms]
    ec_encode_data_update_avx2_gfni_rows [OF gfni_tbls_init [OF assms(4)] assms(3,1,2)]
    ec_encode_data_update_avx512_gfni_rows [OF gfni_tbls_init [OF assms(4)] assms(3,1,2)]
  by simp

theorem ec_update_gfni_equals_base_witness:
  "ec_encode_data_update_avx512_gfni 70 3 2 1 (ec_init_tables_gfni 3 2 [1, 1, 1, 1, 2, 4]) 1 [3, 4] (demo_mem 70) =
   ec_encode_data_update_base 70 3 2 1 (ec_init_tables_base 3 2 [1, 1, 1, 1, 2, 4]) 1 [3, 4] (demo_mem 70)"
proof -
  have "bufs_ok 70 1 [1] (take 2 [3, 4]) (demo_mem 70)" by (simp add: bufs_ok_def)
  then show ?thesis using ec_update_gfni_equals_base [of 70 1 2 "[3, 4]" "demo_mem 70" 1 3 "[1, 1, 1, 1, 2, 4]"] by simp
qed

text \<open>
  C21. gf_invert_matrix decides invertibility: on an n by n matrix it returns 0 and a two-
  sided inverse when the matrix is regular, and -1 exactly when some non-zero vector is
  mapped to zero.
\<close>

theorem gf_invert_matrix_decides:
  assumes "length A = n * n" "length out = n * n"
  shows "(fst (gf_invert_matrix A out n) = 0 \<longleftrightarrow> \<not> singular n (mat n A)) \<and>
    (fst (gf_invert_matrix A out n) = -1 \<longleftrightarrow> singular n (mat n A)) \<and>
    (\<not> singular n (mat n A) \<longrightarrow>
      meq n (mmul n (mat n (snd (snd (gf_invert_matrix A out n)))) (mat n A)) idm \<and>
      meq n (mmul n (mat n A) (mat n (snd (snd (gf_invert_matrix A out n))))) idm)"
  using assms by (rule gf_invert_matrix_cases) (auto dest: inverse_not_singular)

theorem gf_invert_matrix_decides_witness:
  "\<not> singular 2 (mat 2 [1, 1, 1, 2]) \<and> singular 2 (mat 2 [1, 2, 1, 2])"
proof -
  have "fst (gf_invert_matrix [1, 1, 1, 2] [0, 0, 0, 0] 2) = 0" "fst (gf_invert_matrix [1, 2, 1, 2] [0, 0, 0, 0] 2) = -1"
    by code_simp+
  then show ?thesis
    using gf_invert_matrix_decides [of "[1, 1, 1, 2]" 2 "[0, 0, 0, 0]"]
      gf_invert_matrix_decides [of "[1, 2, 1, 2]" 2 "[0, 0, 0, 0]"] by simp
qed

text \<open>
  C22. The field arithmetic of ISA-L is that of the RAID-6 code: gf_mul through the
  logarithm tables is the shift-and-add product, gf_inv inverts every non-zero byte and maps
  0 to 0, and entry c of gf_table_gfni is an 8 by 8 bit matrix whose affine product with x
  is gf_mul c x.
\<close>

theorem gf_mul_tables:
  "gf_mul a b = gfmul a b \<and> (a \<noteq> 0 \<longrightarrow> gf_mul a (gf_inv a) = 1) \<and> gf_inv 0 = 0 \<and>
   affine_byte (le_bytes (gf_table_gfni ! unat a)) b = gf_mul a b"
  using affine_table isal.mul_inv [of a] by simp

theorem gf_mul_tables_witness:
  "gf_mul 0x53 (gf_inv 0x53) = 1 \<and> affine_byte (le_bytes (gf_table_gfni ! unat (0x53 :: u8))) 0xca = gf_mul 0x53 0xca"
  using gf_mul_tables [of "0x53" "0xca"] by simp

text \<open>
  C23. The 64-bit and the 32-bit variant of gf_vect_mul_init_base build the same 32-byte
  table, which holds the products of the coefficient with every low and with every high
  nibble.
\<close>

theorem gf_vect_mul_init_widths:
  "gf_vect_mul_init_base_32 c = gf_vect_mul_init_base c \<and>
   gf_vect_mul_init_base c = map (\<lambda>i. gf_mul c (word_of_nat i)) [0..<16] @ map (\<lambda>i. gf_mul c (word_of_nat (16 * i))) [0..<16]"
proof -
  have u: "[0..<16] = [0, 1, 2, 3, 4, 5, 6, 7, 8, 9, 10, 11, 12, 13, 14, 15 :: nat]" by code_simp
  show ?thesis unfolding gf_vect_mul_init_base_32_eq gf_vect_mul_init_base_correct u by simp
qed

end
